(* ===== verification/Prelude.thy ===== *)
theory Prelude
  imports Complex_Main "HOL-Library.Monad_Syntax"
begin

text \<open>
  Shared vocabulary of the development: the collections of simplification facts, Go's string
  helpers (\<open>strings.HasPrefix\<close>, \<open>strings.TrimPrefix\<close>), decimal numerals as Go and SQL print and
  read them, and the lemmas on tables (lists of rows addressed by a key) that every component uses.
\<close>

named_theorems run_simps "symbolic execution of programs"
named_theorems db_simps "lookups after updates of the database"
named_theorems guar_intros "introduction rules for guarantees of programs"

section \<open>Strings\<close>

definition HasPrefix :: "string \<Rightarrow> string \<Rightarrow> bool" where
  "HasPrefix s p \<longleftrightarrow> take (length p) s = p"

definition TrimPrefix :: "string \<Rightarrow> string \<Rightarrow> string" where
  "TrimPrefix s p = (if HasPrefix s p then drop (length p) s else s)"

lemma HasPrefix_append [simp]: "HasPrefix (p @ s) p"
  by (simp add: HasPrefix_def)

lemma HasPrefix_iff: "HasPrefix s p \<longleftrightarrow> (\<exists>t. s = p @ t)"
proof
  assume "HasPrefix s p"
  then have "s = p @ drop (length p) s"
    unfolding HasPrefix_def by (metis append_take_drop_id)
  then show "\<exists>t. s = p @ t" ..
next
  assume "\<exists>t. s = p @ t"
  then show "HasPrefix s p" by auto
qed

lemma TrimPrefix_append [simp]: "TrimPrefix (p @ s) p = s"
  by (simp add: TrimPrefix_def)

lemma TrimPrefix_eq_self_iff: "p \<noteq> [] \<Longrightarrow> TrimPrefix s p = s \<longleftrightarrow> \<not> HasPrefix s p"
  by (auto simp: TrimPrefix_def HasPrefix_iff)

section \<open>Decimal numerals\<close>

text \<open>The digits of a natural number, most significant first, as Go's \<open>%d\<close> prints it.\<close>

definition digit_char :: "nat \<Rightarrow> char" where
  "digit_char d = char_of (48 + d)"

definition is_digit :: "char \<Rightarrow> bool" where
  "is_digit c \<longleftrightarrow> 48 \<le> (of_char c :: nat) \<and> (of_char c :: nat) \<le> 57"

definition digit_val :: "char \<Rightarrow> nat" where
  "digit_val c = of_char c - 48"

fun nat_text :: "nat \<Rightarrow> string" where
  "nat_text n = (if n < 10 then [digit_char n] else nat_text (n div 10) @ [digit_char (n mod 10)])"

declare nat_text.simps [simp del]

definition nat_value :: "string \<Rightarrow> nat" where
  "nat_value s = foldl (\<lambda>a c. 10 * a + digit_val c) 0 s"

lemma of_char_digit_char: "d < 10 \<Longrightarrow> (of_char (digit_char d) :: nat) = 48 + d"
  by (simp add: digit_char_def)

lemma is_digit_digit_char [simp]: "d < 10 \<Longrightarrow> is_digit (digit_char d)"
  by (simp add: is_digit_def of_char_digit_char)

lemma digit_val_digit_char [simp]: "d < 10 \<Longrightarrow> digit_val (digit_char d) = d"
  by (simp add: digit_val_def of_char_digit_char)

lemma nat_text_neq_Nil [simp]: "nat_text n \<noteq> []"
  by (subst nat_text.simps) simp

lemma nat_text_digits: "list_all is_digit (nat_text n)"
proof (induction n rule: nat_text.induct)
  case (1 n)
  then show ?case by (subst nat_text.simps) auto
qed

lemma nat_value_snoc: "nat_value (s @ [c]) = 10 * nat_value s + digit_val c"
  by (simp add: nat_value_def)

lemma nat_value_nat_text [simp]: "nat_value (nat_text n) = n"
proof (induction n rule: nat_text.induct)
  case (1 n)
  show ?case
  proof (cases "n < 10")
    case True
    then show ?thesis by (subst nat_text.simps) (simp add: nat_value_def)
  next
    case False
    with 1 show ?thesis by (subst nat_text.simps) (simp add: nat_value_snoc)
  qed
qed

text \<open>Two digits, for the fraction of a money amount.\<close>

definition two_digits :: "nat \<Rightarrow> string" where
  "two_digits n = [digit_char (n div 10), digit_char (n mod 10)]"

lemma length_two_digits [simp]: "length (two_digits n) = 2"
  by (simp add: two_digits_def)

lemma two_digits_digits: "n < 100 \<Longrightarrow> list_all is_digit (two_digits n)"
  by (simp add: two_digits_def)

lemma nat_value_two_digits [simp]: "n < 100 \<Longrightarrow> nat_value (two_digits n) = n"
  by (simp add: two_digits_def nat_value_def)

section \<open>Tables\<close>

text \<open>
  A database table is the list of its rows in insertion order; \<open>key\<close> is its primary key.
  \<open>row_of\<close> is the row a key selects, \<open>upd_row\<close> is \<open>UPDATE ... WHERE key = k\<close>.
\<close>

definition row_of :: "('r \<Rightarrow> 'k) \<Rightarrow> 'k \<Rightarrow> 'r list \<Rightarrow> 'r option" where
  "row_of key k rows = find (\<lambda>r. key r = k) rows"

definition upd_row :: "('r \<Rightarrow> 'k) \<Rightarrow> 'k \<Rightarrow> ('r \<Rightarrow> 'r) \<Rightarrow> 'r list \<Rightarrow> 'r list" where
  "upd_row key k f rows = map (\<lambda>r. if key r = k then f r else r) rows"

lemma row_of_Nil [db_simps]: "row_of key k [] = None"
  by (simp add: row_of_def)

lemma row_of_Cons [db_simps]: "row_of key k (r # rs) = (if key r = k then Some r else row_of key k rs)"
  by (simp add: row_of_def)

lemma row_of_key: "row_of key k rows = Some r \<Longrightarrow> key r = k"
  by (auto simp: row_of_def find_Some_iff)

lemma row_of_in: "row_of key k rows = Some r \<Longrightarrow> r \<in> set rows"
  by (auto simp: row_of_def find_Some_iff)

lemma row_of_None_iff: "row_of key k rows = None \<longleftrightarrow> k \<notin> key ` set rows"
  by (auto simp: row_of_def find_None_iff)

lemma row_of_append [db_simps]:
  "row_of key k (xs @ ys) = (case row_of key k xs of None \<Rightarrow> row_of key k ys | Some r \<Rightarrow> Some r)"
  by (induction xs) (auto simp: row_of_def)

lemma row_of_distinct:
  "distinct (map key rows) \<Longrightarrow> r \<in> set rows \<Longrightarrow> row_of key (key r) rows = Some r"
  by (induction rows) (auto simp: row_of_def)

lemma row_of_upd_row [db_simps]:
  assumes "\<And>r. key (f r) = key r"
  shows "row_of key k (upd_row key j f rows)
       = (if k = j then map_option f (row_of key k rows) else row_of key k rows)"
  using assms by (induction rows) (auto simp: row_of_def upd_row_def)

lemma upd_row_keys [db_simps]:
  "(\<And>r. key (f r) = key r) \<Longrightarrow> map key (upd_row key j f rows) = map key rows"
  by (simp add: upd_row_def)

lemma upd_row_other:
  "(\<And>r. g (f r) = g r) \<Longrightarrow> map g (upd_row key j f rows) = map g rows"
  by (simp add: upd_row_def)

lemma length_upd_row [simp]: "length (upd_row key j f rows) = length rows"
  by (simp add: upd_row_def)

lemma upd_row_absent: "row_of key j rows = None \<Longrightarrow> upd_row key j f rows = rows"
  by (auto simp: upd_row_def row_of_None_iff intro!: map_idI)

lemma set_upd_row: "set (upd_row key j f rows) = (\<lambda>r. if key r = j then f r else r) ` set rows"
  by (simp add: upd_row_def)

end
