(* ===== verification/States.thy ===== *)
theory States
  imports Prelude
begin

text \<open>
  The transfer state machine (\<open>internal/orchestrator/states.go\<close>) and the error taxonomy
  (\<open>internal/orchestrator/errors.go\<close>). The eight state strings are the constructors of
  \<open>TransferState\<close>: the database's \<open>valid_state\<close> constraint admits no other string, and the map
  \<open>validTransitions\<close> has no key outside them.
\<close>

section \<open>The state machine\<close>

datatype TransferState =
    Requested | Validating | Analyzing | Approved | FundsPosted | Completed | Rejected | Returned

fun state_text :: "TransferState \<Rightarrow> string" where
  "state_text Requested = ''Requested''"
| "state_text Validating = ''Validating''"
| "state_text Analyzing = ''Analyzing''"
| "state_text Approved = ''Approved''"
| "state_text FundsPosted = ''FundsPosted''"
| "state_text Completed = ''Completed''"
| "state_text Rejected = ''Rejected''"
| "state_text Returned = ''Returned''"

lemma state_text_inject [simp]: "state_text s = state_text t \<longleftrightarrow> s = t"
  by (cases s; cases t) simp_all

definition validTransitions :: "TransferState \<rightharpoonup> TransferState list" where
  "validTransitions =
     [Requested \<mapsto> [Validating],
      Validating \<mapsto> [Analyzing, Rejected],
      Analyzing \<mapsto> [Approved, Rejected],
      Approved \<mapsto> [FundsPosted],
      FundsPosted \<mapsto> [Completed, Returned],
      Completed \<mapsto> [Returned]]"

definition isValidTransition :: "TransferState \<Rightarrow> TransferState \<Rightarrow> bool" where
  "isValidTransition from to =
     (case validTransitions from of
        None \<Rightarrow> False
      | Some targets \<Rightarrow> list_ex (\<lambda>t. t = to) targets)"

lemma isValidTransition_simps [simp]:
  "isValidTransition Requested t \<longleftrightarrow> t = Validating"
  "isValidTransition Validating t \<longleftrightarrow> t = Analyzing \<or> t = Rejected"
  "isValidTransition Analyzing t \<longleftrightarrow> t = Approved \<or> t = Rejected"
  "isValidTransition Approved t \<longleftrightarrow> t = FundsPosted"
  "isValidTransition FundsPosted t \<longleftrightarrow> t = Completed \<or> t = Returned"
  "isValidTransition Completed t \<longleftrightarrow> t = Returned"
  "isValidTransition Rejected t \<longleftrightarrow> False"
  "isValidTransition Returned t \<longleftrightarrow> False"
  by (auto simp: isValidTransition_def validTransitions_def)

text \<open>One lifecycle step of a transfer, and the lifecycles that start at \<open>Requested\<close>, each with the
  list of the states visited (newest first).\<close>

inductive lifecycle :: "TransferState list \<Rightarrow> bool" where
  lc_start: "lifecycle [Requested]"
| lc_step: "lifecycle (s # h) \<Longrightarrow> isValidTransition s t \<Longrightarrow> lifecycle (t # s # h)"

inductive_cases lifecycle_NilE: "lifecycle []"
inductive_cases lifecycle_ConsE: "lifecycle (s # h)"

text \<open>A rank that every valid transition raises: the machine has no cycle.\<close>

fun state_rank :: "TransferState \<Rightarrow> nat" where
  "state_rank Requested = 0"
| "state_rank Validating = 1"
| "state_rank Analyzing = 2"
| "state_rank Approved = 3"
| "state_rank FundsPosted = 4"
| "state_rank Completed = 5"
| "state_rank Rejected = 6"
| "state_rank Returned = 6"

lemma isValidTransition_rank: "isValidTransition s t \<Longrightarrow> state_rank s < state_rank t"
  by (cases s; cases t) simp_all

lemma isValidTransition_irrefl: "\<not> isValidTransition s s"
  using isValidTransition_rank by blast

lemma lifecycle_rank: "lifecycle (s # h) \<Longrightarrow> \<forall>t \<in> set h. state_rank t < state_rank s"
proof (induction "s # h" arbitrary: s h rule: lifecycle.induct)
  case lc_start
  then show ?case by simp
next
  case (lc_step s h t)
  then show ?case using isValidTransition_rank [of s t] by force
qed

lemma lifecycle_distinct: "lifecycle h \<Longrightarrow> distinct h"
proof (induction rule: lifecycle.induct)
  case lc_start
  then show ?case by simp
next
  case (lc_step s h t)
  have "lifecycle (t # s # h)" using lc_step.hyps by (rule lifecycle.lc_step)
  then have "\<forall>u \<in> set (s # h). state_rank u < state_rank t" by (rule lifecycle_rank)
  with lc_step.IH show ?case by auto
qed

text \<open>The whole history of a transfer is determined by its state, but for the two ways to
  \<open>Rejected\<close> and to \<open>Returned\<close>.\<close>

definition histories :: "TransferState list list" where
  "histories =
    [[Requested], [Validating, Requested], [Analyzing, Validating, Requested],
     [Rejected, Validating, Requested], [Rejected, Analyzing, Validating, Requested],
     [Approved, Analyzing, Validating, Requested],
     [FundsPosted, Approved, Analyzing, Validating, Requested],
     [Completed, FundsPosted, Approved, Analyzing, Validating, Requested],
     [Returned, FundsPosted, Approved, Analyzing, Validating, Requested],
     [Returned, Completed, FundsPosted, Approved, Analyzing, Validating, Requested]]"

lemma histories_step:
  "s # h \<in> set histories \<Longrightarrow> isValidTransition s t \<Longrightarrow> t # s # h \<in> set histories"
  by (cases s) (auto simp: histories_def)

lemma lifecycle_histories: "lifecycle h \<Longrightarrow> h \<in> set histories"
proof (induction rule: lifecycle.induct)
  case lc_start
  show ?case by (simp add: histories_def)
next
  case (lc_step s h t)
  then show ?case by (blast intro: histories_step)
qed

section \<open>Error codes\<close>

definition ErrCodeVSSIQABlur :: string where "ErrCodeVSSIQABlur = ''VSS_IQA_BLUR''"
definition ErrCodeVSSIQAGlare :: string where "ErrCodeVSSIQAGlare = ''VSS_IQA_GLARE''"
definition ErrCodeVSSMICRReadFail :: string where "ErrCodeVSSMICRReadFail = ''VSS_MICR_READ_FAIL''"
definition ErrCodeVSSDuplicateDetected :: string where "ErrCodeVSSDuplicateDetected = ''VSS_DUPLICATE_DETECTED''"
definition ErrCodeVSSAmountMismatch :: string where "ErrCodeVSSAmountMismatch = ''VSS_AMOUNT_MISMATCH''"
definition ErrCodeFSOverDepositLimit :: string where "ErrCodeFSOverDepositLimit = ''FS_OVER_DEPOSIT_LIMIT''"
definition ErrCodeFSAccountIneligible :: string where "ErrCodeFSAccountIneligible = ''FS_ACCOUNT_INELIGIBLE''"
definition ErrCodeFSDuplicateDeposit :: string where "ErrCodeFSDuplicateDeposit = ''FS_DUPLICATE_DEPOSIT''"
definition ErrCodeSysVendorTimeout :: string where "ErrCodeSysVendorTimeout = ''SYS_VENDOR_TIMEOUT''"
definition ErrCodeSysLedgerPostFail :: string where "ErrCodeSysLedgerPostFail = ''SYS_LEDGER_POST_FAIL''"
definition ErrCodeSysInvalidTransition :: string where "ErrCodeSysInvalidTransition = ''SYS_INVALID_TRANSITION''"

lemmas error_code_defs = ErrCodeVSSIQABlur_def ErrCodeVSSIQAGlare_def ErrCodeVSSMICRReadFail_def
  ErrCodeVSSDuplicateDetected_def ErrCodeVSSAmountMismatch_def ErrCodeFSOverDepositLimit_def
  ErrCodeFSAccountIneligible_def ErrCodeFSDuplicateDeposit_def ErrCodeSysVendorTimeout_def
  ErrCodeSysLedgerPostFail_def ErrCodeSysInvalidTransition_def

text \<open>The em dash and the arrow of the messages, as the UTF-8 bytes of the Go source.\<close>

definition em_dash :: string where
  "em_dash = [CHR 0xE2, CHR 0x80, CHR 0x94]"

definition arrow :: string where
  "arrow = [CHR 0xE2, CHR 0x86, CHR 0x92]"

text \<open>\<open>errorMessages\<close>: for each code the operator's message and the investor's message.\<close>

definition errorMessages :: "string \<rightharpoonup> string \<times> string" where
  "errorMessages = map_of
    [(ErrCodeVSSIQABlur, (''VSS IQA failure: image blur detected'',
        ''Image too blurry '' @ em_dash @ '' hold steady on a flat surface with good lighting.'')),
     (ErrCodeVSSIQAGlare, (''VSS IQA failure: glare detected'',
        ''Glare detected '' @ em_dash @ '' avoid direct light on the check.'')),
     (ErrCodeVSSMICRReadFail, (''VSS MICR read failure '' @ em_dash @ '' flagged for operator review'', '''')),
     (ErrCodeVSSDuplicateDetected, (''VSS duplicate check detected'',
        ''This check has already been deposited.'')),
     (ErrCodeVSSAmountMismatch, (''VSS OCR amount mismatch '' @ em_dash @ '' flagged for operator review'', '''')),
     (ErrCodeFSOverDepositLimit, (''Funding Service: amount exceeds deposit limit'',
        ''Maximum single deposit is $5,000. Contact support for larger amounts.'')),
     (ErrCodeFSAccountIneligible, (''Funding Service: account type ineligible for check deposits'',
        ''Check deposits are not available for this account type.'')),
     (ErrCodeFSDuplicateDeposit, (''Funding Service: duplicate deposit detected'',
        ''A similar deposit was recently submitted.'')),
     (ErrCodeSysVendorTimeout, (''Vendor service timed out'',
        ''We'' @ [CHR 39] @ ''re experiencing delays. Please try again shortly.'')),
     (ErrCodeSysLedgerPostFail, (''Ledger posting failed'', '''')),
     (ErrCodeSysInvalidTransition, (''Invalid state transition (concurrent race)'', ''''))]"

text \<open>\<open>DepositError\<close>; the structured detail is an association list of texts.\<close>

record DepositError =
  Code :: string
  Message :: string
  UserMsg :: string
  Detail :: "(string \<times> string) list"

definition NewDepositError :: "string \<Rightarrow> (string \<times> string) list \<Rightarrow> DepositError" where
  "NewDepositError code detail =
     (let msgs = (case errorMessages code of None \<Rightarrow> (code, '''') | Some m \<Rightarrow> m)
      in \<lparr>Code = code, Message = fst msgs, UserMsg = snd msgs, Detail = detail\<rparr>)"

definition DepositError_Error :: "DepositError \<Rightarrow> string" where
  "DepositError_Error e = Code e @ '': '' @ Message e"

definition UserMessageForCode :: "string \<Rightarrow> string" where
  "UserMessageForCode code = (case errorMessages code of Some msgs \<Rightarrow> snd msgs | None \<Rightarrow> '''')"

lemma UserMsg_NewDepositError: "UserMsg (NewDepositError code d) = UserMessageForCode code"
  by (simp add: NewDepositError_def UserMessageForCode_def Let_def split: option.splits)

end
