(* ===== verification/Float64.thy ===== *)
theory Float64
  imports Prelude "HOL-Library.Log_Nat"
begin

text \<open>
  Go's \<open>float64\<close>, as far as the program uses it: amounts are \<open>float64\<close> dollars in every Go struct.
  A value is a rational number, an infinity or NaN (the two zeros are one value; the program never
  divides and never prints a zero amount). \<open>round64\<close> is IEEE-754 binary64 rounding, to nearest with
  ties to even, with gradual underflow and overflow to infinity; comparisons are IEEE comparisons
  (every comparison with NaN is false, \<open>!=\<close> with NaN is true). \<open>fmt2\<close> is \<open>fmt.Sprintf("%.2f", x)\<close>,
  \<open>ParseFloat\<close> reads the decimal texts that SQL prints for NUMERIC values. The section ends with the
  facts that make money in \<open>float64\<close> safe here: every amount of whole cents below 10^14 prints back
  exactly, and a sum of many such amounts is within half a cent of the exact sum.
\<close>

section \<open>Values, comparisons, rounding\<close>

datatype float64 = Fin rat | PInf | NInf | NaN

fun f_lt :: "float64 \<Rightarrow> float64 \<Rightarrow> bool" where
  "f_lt NaN _ = False"
| "f_lt _ NaN = False"
| "f_lt (Fin x) (Fin y) = (x < y)"
| "f_lt NInf NInf = False"
| "f_lt NInf _ = True"
| "f_lt _ NInf = False"
| "f_lt PInf _ = False"
| "f_lt (Fin _) PInf = True"

fun f_eq :: "float64 \<Rightarrow> float64 \<Rightarrow> bool" where
  "f_eq NaN _ = False"
| "f_eq _ NaN = False"
| "f_eq x y = (x = y)"

definition f_le :: "float64 \<Rightarrow> float64 \<Rightarrow> bool" where
  "f_le x y \<longleftrightarrow> f_lt x y \<or> f_eq x y"

definition is_NaN :: "float64 \<Rightarrow> bool" where
  "is_NaN x \<longleftrightarrow> x = NaN"

lemma f_le_Fin [simp]: "f_le (Fin x) (Fin y) \<longleftrightarrow> x \<le> y"
  by (auto simp: f_le_def)

lemma f_le_NaN [simp]: "\<not> f_le NaN x" "\<not> f_le x NaN"
  by (cases x; simp add: f_le_def)+

lemma f_lt_NaN [simp]: "\<not> f_lt x NaN"
  by (cases x) auto

lemma f_eq_NaN [simp]: "\<not> f_eq x NaN"
  by (cases x) auto

lemma f_eq_iff: "f_eq x y \<longleftrightarrow> x = y \<and> x \<noteq> NaN"
  by (cases x; cases y) auto

lemma f_lt_asym: "f_lt x y \<Longrightarrow> \<not> f_le y x"
  by (cases x; cases y) (auto simp: f_le_def)

text \<open>Round to the nearest integer, ties to even.\<close>

definition round_half_even :: "rat \<Rightarrow> int" where
  "round_half_even x =
     (let f = \<lfloor>x\<rfloor>; r = x - of_int f
      in if r < 1/2 then f else if 1/2 < r then f + 1 else if even f then f else f + 1)"

text \<open>Round to the nearest integer, ties away from zero (SQL's NUMERIC).\<close>

definition round_half_away :: "rat \<Rightarrow> int" where
  "round_half_away x = (if 0 \<le> x then \<lfloor>x + 1/2\<rfloor> else - \<lfloor>- x + 1/2\<rfloor>)"

text \<open>The binary exponent of a positive rational: \<open>2 powi k \<le> x < 2 powi (k + 1)\<close>.\<close>

definition ilog2 :: "rat \<Rightarrow> int" where
  "ilog2 x =
     (let (n, d) = quotient_of x; k = bitlen n - bitlen d
      in if 2 powi k \<le> x then k else k - 1)"

text \<open>
  53 significant bits, exponents down to -1074, overflow from 2^1024 on.
\<close>

definition round64 :: "rat \<Rightarrow> float64" where
  "round64 x =
     (if x = 0 then Fin 0
      else let q = max (ilog2 \<bar>x\<bar> - 52) (- 1074);
               y = of_int (round_half_even (x / 2 powi q)) * 2 powi q
           in if 2 ^ 1024 \<le> y then PInf else if y \<le> - (2 ^ 1024) then NInf else Fin y)"

fun f_add :: "float64 \<Rightarrow> float64 \<Rightarrow> float64" where
  "f_add NaN _ = NaN"
| "f_add _ NaN = NaN"
| "f_add (Fin x) (Fin y) = round64 (x + y)"
| "f_add PInf NInf = NaN"
| "f_add NInf PInf = NaN"
| "f_add PInf _ = PInf"
| "f_add _ PInf = PInf"
| "f_add NInf _ = NInf"
| "f_add _ NInf = NInf"

definition f_sum :: "float64 list \<Rightarrow> float64" where
  "f_sum xs = foldl f_add (Fin 0) xs"

section \<open>Money texts\<close>

text \<open>A number of cents as a decimal text with two digits after the point: SQL's text of a NUMERIC
  with scale 2, and Go's \<open>%.2f\<close>.\<close>

definition cents_text :: "int \<Rightarrow> string" where
  "cents_text c =
     (if c < 0 then ''-'' else '''') @ nat_text (nat \<bar>c\<bar> div 100) @ ''.'' @ two_digits (nat \<bar>c\<bar> mod 100)"

fun fmt2 :: "float64 \<Rightarrow> string" where
  "fmt2 (Fin x) =
     (if x < 0 then ''-'' @ cents_text (round_half_even (- 100 * x)) else cents_text (round_half_even (100 * x)))"
| "fmt2 PInf = ''+Inf''"
| "fmt2 NInf = ''-Inf''"
| "fmt2 NaN = ''NaN''"

text \<open>The float64 nearest to a number of cents: what reading a NUMERIC column into a Go \<open>float64\<close> gives.\<close>

definition of_cents :: "int \<Rightarrow> float64" where
  "of_cents c = round64 (of_int c / 100)"

text \<open>Plain decimal texts: an optional minus sign, digits, and optionally a point and more digits.\<close>

definition decimal_value :: "string \<Rightarrow> rat option" where
  "decimal_value s =
     (let neg = HasPrefix s ''-'';
          body = TrimPrefix s ''-'';
          ip = takeWhile is_digit body;
          rest = dropWhile is_digit body;
          sg = (if neg then - 1 else 1)
      in if ip = [] then None
         else if rest = [] then Some (sg * of_nat (nat_value ip))
         else if hd rest = CHR ''.'' \<and> list_all is_digit (tl rest)
         then Some (sg * (of_nat (nat_value ip) + of_nat (nat_value (tl rest)) / 10 ^ length (tl rest)))
         else None)"

definition ParseFloat :: "string \<Rightarrow> float64 option" where
  "ParseFloat s = (if s = ''NaN'' then Some NaN else map_option round64 (decimal_value s))"

section \<open>Rounding errors\<close>

lemma bitlen_nat_bounds:
  assumes "0 < (n::int)"
  shows "2 powi (bitlen n - 1) \<le> (of_int n :: rat)" "(of_int n :: rat) < 2 powi (bitlen n)"
proof -
  have p: "0 < bitlen n" using assms bitlen_nonneg [of n] bitlen_eq_zero_iff [of n] by linarith
  from bitlen_bounds [OF assms]
  have b: "2 ^ nat (bitlen n - 1) \<le> n" "n < 2 ^ nat (bitlen n)" by auto
  have "2 powi (bitlen n - 1) = (of_int (2 ^ nat (bitlen n - 1)) :: rat)"
    using p by (simp add: power_int_def)
  also have "\<dots> \<le> of_int n" using b(1) by (simp only: of_int_le_iff)
  finally show "2 powi (bitlen n - 1) \<le> (of_int n :: rat)" .
  have "(of_int n :: rat) < of_int (2 ^ nat (bitlen n))" using b(2) by (simp only: of_int_less_iff)
  also have "\<dots> = 2 powi (bitlen n)" using p by (simp add: power_int_def)
  finally show "(of_int n :: rat) < 2 powi (bitlen n)" .
qed

lemma ilog2_bounds:
  assumes "0 < x"
  shows "2 powi ilog2 x \<le> x" "x < 2 powi (ilog2 x + 1)"
proof -
  obtain n d where nd: "quotient_of x = (n, d)" by force
  have d: "0 < d" using quotient_of_denom_pos [OF nd] .
  have x: "x = of_int n / of_int d" using quotient_of_div [OF nd] .
  have n: "0 < n" using assms d unfolding x by (simp add: zero_less_divide_iff)
  define k where "k = bitlen n - bitlen d"
  note bn = bitlen_nat_bounds [OF n] and bd = bitlen_nat_bounds [OF d]
  have dpos: "0 < (of_int d :: rat)" using d by simp
  have up: "x < 2 powi (k + 1)"
  proof -
    have "x * of_int d = of_int n" using dpos by (simp add: x)
    also have "\<dots> < 2 powi (k + 1) * 2 powi (bitlen d - 1)"
      using bn(2) by (simp add: k_def flip: power_int_add)
    also have "\<dots> \<le> 2 powi (k + 1) * of_int d" using bd(1) by (intro mult_left_mono) auto
    finally show ?thesis using dpos by simp
  qed
  have lo: "2 powi (k - 1) \<le> x"
  proof -
    have "2 powi (k - 1) * (of_int d :: rat) \<le> 2 powi (k - 1) * 2 powi (bitlen d)"
      using bd(2) by (intro mult_left_mono) auto
    also have "\<dots> = 2 powi (bitlen n - 1)" by (simp add: k_def flip: power_int_add)
    also have "\<dots> \<le> x * of_int d" using bn(1) dpos by (simp add: x)
    finally show ?thesis using dpos by simp
  qed
  have il: "ilog2 x = (if 2 powi k \<le> x then k else k - 1)"
    by (simp add: ilog2_def nd k_def Let_def)
  show "2 powi ilog2 x \<le> x" "x < 2 powi (ilog2 x + 1)"
    using up lo by (auto simp: il)
qed

lemma round_half_even_error: "\<bar>of_int (round_half_even x) - x\<bar> \<le> 1/2"
proof -
  have f: "of_int \<lfloor>x\<rfloor> \<le> x" "x < of_int \<lfloor>x\<rfloor> + 1" by linarith+
  then show ?thesis by (simp add: round_half_even_def Let_def)
qed

lemma round_half_even_eq: "\<bar>x - of_int c\<bar> < 1/2 \<Longrightarrow> round_half_even x = c"
proof -
  assume a: "\<bar>x - of_int c\<bar> < 1/2"
  have "\<bar>of_int (round_half_even x) - x\<bar> \<le> 1/2" by (rule round_half_even_error)
  with a have "\<bar>of_int (round_half_even x) - of_int c :: rat\<bar> < 1" by linarith
  then have "\<bar>of_int (round_half_even x - c) :: rat\<bar> < 1" by simp
  then have "\<bar>round_half_even x - c\<bar> < 1" by (simp only: of_int_abs [symmetric] of_int_less_1_iff)
  then show ?thesis by simp
qed

lemma round_half_even_of_int [simp]: "round_half_even (of_int c) = c"
  by (rule round_half_even_eq) simp

lemma round_half_away_eq: "\<bar>x - of_int c\<bar> < 1/2 \<Longrightarrow> round_half_away x = c"
proof -
  assume a: "\<bar>x - of_int c\<bar> < 1/2"
  show ?thesis
  proof (cases "0 \<le> x")
    case True
    have "of_int c \<le> x + 1/2" "x + 1/2 < of_int c + 1" using a by linarith+
    then have "\<lfloor>x + 1/2\<rfloor> = c" by (simp add: floor_eq_iff)
    with True show ?thesis by (simp add: round_half_away_def)
  next
    case False
    have "of_int (- c) \<le> - x + 1/2" "- x + 1/2 < of_int (- c) + 1" using a by (simp_all, linarith+)
    then have "\<lfloor>- x + 1/2\<rfloor> = - c" by (simp add: floor_eq_iff)
    with False show ?thesis by (simp add: round_half_away_def)
  qed
qed

lemma round_half_away_of_int [simp]: "round_half_away (of_int c) = c"
  by (rule round_half_away_eq) simp

text \<open>The relative error of binary64 rounding in the normal range is at most 2^-53.\<close>

lemma round64_error:
  assumes lo: "2 powi (- 1022) \<le> \<bar>x\<bar>" and hi: "\<bar>x\<bar> < 2 ^ 1023"
  obtains y where "round64 x = Fin y" "\<bar>y - x\<bar> \<le> \<bar>x\<bar> / 2 ^ 53"
proof -
  have x0: "x \<noteq> 0" using lo by (auto simp: power_int_def)
  define k where "k = ilog2 \<bar>x\<bar>"
  have k: "2 powi k \<le> \<bar>x\<bar>" "\<bar>x\<bar> < 2 powi (k + 1)"
    using ilog2_bounds [of "\<bar>x\<bar>"] x0 by (auto simp: k_def)
  have "2 powi (- 1022) < (2::rat) powi (k + 1)" using lo k(2) by linarith
  then have kge: "- 1022 \<le> k"
    using power_int_increasing [of "k + 1" "- 1022" "2::rat"] by (cases "k + 1 \<le> - 1022") auto
  define q where "q = max (k - 52) (- 1074)"
  have q: "q = k - 52" using kge by (simp add: q_def)
  define y :: rat where "y = of_int (round_half_even (x / 2 powi q)) * 2 powi q"
  have p: "0 < (2::rat) powi q" by simp
  have "y - x = (of_int (round_half_even (x / 2 powi q)) - x / 2 powi q) * 2 powi q"
    by (simp add: y_def left_diff_distrib)
  then have "\<bar>y - x\<bar> \<le> 1/2 * 2 powi q"
    using round_half_even_error [of "x / 2 powi q"] p by (simp add: abs_mult)
  also have "\<dots> = 2 powi k / 2 ^ 53"
    by (simp add: q power_int_diff)
  also have "\<dots> \<le> \<bar>x\<bar> / 2 ^ 53" using k(1) by (intro divide_right_mono) auto
  finally have err: "\<bar>y - x\<bar> \<le> \<bar>x\<bar> / 2 ^ 53" .
  have "\<bar>y\<bar> \<le> \<bar>x\<bar> + \<bar>x\<bar> / 2 ^ 53" using err by linarith
  also have "\<dots> \<le> 2 * \<bar>x\<bar>" by simp
  also have "\<dots> < 2 * 2 ^ 1023" using hi by simp
  also have "\<dots> = 2 ^ 1024" by simp
  finally have b: "\<bar>y\<bar> < 2 ^ 1024" .
  then have "y < 2 ^ 1024" "- (2 ^ 1024) < y" by linarith+
  then have "round64 x = Fin y"
    using x0 by (simp add: round64_def Let_def y_def q_def k_def)
  then show ?thesis using err by (rule that)
qed

lemma round64_of_int:
  assumes "\<bar>n\<bar> < 2 ^ 53"
  shows "round64 (of_int n) = Fin (of_int n)"
proof (cases "n = 0")
  case True
  then show ?thesis by (simp add: round64_def)
next
  case False
  define k where "k = ilog2 \<bar>of_int n :: rat\<bar>"
  have k: "2 powi k \<le> \<bar>of_int n :: rat\<bar>" using ilog2_bounds(1) [of "\<bar>of_int n\<bar>"] False by (simp add: k_def)
  also have "\<dots> < 2 powi 53" using assms by (simp flip: of_int_abs add: power_int_def of_int_less_numeral_power_cancel_iff)
  finally have "k < 53" using power_int_increasing [of 53 k "2::rat"] by (cases "53 \<le> k") auto
  define q where "q = max (k - 52) (- 1074)"
  have q: "q \<le> 0" using \<open>k < 53\<close> by (simp add: q_def)
  have e: "of_int n / 2 powi q = (of_int (n * 2 ^ nat (- q)) :: rat)"
  proof -
    have "of_int n / 2 powi q = (of_int n * 2 powi (- q) :: rat)" by (simp add: power_int_minus divide_inverse)
    also have "(2 powi (- q) :: rat) = 2 ^ nat (- q)" using q by (simp add: power_int_def)
    finally show ?thesis by simp
  qed
  have lt: "\<bar>of_int n :: rat\<bar> < 2 ^ 1024"
  proof -
    have "\<bar>of_int n :: rat\<bar> < 2 ^ 53" using assms by (simp flip: of_int_abs add: of_int_less_numeral_power_cancel_iff)
    also have "(2 :: rat) ^ 53 < 2 ^ 1024" by (rule power_strict_increasing) simp_all
    finally show ?thesis .
  qed
  then have "(of_int n :: rat) < 2 ^ 1024" "- (2 ^ 1024) < (of_int n :: rat)" by linarith+
  moreover have "of_int (round_half_even (of_int n / 2 powi q)) * 2 powi q = (of_int n :: rat)"
    unfolding e round_half_even_of_int unfolding e [symmetric] by simp
  ultimately show ?thesis
    using False by (simp add: round64_def Let_def flip: q_def k_def)
qed

lemma of_cents_dollars: "\<bar>n\<bar> < 2 ^ 53 \<Longrightarrow> of_cents (100 * n) = Fin (of_int n)"
  using round64_of_int [of n] by (simp add: of_cents_def)

lemma of_cents_error:
  assumes "\<bar>c\<bar> \<le> 10 ^ 14"
  obtains y where "of_cents c = Fin y" "\<bar>y - of_int c / 100\<bar> \<le> \<bar>of_int c / 100\<bar> / 2 ^ 53"
proof (cases "c = 0")
  case True
  then show ?thesis using that [of 0] by (simp add: of_cents_def round64_def)
next
  case False
  have c: "1 \<le> \<bar>of_int c :: rat\<bar>" "\<bar>of_int c :: rat\<bar> \<le> 10 ^ 14"
    using False assms by (simp_all flip: of_int_abs add: of_int_le_numeral_power_cancel_iff)
  have "2 powi (- 1022) \<le> (2 powi (- 7) :: rat)" by (rule power_int_increasing) auto
  also have "\<dots> = 1 / 128" by (simp add: power_int_minus)
  also have "\<dots> \<le> \<bar>of_int c / 100\<bar>" using c(1) by simp
  finally have lo: "2 powi (- 1022) \<le> \<bar>of_int c / 100 :: rat\<bar>" .
  have hi: "\<bar>of_int c / 100 :: rat\<bar> < 2 ^ 1023" using c(2) by simp
  from round64_error [OF lo hi] that show ?thesis unfolding of_cents_def by blast
qed

lemma cents_text_neg: "0 < c \<Longrightarrow> cents_text (- c) = ''-'' @ cents_text c"
  by (simp add: cents_text_def)

theorem fmt2_of_cents:
  assumes "\<bar>c\<bar> \<le> 10 ^ 14"
  shows "fmt2 (of_cents c) = cents_text c"
proof -
  obtain y where y: "of_cents c = Fin y" "\<bar>y - of_int c / 100\<bar> \<le> \<bar>of_int c / 100\<bar> / 2 ^ 53"
    using of_cents_error [OF assms] by blast
  have cb: "\<bar>of_int c :: rat\<bar> \<le> 10 ^ 14"
    using assms by (simp flip: of_int_abs add: of_int_le_numeral_power_cancel_iff)
  have near: "\<bar>100 * y - of_int c\<bar> < 1/2"
    using y(2) cb by (simp add: abs_if field_simps split: if_splits)
  then have r: "round_half_even (100 * y) = c" by (rule round_half_even_eq)
  have near': "\<bar>- 100 * y - of_int (- c)\<bar> < 1/2" using near by (simp add: abs_minus_commute)
  then have r': "round_half_even (- 100 * y) = - c" by (rule round_half_even_eq)
  show ?thesis
  proof (cases "c < 0")
    case True
    then have "(of_int c :: rat) \<le> - 1" by simp
    with near have "y < 0" by linarith
    with r' True show ?thesis using cents_text_neg [of "- c"] by (simp add: y(1))
  next
    case False
    have "0 \<le> y"
    proof (cases "c = 0")
      case True then show ?thesis using y(2) by simp
    next
      case nz: False
      with False have "1 \<le> (of_int c :: rat)" by simp
      with near show ?thesis by linarith
    qed
    with r show ?thesis by (simp add: y(1))
  qed
qed

section \<open>Sums of amounts\<close>

lemma f_sum_Nil [simp]: "f_sum [] = Fin 0"
  by (simp add: f_sum_def)

lemma f_sum_snoc: "f_sum (xs @ [x]) = f_add (f_sum xs) x"
  by (simp add: f_sum_def)

definition sum_err :: rat where
  "sum_err = 3 * 10 ^ 8 / 2 ^ 53"

text \<open>One addition of a positive amount to a sum that is near its exact value.\<close>

lemma round64_sum_step:
  fixes s a t r :: rat
  assumes "0 \<le> t" "1 \<le> r" "t + r \<le> 10 ^ 10" "\<bar>s - t / 100\<bar> \<le> 4 / 1000" "\<bar>a - r / 100\<bar> \<le> 1 / 1000"
  shows "\<exists>y. round64 (s + a) = Fin y \<and> \<bar>y - (s + a)\<bar> \<le> 2 * 10 ^ 8 / 2 ^ 53"
proof -
  have lo: "1 / 1000 \<le> s + a" using assms(4,5,1,2) by linarith
  have hi: "s + a \<le> 2 * 10 ^ 8"
  proof -
    have "s + a \<le> (t + r) / 100 + 1" using assms(4,5) unfolding add_divide_distrib by linarith
    also have "\<dots> \<le> 10 ^ 10 / 100 + 1" using assms(3) by simp
    finally show ?thesis by simp
  qed
  have "2 powi (- 1022) \<le> (2 powi (- 10) :: rat)" by (rule power_int_increasing) auto
  also have "\<dots> = 1 / 1024" by (simp add: power_int_minus)
  also have "\<dots> \<le> \<bar>s + a\<bar>" using lo by simp
  finally have lo': "2 powi (- 1022) \<le> \<bar>s + a\<bar>" .
  have "\<bar>s + a\<bar> \<le> 2 * 10 ^ 8" using lo hi by simp
  also have "\<dots> < (2 :: rat) ^ 28" by simp
  also have "\<dots> < (2 :: rat) ^ 1023" by (rule power_strict_increasing) simp_all
  finally obtain y where "round64 (s + a) = Fin y" "\<bar>y - (s + a)\<bar> \<le> \<bar>s + a\<bar> / 2 ^ 53"
    using round64_error [OF lo'] by blast
  moreover from this(2) have "\<bar>y - (s + a)\<bar> \<le> 2 * 10 ^ 8 / 2 ^ 53" using lo hi by (simp add: field_simps)
  ultimately show ?thesis by blast
qed

lemma f_sum_of_cents:
  assumes "list_all (\<lambda>c. 0 < c) cs" "sum_list cs \<le> 10 ^ 10" "length cs \<le> 100000"
  shows "\<exists>s. f_sum (map of_cents cs) = Fin s
           \<and> \<bar>s - of_int (sum_list cs) / 100\<bar> \<le> of_nat (length cs) * sum_err"
  using assms
proof (induction cs rule: rev_induct)
  case Nil
  then show ?case by simp
next
  case (snoc c cs)
  have pos: "0 < c" "list_all (\<lambda>c. 0 < c) cs" using snoc.prems by auto
  have nn: "0 \<le> sum_list cs" using pos(2) by (intro sum_list_nonneg) (auto simp: list_all_iff)
  have bnd: "sum_list cs + c \<le> 10 ^ 10" "length cs < 100000" using snoc.prems by auto
  obtain s where s: "f_sum (map of_cents cs) = Fin s"
    "\<bar>s - of_int (sum_list cs) / 100\<bar> \<le> of_nat (length cs) * sum_err"
    using snoc.IH pos(2) bnd pos(1) by auto
  have c14: "\<bar>c\<bar> \<le> 10 ^ 14" using pos(1) bnd(1) nn by simp
  obtain a where a: "of_cents c = Fin a" "\<bar>a - of_int c / 100\<bar> \<le> \<bar>of_int c / 100\<bar> / 2 ^ 53"
    using of_cents_error [OF c14] by blast
  define t :: rat where "t = of_int (sum_list cs)"
  define r :: rat where "r = of_int c"
  have tr: "0 \<le> t" "1 \<le> r" "t + r \<le> 10 ^ 10"
  proof -
    show "0 \<le> t" "1 \<le> r" using nn pos(1) by (simp_all add: t_def r_def)
    have "(of_int (sum_list cs + c) :: rat) \<le> of_int (10 ^ 10)" using bnd(1) by (simp only: of_int_le_iff)
    then show "t + r \<le> 10 ^ 10" by (simp add: t_def r_def)
  qed
  define n :: rat where "n = of_nat (length cs)"
  have n: "0 \<le> n" "n \<le> 100000" using bnd(2) by (simp_all add: n_def)
  have se: "sum_err = 3 * 10 ^ 8 / 2 ^ 53" by (rule sum_err_def)
  have ne: "n * sum_err \<le> 100000 * sum_err" using n by (intro mult_right_mono) (simp_all add: se)
  have s': "\<bar>s - t / 100\<bar> \<le> n * sum_err" using s(2) by (simp add: t_def n_def)
  then have s1: "\<bar>s - t / 100\<bar> \<le> 4 / 1000" using ne by (simp add: se)
  have a': "\<bar>a - r / 100\<bar> \<le> 10 ^ 8 / 2 ^ 53" using a(2) tr by (simp add: r_def [symmetric] field_simps)
  have a1: "\<bar>a - r / 100\<bar> \<le> 1 / 1000" using a' by (rule order_trans) simp
  obtain y where y: "round64 (s + a) = Fin y" and y': "\<bar>y - (s + a)\<bar> \<le> 2 * 10 ^ 8 / 2 ^ 53"
    using round64_sum_step [OF tr s1 a1] by blast
  have "\<bar>y - (t + r) / 100\<bar> \<le> \<bar>y - (s + a)\<bar> + \<bar>s - t / 100\<bar> + \<bar>a - r / 100\<bar>"
    by (simp add: add_divide_distrib)
  also have "\<dots> \<le> 2 * 10 ^ 8 / 2 ^ 53 + n * sum_err + 10 ^ 8 / 2 ^ 53"
    using y' s' a' by linarith
  also have "\<dots> = (n + 1) * sum_err" by (simp add: se field_simps)
  finally have "\<bar>y - (t + r) / 100\<bar> \<le> (n + 1) * sum_err" .
  then show ?case using s(1) a(1) y
    by (simp add: f_sum_snoc t_def r_def n_def add.commute)
qed

section \<open>Reading money texts back\<close>

lemma not_is_digit_simps [simp]: "\<not> is_digit CHR ''-''" "\<not> is_digit CHR ''.''"
  by (simp_all add: is_digit_def)

lemma nat_text_no_minus: "\<not> HasPrefix (nat_text n @ s) ''-''"
  using nat_text_digits [of n] by (cases "nat_text n") (auto simp: HasPrefix_def)

lemma takeWhile_nat_text: "takeWhile is_digit (nat_text n @ ''.'' @ s) = nat_text n"
  using nat_text_digits [of n] by (simp add: takeWhile_append2 list_all_iff)

lemma dropWhile_nat_text: "dropWhile is_digit (nat_text n @ ''.'' @ s) = ''.'' @ s"
  using nat_text_digits [of n] by (simp add: dropWhile_append2 list_all_iff)

lemma rat_div_100: "(of_nat (n div 100) + of_nat (n mod 100) / 100 :: rat) = of_nat n / 100"
proof -
  have "(of_nat n :: rat) = of_nat (100 * (n div 100) + n mod 100)" by simp
  also have "\<dots> = 100 * of_nat (n div 100) + of_nat (n mod 100)" by (simp only: of_nat_add of_nat_mult of_nat_numeral)
  finally show ?thesis by (simp add: add_divide_distrib)
qed

lemma decimal_value_body:
  "decimal_value (nat_text (n div 100) @ ''.'' @ two_digits (n mod 100)) = Some (of_nat n / 100)"
  using nat_text_no_minus [of "n div 100" "''.'' @ two_digits (n mod 100)"]
    takeWhile_nat_text [of "n div 100" "two_digits (n mod 100)"]
    dropWhile_nat_text [of "n div 100" "two_digits (n mod 100)"] rat_div_100 [of n]
  by (simp add: decimal_value_def TrimPrefix_def two_digits_digits del: append_Cons)

lemma decimal_value_minus:
  "\<not> HasPrefix s ''-'' \<Longrightarrow> decimal_value (''-'' @ s) = map_option uminus (decimal_value s)"
  by (simp add: decimal_value_def TrimPrefix_def Let_def HasPrefix_def)

theorem decimal_value_cents_text: "decimal_value (cents_text c) = Some (of_int c / 100)"
proof -
  have p: "decimal_value (cents_text k) = Some (of_int k / 100)" if "0 \<le> k" for k
    using that decimal_value_body [of "nat k"] by (simp add: cents_text_def)
  show ?thesis
  proof (cases "c < 0")
    case True
    then have t: "cents_text c = ''-'' @ cents_text (- c)" using cents_text_neg [of "- c"] by simp
    have "\<not> HasPrefix (cents_text (- c)) ''-''"
      using True nat_text_no_minus by (simp add: cents_text_def)
    with True p [of "- c"] show ?thesis unfolding t by (subst decimal_value_minus) simp_all
  next
    case False
    then show ?thesis by (simp add: p)
  qed
qed

lemma cents_text_neq_NaN: "cents_text c \<noteq> ''NaN''"
proof
  assume a: "cents_text c = ''NaN''"
  have "decimal_value ''NaN'' = None" by (simp add: decimal_value_def Let_def TrimPrefix_def HasPrefix_def is_digit_def)
  with decimal_value_cents_text [of c] a show False by simp
qed

theorem ParseFloat_cents_text: "ParseFloat (cents_text c) = Some (of_cents c)"
  by (simp add: ParseFloat_def cents_text_neq_NaN decimal_value_cents_text of_cents_def)

end
