(* ===== verification/Types.thy ===== *)
theory Types
  imports States Float64
begin

text \<open>
  The data the packages exchange: Go errors as values, JSON payloads, the Vendor Service request and
  response (\<open>internal/vendorclient/interface.go\<close>), the funding data (\<open>internal/funding/interface.go\<close>),
  the ledger's enumerations (\<open>internal/ledger/interface.go\<close>) and the settlement file
  (\<open>internal/settlement/engine.go\<close>). UUIDs are their canonical texts, instants are nanoseconds since
  the Unix epoch, calendar days are day numbers since the Unix epoch.
\<close>

type_synonym uuid = string
type_synonym instant = int
type_synonym day = int

section \<open>Errors\<close>

text \<open>
  \<open>EDriver\<close> is any failure reported by the database driver (connection, constraint, malformed
  parameter), \<open>EMsg\<close> an \<open>errors.New\<close> or a \<open>fmt.Errorf\<close> without \<open>%w\<close>, \<open>EWrap\<close> a \<open>fmt.Errorf\<close> with \<open>%w\<close>.
\<close>

datatype go_error =
    ErrOptimisticLock
  | ErrNotFound
  | ErrInvalidTransition TransferState TransferState
  | ErrInvalidReturnState string TransferState
  | ErrReturnsNotFound
  | EDriver string
  | EMsg string
  | EWrap string go_error

primrec ErrorsIs :: "go_error \<Rightarrow> go_error \<Rightarrow> bool" where
  "ErrorsIs ErrOptimisticLock t = (t = ErrOptimisticLock)"
| "ErrorsIs ErrNotFound t = (t = ErrNotFound)"
| "ErrorsIs (ErrInvalidTransition a b) t = (t = ErrInvalidTransition a b)"
| "ErrorsIs (ErrInvalidReturnState i s) t = (t = ErrInvalidReturnState i s)"
| "ErrorsIs ErrReturnsNotFound t = (t = ErrReturnsNotFound)"
| "ErrorsIs (EDriver m) t = (t = EDriver m)"
| "ErrorsIs (EMsg m) t = (t = EMsg m)"
| "ErrorsIs (EWrap m e) t = (t = EWrap m e \<or> ErrorsIs e t)"

text \<open>\<open>errors.As(err, &stateErr)\<close> for \<open>*returns.ErrInvalidReturnState\<close>.\<close>

primrec AsInvalidReturnState :: "go_error \<Rightarrow> (string \<times> TransferState) option" where
  "AsInvalidReturnState ErrOptimisticLock = None"
| "AsInvalidReturnState ErrNotFound = None"
| "AsInvalidReturnState (ErrInvalidTransition a b) = None"
| "AsInvalidReturnState (ErrInvalidReturnState i s) = Some (i, s)"
| "AsInvalidReturnState ErrReturnsNotFound = None"
| "AsInvalidReturnState (EDriver m) = None"
| "AsInvalidReturnState (EMsg m) = None"
| "AsInvalidReturnState (EWrap m e) = AsInvalidReturnState e"

section \<open>JSON payloads\<close>

text \<open>A \<open>map[string]interface{}\<close> is the list of its members; \<open>json.Marshal\<close> fails on NaN and infinities.
  \<open>JText m\<close> is the string \<open>string(b)\<close> for the bytes \<open>b\<close> that \<open>json.Marshal\<close> makes of \<open>m\<close>.\<close>

datatype jval =
    JNull
  | JStr string
  | JNum float64
  | JInt int
  | JBool bool
  | JTime instant
  | JText "(string \<times> jval) list"
  | JObj "(string \<times> jval) list"
  | JArr "jval list"

type_synonym json = "(string \<times> jval) list"

primrec jval_ok :: "jval \<Rightarrow> bool" where
  "jval_ok JNull = True"
| "jval_ok (JStr s) = True"
| "jval_ok (JNum x) = (case x of Fin r \<Rightarrow> True | _ \<Rightarrow> False)"
| "jval_ok (JInt i) = True"
| "jval_ok (JBool b) = True"
| "jval_ok (JTime t) = True"
| "jval_ok (JText m) = True"
| "jval_ok (JObj m) = list_all snd (map (map_prod id jval_ok) m)"
| "jval_ok (JArr vs) = list_all id (map jval_ok vs)"

definition marshal_ok :: "json \<Rightarrow> bool" where
  "marshal_ok m \<longleftrightarrow> list_all (\<lambda>(k, v). jval_ok v) m"

lemma marshal_ok_simps [simp]:
  "marshal_ok []" "marshal_ok ((k, v) # m) \<longleftrightarrow> jval_ok v \<and> marshal_ok m"
  "marshal_ok (m @ m') \<longleftrightarrow> marshal_ok m \<and> marshal_ok m'"
  by (simp_all add: marshal_ok_def)

lemma jval_ok_JObj [simp]: "jval_ok (JObj m) = marshal_ok m"
  by (auto simp: marshal_ok_def list_all_iff)

lemma jval_ok_JArr [simp]: "jval_ok (JArr vs) = list_all jval_ok vs"
  by (simp add: list_all_iff)

declare jval_ok.simps(8,9) [simp del]

section \<open>Vendor Service\<close>

record MICRData =
  Routing :: string
  Account :: string
  CheckNumber :: string

record ValidateRequest =
  vq_AccountID :: string
  vq_Amount :: float64
  vq_FrontImage :: string
  vq_BackImage :: string
  vq_Scenario :: string

record ValidateResponse =
  IQAStatus :: string
  IQAErrorType :: "string option"
  vs_MICRData :: "MICRData option"
  OCRAmount :: float64
  ConfidenceScore :: float64
  DuplicateFlag :: bool
  DuplicateOriginalTxID :: "string option"
  TransactionID :: string
  ScenarioUsed :: string

section \<open>Funding\<close>

datatype Decision = DecisionApprove | DecisionReject | DecisionFlagForReview

fun decision_text :: "Decision \<Rightarrow> string" where
  "decision_text DecisionApprove = ''APPROVE''"
| "decision_text DecisionReject = ''REJECT''"
| "decision_text DecisionFlagForReview = ''FLAG_FOR_REVIEW''"

record FeeConfig =
  ReturnedCheck :: float64
  fee_Currency :: string

record RulesConfig =
  DepositLimit :: float64
  IneligibleAccountTypes :: "string list"
  ContributionCap :: float64
  Fees :: FeeConfig

record VSSResult =
  MICRReadable :: bool
  vr_OCRAmount :: float64

record EvaluateRequest =
  rq_TransferID :: uuid
  rq_AccountID :: uuid
  rq_CorrespondentID :: uuid
  rq_Amount :: float64
  rq_AccountType :: string
  rq_AccountStatus :: string
  rq_ContributionType :: string
  rq_RulesConfig :: RulesConfig
  rq_VSSResult :: "VSSResult option"

record FundingDecision =
  fd_Decision :: Decision
  fd_ReasonCode :: string
  fd_ResolvedOmnibusID :: uuid
  fd_ContributionType :: string

section \<open>Ledger\<close>

datatype Side = SideDebit | SideCredit

datatype EntryType = EntryTypeProvisionalCredit | EntryTypeReversal | EntryTypeFee

definition MemoToEntryType :: "string \<rightharpoonup> EntryType" where
  "MemoToEntryType =
     [''FREE'' \<mapsto> EntryTypeProvisionalCredit,
      ''REVERSAL'' \<mapsto> EntryTypeReversal,
      ''RETURNED_CHECK_FEE'' \<mapsto> EntryTypeFee]"

text \<open>\<open>ledger.LedgerEntry\<close> before it is inserted: \<open>Amount\<close> is a decimal text,
  \<open>CreatedAt\<close> is \<open>None\<close> for the zero time.\<close>

record LedgerEntry =
  le_ID :: uuid
  le_MovementID :: uuid
  le_TransferID :: uuid
  le_AccountID :: uuid
  le_Side :: Side
  le_Amount :: string
  le_EntryType :: EntryType
  le_Memo :: string
  le_CreatedAt :: "instant option"

section \<open>Settlement files\<close>

record MICREntry =
  me_Routing :: string
  me_Account :: string
  me_CheckNumber :: string

record Check =
  ck_TransferID :: string
  ck_MICR :: MICREntry
  ck_Amount :: float64
  ck_FrontImageRef :: string
  ck_BackImageRef :: string

record FileHeader =
  Sender :: string
  CreatedAt :: instant

record CashLetter =
  cl_CorrespondentID :: string
  cl_CutoffDate :: string
  cl_Bundles :: "Check list list"
  cl_TotalAmount :: float64
  cl_RecordCount :: nat

record SettlementFile =
  sf_FileHeader :: FileHeader
  sf_CashLetter :: CashLetter

record settlementAck =
  ack_BatchID :: string
  ack_Status :: string
  ack_AcknowledgedAt :: "instant option"

end
