(* ===== verification/Tables.thy ===== *)
theory Tables
  imports Types
begin

text \<open>
  The database of \<open>db/migrations\<close>: SQL's NUMERIC type, one record per table, and the database state.
  A table is the list of its rows in insertion order. The constraints of the migrations (primary
  keys, \<open>valid_amount\<close>, \<open>unique_vendor_tx\<close>, \<open>unique_entry_per_type\<close>, foreign keys) are predicates
  that the statements of the theories \<open>Store...\<close> check before they write.
\<close>

section \<open>NUMERIC with scale 2\<close>

text \<open>A NUMERIC(p,2) value is a number of cents or NaN; a query parameter may also be infinite or have
  more digits.\<close>

datatype numeric = Num int | NumNaN

datatype sql_number = SNum rat | SPInf | SNInf | SNaN

text \<open>Assignment to a NUMERIC(p,2) column: rounding to cents, ties away from zero, and the range check;
  NaN is a NUMERIC value of every precision.\<close>

fun to_numeric :: "nat \<Rightarrow> sql_number \<Rightarrow> numeric option" where
  "to_numeric p (SNum r) =
     (let c = round_half_away (100 * r) in if \<bar>c\<bar> < 10 ^ p then Some (Num c) else None)"
| "to_numeric p SNaN = Some NumNaN"
| "to_numeric p _ = None"

text \<open>The text of a parameter read as a number.\<close>

definition numeric_in :: "string \<Rightarrow> sql_number option" where
  "numeric_in s =
     (if s = ''NaN'' then Some SNaN else if s = ''+Inf'' then Some SPInf else if s = ''-Inf'' then Some SNInf
      else map_option SNum (decimal_value s))"

fun numeric_text :: "numeric \<Rightarrow> string" where
  "numeric_text (Num c) = cents_text c"
| "numeric_text NumNaN = ''NaN''"

fun numeric_float :: "numeric \<Rightarrow> float64" where
  "numeric_float (Num c) = of_cents c"
| "numeric_float NumNaN = NaN"

text \<open>Comparisons: SQL orders NaN above every number and equal to itself.\<close>

fun numeric_pos :: "numeric \<Rightarrow> bool" where
  "numeric_pos (Num c) = (0 < c)"
| "numeric_pos NumNaN = True"

fun numeric_ge :: "numeric \<Rightarrow> sql_number \<Rightarrow> bool" where
  "numeric_ge NumNaN _ = True"
| "numeric_ge (Num c) (SNum r) = (r \<le> of_int c / 100)"
| "numeric_ge (Num c) SNInf = True"
| "numeric_ge (Num c) _ = False"

fun numeric_le :: "numeric \<Rightarrow> sql_number \<Rightarrow> bool" where
  "numeric_le NumNaN y = (y = SNaN)"
| "numeric_le (Num c) (SNum r) = (of_int c / 100 \<le> r)"
| "numeric_le (Num c) SNInf = False"
| "numeric_le (Num c) _ = True"

definition numeric_eq :: "numeric \<Rightarrow> sql_number \<Rightarrow> bool" where
  "numeric_eq x y \<longleftrightarrow> numeric_ge x y \<and> numeric_le x y"

text \<open>\<open>ORDER BY\<close> on a NUMERIC column.\<close>

instantiation numeric :: linorder
begin

fun less_eq_numeric :: "numeric \<Rightarrow> numeric \<Rightarrow> bool" where
  "less_eq_numeric _ NumNaN = True"
| "less_eq_numeric (Num a) (Num b) = (a \<le> b)"
| "less_eq_numeric NumNaN (Num b) = False"

definition less_numeric :: "numeric \<Rightarrow> numeric \<Rightarrow> bool" where
  "less_numeric x y \<longleftrightarrow> x \<le> y \<and> x \<noteq> y"

instance
proof
  fix x y z :: numeric
  show "x < y \<longleftrightarrow> x \<le> y \<and> \<not> y \<le> x"
    by (cases x; cases y) (auto simp: less_numeric_def)
  show "x \<le> x" by (cases x) simp_all
  show "x \<le> y \<Longrightarrow> y \<le> z \<Longrightarrow> x \<le> z" by (cases x; cases y; cases z) simp_all
  show "x \<le> y \<Longrightarrow> y \<le> x \<Longrightarrow> x = y" by (cases x; cases y) simp_all
  show "x \<le> y \<or> y \<le> x" by (cases x; cases y) auto
qed

end

fun numeric_add :: "numeric \<Rightarrow> numeric \<Rightarrow> numeric" where
  "numeric_add (Num a) (Num b) = Num (a + b)"
| "numeric_add _ _ = NumNaN"

fun numeric_minus :: "numeric \<Rightarrow> numeric" where
  "numeric_minus (Num a) = Num (- a)"
| "numeric_minus NumNaN = NumNaN"

lemma numeric_add_assoc: "numeric_add (numeric_add a b) c = numeric_add a (numeric_add b c)"
  by (cases a; cases b; cases c) simp_all

lemma numeric_add_0 [simp]: "numeric_add (Num 0) a = a" "numeric_add a (Num 0) = a"
  by (cases a; simp)+

lemma numeric_eq_Num [simp]: "numeric_eq (Num c) (SNum r) \<longleftrightarrow> of_int c / 100 = r"
  by (auto simp: numeric_eq_def)

lemma to_numeric_cents: "\<bar>c\<bar> < 10 ^ p \<Longrightarrow> to_numeric p (SNum (of_int c / 100)) = Some (Num c)"
  using round_half_away_of_int [of c] by (simp add: Let_def)

lemma numeric_in_cents_text: "numeric_in (cents_text c) = Some (SNum (of_int c / 100))"
proof -
  have "cents_text c \<noteq> ''+Inf''" "cents_text c \<noteq> ''-Inf''"
    using decimal_value_cents_text [of c]
    by (auto simp: decimal_value_def Let_def TrimPrefix_def HasPrefix_def is_digit_def)
  then show ?thesis
    by (simp add: numeric_in_def cents_text_neq_NaN decimal_value_cents_text)
qed

section \<open>Rows\<close>

record transfer_row =
  t_id :: uuid
  t_account_id :: uuid
  t_from_account_id :: uuid
  t_correspondent_id :: uuid
  t_amount :: numeric
  t_currency :: string
  t_type :: string
  t_sub_type :: string
  t_transfer_type :: string
  t_memo :: string
  t_state :: TransferState
  t_review_reason :: "string option"
  t_error_code :: "string option"
  t_contribution_type :: "string option"
  t_vendor_transaction_id :: "string option"
  t_confidence_score :: "numeric option"
  t_micr_data :: "MICRData option"
  t_front_image_ref :: "string option"
  t_back_image_ref :: "string option"
  t_settlement_batch_id :: "uuid option"
  t_settled_at :: "instant option"
  t_submitted_at :: instant
  t_created_at :: instant
  t_updated_at :: instant

record account_row =
  a_id :: uuid
  a_code :: string
  a_correspondent_id :: "uuid option"
  a_type :: string
  a_status :: string

text \<open>\<open>rules_config\<close> is JSONB; \<open>None\<close> stands for a document that does not decode into \<open>RulesConfig\<close>.\<close>

record correspondent_row =
  c_id :: uuid
  c_code :: string
  c_name :: string
  c_rules_config :: "RulesConfig option"

record ledger_row =
  l_id :: uuid
  l_movement_id :: uuid
  l_transfer_id :: uuid
  l_account_id :: uuid
  l_side :: Side
  l_amount :: numeric
  l_entry_type :: EntryType
  l_memo :: string
  l_created_at :: instant

record event_row =
  ev_id :: uuid
  ev_transfer_id :: uuid
  ev_step :: string
  ev_actor :: string
  ev_data :: json
  ev_created_at :: instant

datatype batch_status = PENDING | SUBMITTED | ACKNOWLEDGED

record batch_row =
  b_id :: uuid
  b_correspondent_id :: uuid
  b_cutoff_date :: day
  b_status :: batch_status
  b_file_ref :: "string option"
  b_record_count :: "nat option"
  b_total_amount :: "numeric option"
  b_submitted_at :: "instant option"
  b_acknowledged_at :: "instant option"
  b_created_at :: instant

record notification_row =
  n_id :: uuid
  n_account_id :: uuid
  n_transfer_id :: "uuid option"
  n_type :: string
  n_message :: string
  n_read_at :: "instant option"
  n_created_at :: instant

record 'body idempotency_row =
  i_key :: string
  i_transfer_id :: uuid
  i_response_code :: nat
  i_response_body :: 'body

section \<open>The database\<close>

text \<open>\<open>db_notices\<close> holds the payloads sent with \<open>pg_notify\<close>, oldest first.\<close>

record db =
  transfers :: "transfer_row list"
  accounts :: "account_row list"
  correspondents :: "correspondent_row list"
  ledger_entries :: "ledger_row list"
  transfer_events :: "event_row list"
  settlement_batches :: "batch_row list"
  notifications :: "notification_row list"
  idempotency_keys :: "json idempotency_row list"
  db_notices :: "json list"

abbreviation transfer_of :: "db \<Rightarrow> uuid \<Rightarrow> transfer_row option" where
  "transfer_of d i \<equiv> row_of t_id i (transfers d)"

abbreviation account_of :: "db \<Rightarrow> uuid \<Rightarrow> account_row option" where
  "account_of d i \<equiv> row_of a_id i (accounts d)"

abbreviation batch_of :: "db \<Rightarrow> uuid \<Rightarrow> batch_row option" where
  "batch_of d i \<equiv> row_of b_id i (settlement_batches d)"

text \<open>The key of \<open>unique_entry_per_type\<close>.\<close>

definition entry_key :: "ledger_row \<Rightarrow> uuid \<times> EntryType \<times> uuid \<times> Side" where
  "entry_key r = (l_transfer_id r, l_entry_type r, l_account_id r, l_side r)"

end
