(* ===== verification/Runtime.thy ===== *)
theory Runtime
  imports Tables
begin

text \<open>
  How Go code runs against the database. A program is a tree of atomic steps; each step reads the
  environment and the world and yields the rest of the program and the new world. One SQL statement
  (or one database transaction), one HTTP exchange, one file access, one clock reading and one UUID
  are one step each, so the places where other requests can interleave are the places where the code
  leaves its process. \<open>run\<close> executes one program alone; \<open>sys_step\<close> lets the programs of concurrent
  requests interleave, lets new requests arrive and lets a request die at any point (a crashed
  process, a cancelled context). \<open>guarantees R p\<close> says that every step of \<open>p\<close>, in whatever world it
  is taken, relates the database before and after by \<open>R\<close>.
\<close>

section \<open>Environment and world\<close>

text \<open>
  What the code does not control. Every component is a function of the number of the step, so an
  environment is one complete schedule of behaviours:
  \<^item> \<open>fault\<close>: whether the database call is executed and answered, never reaches the server
    (\<open>LostRequest\<close>), or is executed with its answer lost (\<open>LostReply\<close>); Go sees an error in the last
    two cases;
  \<^item> \<open>clock\<close>, \<open>current_date\<close>, \<open>fresh_uuid\<close>: \<open>time.Now()\<close>/\<open>NOW()\<close>, \<open>CURRENT_DATE\<close> and \<open>uuid.New()\<close>/\<open>gen_random_uuid()\<close>;
  \<^item> \<open>uuid_parse\<close>: \<open>uuid.Parse\<close> and the server's UUID input, giving the canonical text;
  \<^item> \<open>shortest\<close>: the decimal number the driver sends for a finite \<open>float64\<close> parameter;
  \<^item> \<open>collate\<close>: the server's collation order of texts, embedded into the rationals;
  \<^item> \<open>vendor\<close>, \<open>bank\<close>, \<open>bank_return\<close>: the answers of the Vendor Service (\<open>POST /validate\<close>) and of the
    settlement bank (\<open>POST /settlement/submit\<close>, \<open>POST /settlement/return\<close>) to HTTP requests;
  \<^item> \<open>zone_offset\<close>: seconds east of UTC of America/Chicago, by seconds since the epoch;
  \<^item> \<open>getenv\<close>: process environment variables.
\<close>

datatype fault = NoFault | LostRequest | LostReply

text \<open>An HTTP exchange: no answer, or a status and the decoded body (\<open>None\<close>: not decodable).\<close>

datatype 'r http_reply = HttpFail go_error | HttpReply nat "'r option"

record env =
  fault :: "nat \<Rightarrow> fault"
  clock :: "nat \<Rightarrow> instant"
  current_date :: "nat \<Rightarrow> day"
  fresh_uuid :: "nat \<Rightarrow> uuid"
  uuid_parse :: "string \<Rightarrow> uuid option"
  shortest :: "rat \<Rightarrow> rat"
  collate :: "string \<Rightarrow> rat"
  vendor :: "nat \<Rightarrow> ValidateRequest \<Rightarrow> ValidateResponse http_reply"
  bank :: "nat \<Rightarrow> string \<Rightarrow> SettlementFile \<Rightarrow> settlementAck http_reply"
  bank_return :: "nat \<Rightarrow> string \<Rightarrow> string \<Rightarrow> json http_reply"
  zone_offset :: "int \<Rightarrow> int"
  getenv :: "string \<Rightarrow> string"

datatype stored_file = ImageFile string | JsonFile SettlementFile

record world =
  w_db :: db
  w_files :: "(string \<times> stored_file) list"
  w_ticks :: nat

text \<open>A \<open>float64\<close> query parameter as the server sees it.\<close>

fun float_param :: "env \<Rightarrow> float64 \<Rightarrow> sql_number" where
  "float_param e (Fin x) = SNum (shortest e x)"
| "float_param e PInf = SPInf"
| "float_param e NInf = SNInf"
| "float_param e NaN = SNaN"

section \<open>Programs\<close>

datatype (dead 'a) prog =
    Ret 'a
  | Panic string
  | Step "env \<Rightarrow> world \<Rightarrow> 'a prog \<times> world"

primrec bind :: "'a prog \<Rightarrow> ('a \<Rightarrow> 'b prog) \<Rightarrow> 'b prog" where
  "bind (Ret a) k = k a"
| "bind (Panic m) k = Panic m"
| "bind (Step f) k = Step (\<lambda>e w. map_prod (\<lambda>p. bind p k) id (f e w))"

definition atomic :: "(env \<Rightarrow> world \<Rightarrow> 'a \<times> world) \<Rightarrow> 'a prog" where
  "atomic f = Step (\<lambda>e w. map_prod Ret id (f e w))"

datatype 'a outcome = Done 'a | Panicked string

primrec run :: "'a prog \<Rightarrow> env \<Rightarrow> world \<Rightarrow> 'a outcome \<times> world" where
  "run (Ret a) = (\<lambda>e w. (Done a, w))"
| "run (Panic m) = (\<lambda>e w. (Panicked m, w))"
| "run (Step f) = (\<lambda>e w. let (r, w') = map_prod run id (f e w) in r e w')"

lemma run_Ret [run_simps]: "run (Ret a) e w = (Done a, w)"
  by simp

lemma run_Panic [run_simps]: "run (Panic m) e w = (Panicked m, w)"
  by simp

lemma run_Step: "run (Step f) e w = (let (p, w') = f e w in run p e w')"
  by (simp add: Let_def map_prod_def split: prod.splits)

declare run.simps(3) [simp del]

lemma run_bind [run_simps]:
  "run (bind p k) e w =
     (case run p e w of (Done a, w') \<Rightarrow> run (k a) e w' | (Panicked m, w') \<Rightarrow> (Panicked m, w'))"
proof (induction p arbitrary: w)
  case (Step f)
  obtain q w' where f: "f e w = (q, w')" by force
  have "q \<in> Basic_BNFs.fsts (f e w)" using f by (simp add: fsts.simps)
  then have "run (bind q k) e w' =
     (case run q e w' of (Done a, w'') \<Rightarrow> run (k a) e w'' | (Panicked m, w'') \<Rightarrow> (Panicked m, w''))"
    by (rule Step.IH [OF rangeI rangeI])
  with f show ?case by (simp add: run_Step)
qed simp_all

lemma run_atomic [run_simps]: "run (atomic f) e w = (let (a, w') = f e w in (Done a, w'))"
  by (simp add: atomic_def run_Step Let_def map_prod_def split: prod.splits)

lemma bind_Ret_right [simp]: "bind p Ret = p"
proof (induction p)
  case (Step f)
  have "map_prod (\<lambda>p. bind p Ret) id (f e w) = f e w" for e w
    using Step.IH [OF rangeI rangeI, of _ e w] by (cases "f e w") (auto simp: fsts.simps)
  then show ?case by simp
qed simp_all

lemma bind_assoc: "bind (bind p f) g = bind p (\<lambda>a. bind (f a) g)"
proof (induction p)
  case (Step h)
  have "map_prod (\<lambda>p. bind p g) id (map_prod (\<lambda>p. bind p f) id (h e w))
      = map_prod (\<lambda>p. bind p (\<lambda>a. bind (f a) g)) id (h e w)" for e w
    using Step.IH [OF rangeI rangeI, of _ e w] by (cases "h e w") (auto simp: fsts.simps)
  then show ?case by simp
qed simp_all

section \<open>The steps of Go code\<close>

definition tick :: "world \<Rightarrow> world" where
  "tick w = w\<lparr>w_ticks := Suc (w_ticks w)\<rparr>"

lemma tick_simps [simp]:
  "w_db (tick w) = w_db w" "w_files (tick w) = w_files w" "w_ticks (tick w) = Suc (w_ticks w)"
  by (simp_all add: tick_def)

text \<open>An SQL statement or transaction: it reads the clock and fresh UUIDs by the number of its step and
  either fails, leaving the database as it was, or answers and changes the database.\<close>

type_synonym 'r stmt = "env \<Rightarrow> nat \<Rightarrow> db \<Rightarrow> go_error + ('r \<times> db)"

definition commit :: "world \<Rightarrow> go_error + ('r \<times> db) \<Rightarrow> world" where
  "commit w res = (case res of Inl err \<Rightarrow> tick w | Inr (r, d) \<Rightarrow> (tick w)\<lparr>w_db := d\<rparr>)"

definition answer :: "go_error + ('r \<times> db) \<Rightarrow> go_error + 'r" where
  "answer res = (case res of Inl err \<Rightarrow> Inl err | Inr (r, d) \<Rightarrow> Inr r)"

definition sql :: "'r stmt \<Rightarrow> (go_error + 'r) prog" where
  "sql st = atomic (\<lambda>e w.
     let res = st e (w_ticks w) (w_db w)
     in case fault e (w_ticks w) of
          NoFault \<Rightarrow> (answer res, commit w res)
        | LostRequest \<Rightarrow> (Inl (EDriver ''bad connection''), tick w)
        | LostReply \<Rightarrow> (Inl (EDriver ''bad connection''), commit w res))"

text \<open>A call whose only result is an \<open>error\<close>: \<open>None\<close> is Go's \<open>nil\<close>.\<close>

definition error_of :: "go_error + 'r \<Rightarrow> go_error option" where
  "error_of r = (case r of Inl e \<Rightarrow> Some e | Inr _ \<Rightarrow> None)"

definition exec_sql :: "unit stmt \<Rightarrow> go_error option prog" where
  "exec_sql st = bind (sql st) (\<lambda>r. Ret (error_of r))"

text \<open>\<open>time.Now()\<close>, \<open>uuid.New()\<close>, environment variables.\<close>

definition time_now :: "instant prog" where
  "time_now = atomic (\<lambda>e w. (clock e (w_ticks w), tick w))"

definition new_uuid :: "uuid prog" where
  "new_uuid = atomic (\<lambda>e w. (fresh_uuid e (w_ticks w), tick w))"

definition go_getenv :: "string \<Rightarrow> string prog" where
  "go_getenv name = atomic (\<lambda>e w. (getenv e name, w))"

definition uuid_Parse :: "string \<Rightarrow> uuid option prog" where
  "uuid_Parse s = atomic (\<lambda>e w. (uuid_parse e s, w))"

text \<open>\<open>uuid.MustParse\<close> panics on a malformed text.\<close>

definition MustParse :: "string \<Rightarrow> uuid prog" where
  "MustParse s = bind (uuid_Parse s)
     (\<lambda>r. case r of None \<Rightarrow> Panic (''uuid: Parse('' @ s @ ''): invalid UUID'') | Some u \<Rightarrow> Ret u)"

text \<open>One HTTP exchange with another service.\<close>

definition http_call :: "(env \<Rightarrow> nat \<Rightarrow> 'r http_reply) \<Rightarrow> 'r http_reply prog" where
  "http_call f = atomic (\<lambda>e w. (f e (w_ticks w), tick w))"

text \<open>Files: a write fails when the schedule says so (a lost reply is a write that happened).\<close>

definition write_file :: "string \<Rightarrow> stored_file \<Rightarrow> go_error option prog" where
  "write_file path content = atomic (\<lambda>e w.
     let w' = (tick w)\<lparr>w_files := (path, content) # filter (\<lambda>f. fst f \<noteq> path) (w_files w)\<rparr>
     in case fault e (w_ticks w) of
          NoFault \<Rightarrow> (None, w')
        | LostRequest \<Rightarrow> (Some (EDriver ''write failed''), tick w)
        | LostReply \<Rightarrow> (Some (EDriver ''write failed''), w'))"

definition read_file :: "string \<Rightarrow> (go_error + stored_file) prog" where
  "read_file path = atomic (\<lambda>e w.
     (if fault e (w_ticks w) = NoFault
      then (case map_of (w_files w) path of None \<Rightarrow> Inl (EDriver ''no such file'') | Some f \<Rightarrow> Inr f)
      else Inl (EDriver ''read failed''), tick w))"

lemmas step_defs = sql_def time_now_def new_uuid_def go_getenv_def uuid_Parse_def
  http_call_def write_file_def read_file_def

section \<open>Running without faults\<close>

definition fault_free :: "env \<Rightarrow> bool" where
  "fault_free e \<longleftrightarrow> (\<forall>n. fault e n = NoFault)"

lemma run_sql [run_simps]:
  "fault_free e \<Longrightarrow>
   run (sql st) e w = (Done (answer (st e (w_ticks w) (w_db w))), commit w (st e (w_ticks w) (w_db w)))"
  by (simp add: sql_def run_atomic fault_free_def Let_def)

lemma run_exec_sql [run_simps]:
  "fault_free e \<Longrightarrow>
   run (exec_sql st) e w =
     (Done (error_of (answer (st e (w_ticks w) (w_db w)))), commit w (st e (w_ticks w) (w_db w)))"
  by (simp add: exec_sql_def run_bind run_sql)

lemma run_uuid_Parse [run_simps]: "run (uuid_Parse s) e w = (Done (uuid_parse e s), w)"
  by (simp add: uuid_Parse_def run_atomic)

lemma run_MustParse [run_simps]:
  "run (MustParse s) e w =
     (case uuid_parse e s of
        None \<Rightarrow> (Panicked (''uuid: Parse('' @ s @ ''): invalid UUID''), w) | Some u \<Rightarrow> (Done u, w))"
  by (simp add: MustParse_def run_bind run_uuid_Parse split: option.splits)

lemma run_time_now [run_simps]: "run time_now e w = (Done (clock e (w_ticks w)), tick w)"
  by (simp add: time_now_def run_atomic)

lemma run_new_uuid [run_simps]: "run new_uuid e w = (Done (fresh_uuid e (w_ticks w)), tick w)"
  by (simp add: new_uuid_def run_atomic)

lemma run_http_call [run_simps]: "run (http_call f) e w = (Done (f e (w_ticks w)), tick w)"
  by (simp add: http_call_def run_atomic)

lemma run_go_getenv [run_simps]: "run (go_getenv s) e w = (Done (getenv e s), w)"
  by (simp add: go_getenv_def run_atomic)

lemma answer_simps [run_simps]: "answer (Inl err) = Inl err" "answer (Inr (r, d)) = Inr r"
  by (simp_all add: answer_def)

lemma commit_simps [run_simps]:
  "commit w (Inl err) = tick w" "commit w (Inr (r, d)) = (tick w)\<lparr>w_db := d\<rparr>"
  by (simp_all add: commit_def)

lemma error_of_simps [run_simps]: "error_of (Inl err) = Some err" "error_of (Inr r) = None"
  by (simp_all add: error_of_def)

section \<open>Guarantees of a program\<close>

primrec guarantees :: "(db \<Rightarrow> db \<Rightarrow> bool) \<Rightarrow> 'a prog \<Rightarrow> bool" where
  "guarantees R (Ret a) = True"
| "guarantees R (Panic m) = True"
| "guarantees R (Step f) =
     (\<forall>e w. R (w_db w) (w_db (snd (f e w))) \<and> fst (map_prod (guarantees R) id (f e w)))"

lemma guarantees_Step [simp]:
  "guarantees R (Step f) \<longleftrightarrow>
     (\<forall>e w. R (w_db w) (w_db (snd (f e w))) \<and> guarantees R (fst (f e w)))"
  by (simp add: map_prod_def split_beta)

declare guarantees.simps(3) [simp del]

lemma guarantees_StepD:
  "guarantees R (Step f) \<Longrightarrow> f e w = (q, w') \<Longrightarrow> R (w_db w) (w_db w') \<and> guarantees R q"
  by (metis guarantees_Step fst_conv snd_conv)

declare guarantees_Step [simp del]

lemma guarantees_Ret [guar_intros]: "guarantees R (Ret a)"
  by simp

lemma guarantees_Panic [guar_intros]: "guarantees R (Panic m)"
  by simp

lemma guarantees_bind [guar_intros]:
  "guarantees R p \<Longrightarrow> (\<And>a. guarantees R (k a)) \<Longrightarrow> guarantees R (bind p k)"
proof (induction p)
  case (Step f)
  have "guarantees R (bind (fst (f e w)) k)" for e w
    using Step.IH [OF rangeI rangeI, of "fst (f e w)" e w] Step.prems
    by (auto simp: fsts.simps guarantees_Step)
  with Step.prems(1) show ?case by (simp add: guarantees_Step map_prod_def split_beta)
qed simp_all

lemma guarantees_atomic:
  "guarantees R (atomic f) \<longleftrightarrow> (\<forall>e w. R (w_db w) (w_db (snd (f e w))))"
  by (simp add: atomic_def guarantees_Step)

lemma guarantees_mono:
  "guarantees R p \<Longrightarrow> (\<And>d d'. R d d' \<Longrightarrow> S d d') \<Longrightarrow> guarantees S p"
proof (induction p)
  case (Step f)
  have "guarantees S (fst (f e w))" for e w
    using Step.IH [OF rangeI rangeI, of "fst (f e w)" e w] Step.prems
    by (auto simp: fsts.simps guarantees_Step)
  with Step.prems show ?case by (simp add: guarantees_Step)
qed simp_all

lemma guarantees_run:
  assumes "guarantees R p" "\<And>d. R d d" "\<And>a b c. R a b \<Longrightarrow> R b c \<Longrightarrow> R a c"
  shows "R (w_db w) (w_db (snd (run p e w)))"
  using assms(1)
proof (induction p arbitrary: w)
  case (Step f)
  obtain q w' where f: "f e w = (q, w')" by force
  with Step.prems have "R (w_db w) (w_db w')" and q: "guarantees R q"
    by (auto dest: guarantees_StepD)
  moreover have "q \<in> Basic_BNFs.fsts (f e w)" using f by (simp add: fsts.simps)
  then have "R (w_db w') (w_db (snd (run q e w')))"
    using q by (rule Step.IH [OF rangeI rangeI])
  ultimately show ?case using f assms(3) by (auto simp: run_Step)
qed (simp_all add: assms(2))

text \<open>The steps, for a reflexive relation: only SQL changes the database.\<close>

locale reflexive_guarantee =
  fixes R :: "db \<Rightarrow> db \<Rightarrow> bool"
  assumes R_refl: "R d d"
begin

lemma sqlI:
  assumes "\<And>e n d r d'. st e n d = Inr (r, d') \<Longrightarrow> R d d'"
  shows "guarantees R (sql st)"
  using assms R_refl
  by (auto simp: sql_def guarantees_atomic commit_def Let_def split: fault.splits sum.splits prod.splits)

lemma exec_sqlI:
  assumes "\<And>e n d r d'. st e n d = Inr (r, d') \<Longrightarrow> R d d'"
  shows "guarantees R (exec_sql st)"
  unfolding exec_sql_def by (intro guarantees_bind sqlI assms guarantees_Ret)

lemma quiet: "guarantees R time_now" "guarantees R new_uuid" "guarantees R (go_getenv s)"
  "guarantees R (uuid_Parse s)" "guarantees R (MustParse s)"
  "guarantees R (http_call h)" "guarantees R (write_file p c)" "guarantees R (read_file p)"
proof -
  show u: "guarantees R (uuid_Parse s)" by (simp add: uuid_Parse_def guarantees_atomic R_refl)
  then show "guarantees R (MustParse s)"
    unfolding MustParse_def by (intro guarantees_bind) (auto split: option.splits)
qed (auto simp: step_defs guarantees_atomic R_refl Let_def split: fault.splits)

end

section \<open>Concurrent requests\<close>

text \<open>A system is the programs of the requests that have arrived and the world they share.\<close>

type_synonym 'a sys = "'a prog list \<times> world"

inductive sys_step :: "env \<Rightarrow> 'a prog set \<Rightarrow> 'a sys \<Rightarrow> 'a sys \<Rightarrow> bool" for e Req where
  sys_arrive: "p \<in> Req \<Longrightarrow> sys_step e Req (ps, w) (ps @ [p], w)"
| sys_run: "i < length ps \<Longrightarrow> ps ! i = Step f \<Longrightarrow> f e w = (q, w')
     \<Longrightarrow> sys_step e Req (ps, w) (ps[i := q], w')"
| sys_crash: "i < length ps \<Longrightarrow> sys_step e Req (ps, w) (ps[i := Panic ''crash''], w)"

inductive_cases sys_stepE: "sys_step e Req (ps, w) (ps', w')"

inductive reachable :: "env \<Rightarrow> 'a prog set \<Rightarrow> world \<Rightarrow> 'a sys \<Rightarrow> bool" for e Req w0 where
  reach_start: "reachable e Req w0 ([], w0)"
| reach_step: "reachable e Req w0 s \<Longrightarrow> sys_step e Req s s' \<Longrightarrow> reachable e Req w0 s'"

text \<open>Running one program alone is one of the schedules.\<close>

definition finished :: "'a outcome \<Rightarrow> 'a prog" where
  "finished r = (case r of Done a \<Rightarrow> Ret a | Panicked m \<Rightarrow> Panic m)"

lemma run_is_a_schedule:
  "reachable e Req w0 (ps @ [p], w) \<Longrightarrow> run p e w = (r, w')
   \<Longrightarrow> reachable e Req w0 (ps @ [finished r], w')"
proof (induction p arbitrary: w)
  case (Step f)
  obtain q w1 where f: "f e w = (q, w1)" by force
  have "sys_step e Req (ps @ [Step f], w) ((ps @ [Step f])[length ps := q], w1)"
    by (rule sys_run [where f = f]) (simp_all add: f)
  with Step.prems(1) have "reachable e Req w0 (ps @ [q], w1)"
    by (auto intro: reach_step)
  moreover have "run q e w1 = (r, w')" using Step.prems(2) f by (simp add: run_Step)
  moreover have "q \<in> Basic_BNFs.fsts (f e w)" using f by (simp add: fsts.simps)
  ultimately show ?case by (blast intro: Step.IH [OF rangeI rangeI])
qed (auto simp: finished_def)

text \<open>What every request guarantees of each of its steps, every step of the system guarantees.\<close>

locale system_guarantee =
  fixes R :: "db \<Rightarrow> db \<Rightarrow> bool" and Req :: "'a prog set"
  assumes R_refl: "R d d"
    and requests: "p \<in> Req \<Longrightarrow> guarantees R p"
begin

lemma reachable_guarantees:
  "reachable e Req w0 s \<Longrightarrow> p \<in> set (fst s) \<Longrightarrow> guarantees R p"
proof (induction arbitrary: p rule: reachable.induct)
  case reach_start
  then show ?case by simp
next
  case (reach_step s s')
  from reach_step.hyps(2) show ?case
  proof cases
    case (sys_arrive q ps w)
    then show ?thesis using reach_step requests by auto
  next
    case (sys_run i ps f w q w')
    have "guarantees R (ps ! i)" using reach_step.IH sys_run by (metis fst_conv nth_mem)
    with sys_run have "guarantees R q" by (auto dest: guarantees_StepD)
    then show ?thesis using reach_step sys_run by (auto dest!: set_update_subset_insert [THEN subsetD])
  next
    case (sys_crash i ps w)
    then show ?thesis using reach_step by (auto dest!: set_update_subset_insert [THEN subsetD])
  qed
qed

lemma step_related:
  assumes "reachable e Req w0 s" "sys_step e Req s s'"
  shows "R (w_db (snd s)) (w_db (snd s'))"
  using assms(2)
proof cases
  case (sys_run i ps f w q w')
  have "guarantees R (ps ! i)"
    using reachable_guarantees [OF assms(1)] sys_run by (metis fst_conv nth_mem)
  with sys_run show ?thesis by (auto dest: guarantees_StepD)
qed (simp_all add: R_refl)

end

text \<open>An invariant is the guarantee that every step keeps it.\<close>

locale system_invariant =
  fixes I :: "db \<Rightarrow> bool" and Req :: "'a prog set"
  assumes kept: "p \<in> Req \<Longrightarrow> guarantees (\<lambda>d d'. I d \<longrightarrow> I d') p"

sublocale system_invariant \<subseteq> inv: system_guarantee "\<lambda>d d'. I d \<longrightarrow> I d'" Req
  by unfold_locales (simp_all add: kept)

context system_invariant
begin

lemma reachable_invariant:
  "reachable e Req w0 s \<Longrightarrow> I (w_db w0) \<Longrightarrow> I (w_db (snd s))"
proof (induction rule: reachable.induct)
  case (reach_step s s')
  then show ?case using inv.step_related [OF reach_step.hyps] by simp
qed simp

end

end
