(* ===== verification/StoreTransfers.thy ===== *)
theory StoreTransfers
  imports Runtime
begin

text \<open>
  \<open>internal/store/transfers.go\<close>: the statements of \<open>TransferStore\<close> against the \<open>transfers\<close> and
  \<open>transfer_events\<close> tables. Each method is one SQL statement; \<open>..._stmt\<close> is the statement's effect on
  the database, with the constraints of the migrations, and the definition with the method's name is
  the Go method around it.
\<close>

section \<open>The Go record\<close>

record Transfer =
  tr_ID :: string
  tr_AccountID :: string
  tr_FromAccountID :: string
  tr_CorrespondentID :: string
  tr_Amount :: float64
  tr_Currency :: string
  tr_Type :: string
  tr_SubType :: string
  tr_TransferType :: string
  tr_Memo :: string
  tr_State :: TransferState
  tr_ReviewReason :: "string option"
  tr_ErrorCode :: "string option"
  tr_ContributionType :: "string option"
  tr_VendorTransactionID :: "string option"
  tr_ConfidenceScore :: "float64 option"
  tr_MICRData :: "MICRData option"
  tr_FrontImageRef :: "string option"
  tr_BackImageRef :: "string option"
  tr_SubmittedAt :: instant
  tr_CreatedAt :: instant
  tr_UpdatedAt :: instant

record CreateTransferInput =
  ci_AccountID :: string
  ci_FromAccountID :: string
  ci_CorrespondentID :: string
  ci_Amount :: float64

text \<open>\<open>scanTransferFull\<close> and \<open>scanTransferFullRows\<close>: every column of the row, NUMERIC read as \<open>float64\<close>.\<close>

definition scanTransferFull :: "transfer_row \<Rightarrow> Transfer" where
  "scanTransferFull r =
     \<lparr>tr_ID = t_id r, tr_AccountID = t_account_id r, tr_FromAccountID = t_from_account_id r,
      tr_CorrespondentID = t_correspondent_id r, tr_Amount = numeric_float (t_amount r),
      tr_Currency = t_currency r, tr_Type = t_type r, tr_SubType = t_sub_type r,
      tr_TransferType = t_transfer_type r, tr_Memo = t_memo r, tr_State = t_state r,
      tr_ReviewReason = t_review_reason r, tr_ErrorCode = t_error_code r,
      tr_ContributionType = t_contribution_type r,
      tr_VendorTransactionID = t_vendor_transaction_id r,
      tr_ConfidenceScore = map_option numeric_float (t_confidence_score r),
      tr_MICRData = t_micr_data r, tr_FrontImageRef = t_front_image_ref r,
      tr_BackImageRef = t_back_image_ref r, tr_SubmittedAt = t_submitted_at r,
      tr_CreatedAt = t_created_at r, tr_UpdatedAt = t_updated_at r\<rparr>"

text \<open>\<open>scanTransfer\<close>: the columns that \<open>Create\<close> returns; the other fields stay nil.\<close>

definition scanTransfer :: "transfer_row \<Rightarrow> Transfer" where
  "scanTransfer r =
     \<lparr>tr_ID = t_id r, tr_AccountID = t_account_id r, tr_FromAccountID = t_from_account_id r,
      tr_CorrespondentID = t_correspondent_id r, tr_Amount = numeric_float (t_amount r),
      tr_Currency = t_currency r, tr_Type = t_type r, tr_SubType = t_sub_type r,
      tr_TransferType = t_transfer_type r, tr_Memo = t_memo r, tr_State = t_state r,
      tr_ReviewReason = None, tr_ErrorCode = None, tr_ContributionType = None,
      tr_VendorTransactionID = None, tr_ConfidenceScore = None, tr_MICRData = None,
      tr_FrontImageRef = None, tr_BackImageRef = None, tr_SubmittedAt = t_submitted_at r,
      tr_CreatedAt = t_created_at r, tr_UpdatedAt = t_updated_at r\<rparr>"

section \<open>Statements\<close>

text \<open>A UUID parameter given as text: the server rejects a malformed one.\<close>

definition with_uuid :: "env \<Rightarrow> string \<Rightarrow> (uuid \<Rightarrow> go_error + 'r \<times> db) \<Rightarrow> go_error + 'r \<times> db" where
  "with_uuid e s k =
     (case uuid_parse e s of
        None \<Rightarrow> Inl (EDriver ''invalid input syntax for type uuid'') | Some u \<Rightarrow> k u)"

definition upd_transfer :: "uuid \<Rightarrow> (transfer_row \<Rightarrow> transfer_row) \<Rightarrow> db \<Rightarrow> db" where
  "upd_transfer i f d = d\<lparr>transfers := upd_row t_id i f (transfers d)\<rparr>"

lemma with_uuid_Inr [simp]:
  "with_uuid e s k = Inr x \<longleftrightarrow> (\<exists>u. uuid_parse e s = Some u \<and> k u = Inr x)"
  by (simp add: with_uuid_def split: option.splits)

definition Create_stmt :: "CreateTransferInput \<Rightarrow> transfer_row stmt" where
  "Create_stmt ci = (\<lambda>e n d.
     with_uuid e (ci_AccountID ci) (\<lambda>acct.
     with_uuid e (ci_FromAccountID ci) (\<lambda>omni.
     with_uuid e (ci_CorrespondentID ci) (\<lambda>corr.
       case to_numeric 12 (float_param e (ci_Amount ci)) of
         None \<Rightarrow> Inl (EDriver ''numeric field overflow'')
       | Some amt \<Rightarrow>
           let now = clock e n;
               row = \<lparr>t_id = fresh_uuid e n, t_account_id = acct, t_from_account_id = omni,
                      t_correspondent_id = corr, t_amount = amt, t_currency = ''USD'',
                      t_type = ''MOVEMENT'', t_sub_type = ''DEPOSIT'', t_transfer_type = ''CHECK'',
                      t_memo = ''FREE'', t_state = Requested, t_review_reason = None,
                      t_error_code = None, t_contribution_type = None,
                      t_vendor_transaction_id = None, t_confidence_score = None,
                      t_micr_data = None, t_front_image_ref = None, t_back_image_ref = None,
                      t_settlement_batch_id = None, t_settled_at = None,
                      t_submitted_at = now, t_created_at = now, t_updated_at = now\<rparr>
           in if \<not> numeric_pos amt then Inl (EDriver ''valid_amount'')
              else if account_of d acct = None \<or> account_of d omni = None
                    \<or> row_of c_id corr (correspondents d) = None then Inl (EDriver ''foreign key'')
              else if transfer_of d (t_id row) \<noteq> None then Inl (EDriver ''transfers_pkey'')
              else Inr (row, d\<lparr>transfers := transfers d @ [row]\<rparr>)))))"

definition GetByID_stmt :: "string \<Rightarrow> transfer_row option stmt" where
  "GetByID_stmt i = (\<lambda>e n d. with_uuid e i (\<lambda>u. Inr (transfer_of d u, d)))"

definition ListRecent_stmt :: "nat \<Rightarrow> transfer_row list stmt" where
  "ListRecent_stmt limit = (\<lambda>e n d.
     Inr (take limit (sort_key (\<lambda>r. - t_updated_at r) (transfers d)), d))"

definition ListByAccountID_stmt :: "string \<Rightarrow> transfer_row list stmt" where
  "ListByAccountID_stmt i = (\<lambda>e n d. with_uuid e i (\<lambda>u.
     Inr (sort_key (\<lambda>r. - t_created_at r) (filter (\<lambda>r. t_account_id r = u) (transfers d)), d)))"

text \<open>\<open>UPDATE transfers SET state = to, updated_at = NOW() WHERE id = i AND state = from RETURNING id\<close>:
  the number of rows returned is 0 or 1.\<close>

definition UpdateState_stmt :: "string \<Rightarrow> TransferState \<Rightarrow> TransferState \<Rightarrow> uuid option stmt" where
  "UpdateState_stmt i from to = (\<lambda>e n d. with_uuid e i (\<lambda>u.
     case transfer_of d u of
       None \<Rightarrow> Inr (None, d)
     | Some r \<Rightarrow>
         if t_state r = from
         then Inr (Some u, upd_transfer u (\<lambda>r. r\<lparr>t_state := to, t_updated_at := clock e n\<rparr>) d)
         else Inr (None, d)))"

definition HasRecentTransfer_stmt :: "uuid \<Rightarrow> float64 \<Rightarrow> instant \<Rightarrow> bool stmt" where
  "HasRecentTransfer_stmt acct amount since = (\<lambda>e n d.
     Inr (list_ex (\<lambda>r. t_account_id r = acct \<and> numeric_eq (t_amount r) (float_param e amount)
                     \<and> t_state r \<notin> {Rejected, Returned} \<and> since < t_submitted_at r) (transfers d), d))"

definition WriteEvent_stmt :: "string \<Rightarrow> string \<Rightarrow> string \<Rightarrow> json \<Rightarrow> unit stmt" where
  "WriteEvent_stmt i step actor payload = (\<lambda>e n d. with_uuid e i (\<lambda>u.
     if transfer_of d u = None then Inl (EDriver ''foreign key'')
     else Inr ((), d\<lparr>transfer_events := transfer_events d @
       [\<lparr>ev_id = fresh_uuid e n, ev_transfer_id = u, ev_step = step, ev_actor = actor,
         ev_data = payload, ev_created_at = clock e n\<rparr>]\<rparr>)))"

definition Notify_stmt :: "json \<Rightarrow> unit stmt" where
  "Notify_stmt payload = (\<lambda>e n d. Inr ((), d\<lparr>db_notices := db_notices d @ [payload]\<rparr>))"

text \<open>\<open>UPDATE transfers SET ..., updated_at = NOW() WHERE id = i\<close>: no error when no row matches.\<close>

definition set_transfer_stmt :: "string \<Rightarrow> (transfer_row \<Rightarrow> transfer_row) \<Rightarrow> unit stmt" where
  "set_transfer_stmt i f = (\<lambda>e n d. with_uuid e i (\<lambda>u.
     Inr ((), upd_transfer u (\<lambda>r. (f r)\<lparr>t_updated_at := clock e n\<rparr>) d)))"

text \<open>\<open>unique_vendor_tx\<close>: no other transfer of the account has the vendor transaction.\<close>

definition vendor_tx_taken :: "db \<Rightarrow> uuid \<Rightarrow> string \<Rightarrow> bool" where
  "vendor_tx_taken d u tx =
     (case transfer_of d u of
        None \<Rightarrow> False
      | Some r \<Rightarrow> list_ex (\<lambda>r'. t_id r' \<noteq> u \<and> t_account_id r' = t_account_id r
                              \<and> t_vendor_transaction_id r' = Some tx) (transfers d))"

definition SetVSSResults_stmt :: "string \<Rightarrow> string \<Rightarrow> float64 \<Rightarrow> MICRData option \<Rightarrow> unit stmt" where
  "SetVSSResults_stmt i tx confidence micr = (\<lambda>e n d. with_uuid e i (\<lambda>u.
     case to_numeric 4 (float_param e confidence) of
       None \<Rightarrow> Inl (EDriver ''numeric field overflow'')
     | Some cs \<Rightarrow>
         if vendor_tx_taken d u tx then Inl (EDriver ''unique_vendor_tx'')
         else set_transfer_stmt i (\<lambda>r. r\<lparr>t_vendor_transaction_id := Some tx,
                t_confidence_score := Some cs, t_micr_data := micr\<rparr>) e n d))"

section \<open>Methods\<close>

definition Create :: "CreateTransferInput \<Rightarrow> (go_error + Transfer) prog" where
  "Create ci = bind (sql (Create_stmt ci)) (\<lambda>r. Ret (map_sum id scanTransfer r))"

definition GetByID :: "string \<Rightarrow> (go_error + Transfer) prog" where
  "GetByID i = bind (sql (GetByID_stmt i)) (\<lambda>r. Ret (case r of
       Inl err \<Rightarrow> Inl err
     | Inr None \<Rightarrow> Inl ErrNotFound
     | Inr (Some row) \<Rightarrow> Inr (scanTransferFull row)))"

definition ListRecent :: "nat \<Rightarrow> (go_error + Transfer list) prog" where
  "ListRecent limit =
     bind (sql (ListRecent_stmt limit)) (\<lambda>r. Ret (map_sum id (map scanTransferFull) r))"

definition ListByAccountID :: "string \<Rightarrow> (go_error + Transfer list) prog" where
  "ListByAccountID acct =
     bind (sql (ListByAccountID_stmt acct)) (\<lambda>r. Ret (map_sum id (map scanTransferFull) r))"

definition UpdateState :: "string \<Rightarrow> TransferState \<Rightarrow> TransferState \<Rightarrow> go_error option prog" where
  "UpdateState i from to = bind (sql (UpdateState_stmt i from to)) (\<lambda>r. Ret (case r of
       Inl err \<Rightarrow> Some err
     | Inr None \<Rightarrow> Some ErrOptimisticLock
     | Inr (Some _) \<Rightarrow> None))"

definition HasRecentTransfer :: "uuid \<Rightarrow> float64 \<Rightarrow> int \<Rightarrow> (go_error + bool) prog" where
  "HasRecentTransfer acct amount window =
     bind time_now (\<lambda>now. sql (HasRecentTransfer_stmt acct amount (now - window)))"

definition WriteEvent :: "string \<Rightarrow> string \<Rightarrow> string \<Rightarrow> json \<Rightarrow> go_error option prog" where
  "WriteEvent i step actor payload =
     (if \<not> marshal_ok payload then Ret (Some (EMsg ''marshal event data''))
      else exec_sql (WriteEvent_stmt i step actor payload))"

definition Notify :: "string \<Rightarrow> json \<Rightarrow> go_error option prog" where
  "Notify i payload =
     (if \<not> marshal_ok payload then Ret (Some (EMsg ''marshal notify payload''))
      else exec_sql (Notify_stmt payload))"

definition SetErrorCode :: "string \<Rightarrow> string \<Rightarrow> go_error option prog" where
  "SetErrorCode i code = exec_sql (set_transfer_stmt i (\<lambda>r. r\<lparr>t_error_code := Some code\<rparr>))"

definition SetReviewReason :: "string \<Rightarrow> string \<Rightarrow> go_error option prog" where
  "SetReviewReason i reason = exec_sql (set_transfer_stmt i (\<lambda>r. r\<lparr>t_review_reason := Some reason\<rparr>))"

definition SetContributionType :: "string \<Rightarrow> string \<Rightarrow> go_error option prog" where
  "SetContributionType i ct = exec_sql (set_transfer_stmt i (\<lambda>r. r\<lparr>t_contribution_type := Some ct\<rparr>))"

definition SetVSSResults :: "string \<Rightarrow> string \<Rightarrow> float64 \<Rightarrow> MICRData option \<Rightarrow> go_error option prog" where
  "SetVSSResults i tx confidence micr = exec_sql (SetVSSResults_stmt i tx confidence micr)"

definition SetFromAccountID :: "string \<Rightarrow> string \<Rightarrow> go_error option prog" where
  "SetFromAccountID i acct = exec_sql (\<lambda>e n d. with_uuid e acct (\<lambda>a. with_uuid e i (\<lambda>u.
     if transfer_of d u \<noteq> None \<and> account_of d a = None then Inl (EDriver ''foreign key'')
     else set_transfer_stmt i (\<lambda>r. r\<lparr>t_from_account_id := a\<rparr>) e n d)))"

definition SetImageRefs :: "string \<Rightarrow> string \<Rightarrow> string \<Rightarrow> go_error option prog" where
  "SetImageRefs i front back = exec_sql (set_transfer_stmt i
     (\<lambda>r. r\<lparr>t_front_image_ref := Some front, t_back_image_ref := Some back\<rparr>))"

section \<open>The operator queue\<close>

record QueueFilter =
  qf_CorrespondentID :: string
  qf_MinAmount :: float64
  qf_MaxAmount :: float64
  qf_AccountID :: string
  qf_SortBy :: string

text \<open>One optional condition of the WHERE clause on a UUID column.\<close>

definition uuid_condition :: "env \<Rightarrow> string \<Rightarrow> (transfer_row \<Rightarrow> uuid) \<Rightarrow> (transfer_row \<Rightarrow> bool) option" where
  "uuid_condition e s col =
     (if s = '''' then Some (\<lambda>_. True) else map_option (\<lambda>u r. col r = u) (uuid_parse e s))"

definition ListQueue_stmt :: "QueueFilter \<Rightarrow> transfer_row list stmt" where
  "ListQueue_stmt f = (\<lambda>e n d.
     case (uuid_condition e (qf_CorrespondentID f) t_correspondent_id,
           uuid_condition e (qf_AccountID f) t_account_id) of
       (Some by_corr, Some by_acct) \<Rightarrow>
         let rows = filter (\<lambda>r. t_state r = Analyzing \<and> t_review_reason r \<noteq> None
                \<and> by_corr r
                \<and> (f_lt (Fin 0) (qf_MinAmount f) \<longrightarrow> numeric_ge (t_amount r) (float_param e (qf_MinAmount f)))
                \<and> (f_lt (Fin 0) (qf_MaxAmount f) \<longrightarrow> numeric_le (t_amount r) (float_param e (qf_MaxAmount f)))
                \<and> by_acct r) (transfers d)
         in Inr (if qf_SortBy f = ''amount''
                 then sort_key t_amount rows
                 else sort_key t_created_at rows, d)
     | _ \<Rightarrow> Inl (EDriver ''invalid input syntax for type uuid''))"

definition ListQueue :: "QueueFilter \<Rightarrow> (go_error + Transfer list) prog" where
  "ListQueue f = bind (sql (ListQueue_stmt f)) (\<lambda>r. Ret (map_sum id (map scanTransferFull) r))"

definition GetEvents_stmt :: "string \<Rightarrow> event_row list stmt" where
  "GetEvents_stmt i = (\<lambda>e n d. with_uuid e i (\<lambda>u.
     Inr (sort_key ev_created_at (filter (\<lambda>v. ev_transfer_id v = u) (transfer_events d)), d)))"

definition GetEvents :: "string \<Rightarrow> (go_error + event_row list) prog" where
  "GetEvents i = sql (GetEvents_stmt i)"

section \<open>Lookups after updates\<close>

lemma upd_transfer_simps [simp]:
  "accounts (upd_transfer i f d) = accounts d"
  "correspondents (upd_transfer i f d) = correspondents d"
  "ledger_entries (upd_transfer i f d) = ledger_entries d"
  "transfer_events (upd_transfer i f d) = transfer_events d"
  "settlement_batches (upd_transfer i f d) = settlement_batches d"
  "notifications (upd_transfer i f d) = notifications d"
  "idempotency_keys (upd_transfer i f d) = idempotency_keys d"
  "db_notices (upd_transfer i f d) = db_notices d"
  by (simp_all add: upd_transfer_def)

lemma transfer_of_upd_transfer [db_simps]:
  "(\<And>r. t_id (f r) = t_id r) \<Longrightarrow>
   transfer_of (upd_transfer i f d) j
     = (if j = i then map_option f (transfer_of d j) else transfer_of d j)"
  by (simp add: upd_transfer_def row_of_upd_row)

section \<open>The statements without faults\<close>

text \<open>\<open>canonical e u\<close>: \<open>u\<close> is the text of a UUID as the server prints it.\<close>

definition canonical :: "env \<Rightarrow> string \<Rightarrow> bool" where
  "canonical e u \<longleftrightarrow> uuid_parse e u = Some u"

lemma canonical_parse [run_simps]: "canonical e u \<Longrightarrow> uuid_parse e u = Some u"
  by (simp add: canonical_def)

lemma with_uuid_canonical [run_simps]: "canonical e u \<Longrightarrow> with_uuid e u k = k u"
  by (simp add: with_uuid_def canonical_def)

lemma run_UpdateState [run_simps]:
  "fault_free e \<Longrightarrow> canonical e i \<Longrightarrow>
   run (UpdateState i from to) e w =
     (case transfer_of (w_db w) i of
        None \<Rightarrow> (Done (Some ErrOptimisticLock), (tick w)\<lparr>w_db := w_db w\<rparr>)
      | Some r \<Rightarrow>
          if t_state r = from
          then (Done None, (tick w)\<lparr>w_db := upd_transfer i
                 (\<lambda>r. r\<lparr>t_state := to, t_updated_at := clock e (w_ticks w)\<rparr>) (w_db w)\<rparr>)
          else (Done (Some ErrOptimisticLock), (tick w)\<lparr>w_db := w_db w\<rparr>))"
  by (simp add: UpdateState_def UpdateState_stmt_def run_simps split: option.splits)

lemma run_GetByID [run_simps]:
  "fault_free e \<Longrightarrow> canonical e i \<Longrightarrow>
   run (GetByID i) e w =
     (Done (case transfer_of (w_db w) i of
              None \<Rightarrow> Inl ErrNotFound | Some r \<Rightarrow> Inr (scanTransferFull r)),
      (tick w)\<lparr>w_db := w_db w\<rparr>)"
  by (simp add: GetByID_def GetByID_stmt_def run_simps split: option.splits)

lemma run_WriteEvent [run_simps]:
  "fault_free e \<Longrightarrow> canonical e i \<Longrightarrow> transfer_of (w_db w) i \<noteq> None \<Longrightarrow> marshal_ok payload \<Longrightarrow>
   run (WriteEvent i step actor payload) e w =
     (Done None, (tick w)\<lparr>w_db := (w_db w)\<lparr>transfer_events := transfer_events (w_db w) @
        [\<lparr>ev_id = fresh_uuid e (w_ticks w), ev_transfer_id = i, ev_step = step, ev_actor = actor,
          ev_data = payload, ev_created_at = clock e (w_ticks w)\<rparr>]\<rparr>\<rparr>)"
  by (simp add: WriteEvent_def WriteEvent_stmt_def run_simps)

lemma run_Notify [run_simps]:
  "fault_free e \<Longrightarrow> marshal_ok payload \<Longrightarrow>
   run (Notify i payload) e w =
     (Done None, (tick w)\<lparr>w_db := (w_db w)\<lparr>db_notices := db_notices (w_db w) @ [payload]\<rparr>\<rparr>)"
  by (simp add: Notify_def Notify_stmt_def run_simps)

lemma run_set_transfer [run_simps]:
  "fault_free e \<Longrightarrow> canonical e i \<Longrightarrow>
   run (exec_sql (set_transfer_stmt i f)) e w =
     (Done None, (tick w)\<lparr>w_db := upd_transfer i
        (\<lambda>r. (f r)\<lparr>t_updated_at := clock e (w_ticks w)\<rparr>) (w_db w)\<rparr>)"
  by (simp add: set_transfer_stmt_def run_simps)

end
