(* ===== verification/StoreLedger.thy ===== *)
theory StoreLedger
  imports StoreTransfers
begin

text \<open>
  \<open>internal/store/ledger.go\<close>, \<open>accounts.go\<close>, \<open>correspondents.go\<close> and \<open>notifications.go\<close>: the ledger
  table (append-only, one transaction per batch of entries), the accounts, the correspondents' rules
  and the investor notifications.
\<close>

section \<open>Ledger entries\<close>

definition ledger_row_of :: "env \<Rightarrow> nat \<Rightarrow> LedgerEntry \<Rightarrow> numeric \<Rightarrow> ledger_row" where
  "ledger_row_of e n le amt =
     \<lparr>l_id = le_ID le, l_movement_id = le_MovementID le, l_transfer_id = le_TransferID le,
      l_account_id = le_AccountID le, l_side = le_Side le, l_amount = amt,
      l_entry_type = le_EntryType le, l_memo = le_Memo le, l_created_at = clock e n\<rparr>"

text \<open>One \<open>INSERT INTO ledger_entries\<close> inside the transaction, with the constraints of
  \<open>004_ledger_entries.sql\<close>: the amount's syntax and range, \<open>valid_amount\<close>, the primary key,
  \<open>unique_entry_per_type\<close> and the foreign keys.\<close>

definition insert_entry :: "env \<Rightarrow> nat \<Rightarrow> LedgerEntry \<Rightarrow> db \<Rightarrow> go_error + db" where
  "insert_entry e n le d =
     (case numeric_in (le_Amount le) of
        None \<Rightarrow> Inl (EDriver ''invalid input syntax for type numeric'')
      | Some x \<Rightarrow>
        (case to_numeric 12 x of
           None \<Rightarrow> Inl (EDriver ''numeric field overflow'')
         | Some amt \<Rightarrow>
           let row = ledger_row_of e n le amt
           in if \<not> numeric_pos amt then Inl (EDriver ''valid_amount'')
              else if l_id row \<in> l_id ` set (ledger_entries d) then Inl (EDriver ''ledger_entries_pkey'')
              else if entry_key row \<in> entry_key ` set (ledger_entries d)
              then Inl (EDriver ''unique_entry_per_type'')
              else if transfer_of d (l_transfer_id row) = None \<or> account_of d (l_account_id row) = None
              then Inl (EDriver ''foreign key'')
              else Inr (d\<lparr>ledger_entries := ledger_entries d @ [row]\<rparr>)))"

text \<open>\<open>InsertEntries\<close>: the loop over the entries inside one transaction; an error rolls back the
  entries inserted before it, because the statement then leaves the database as it was.\<close>

fun InsertEntries_stmt :: "LedgerEntry list \<Rightarrow> unit stmt" where
  "InsertEntries_stmt [] e n d = Inr ((), d)"
| "InsertEntries_stmt (le # les) e n d =
     (case insert_entry e n le d of
        Inl err \<Rightarrow> Inl (EWrap ''store/ledger: insert entry'' err)
      | Inr d' \<Rightarrow> InsertEntries_stmt les e n d')"

definition InsertEntries :: "LedgerEntry list \<Rightarrow> go_error option prog" where
  "InsertEntries entries = exec_sql (InsertEntries_stmt entries)"

text \<open>\<open>SUM(CASE WHEN side = 'CREDIT' THEN amount ELSE -amount END)\<close>; NULL (no rows) becomes 0, whose
  text has no fraction.\<close>

definition signed_amount :: "ledger_row \<Rightarrow> numeric" where
  "signed_amount r = (case l_side r of SideCredit \<Rightarrow> l_amount r | SideDebit \<Rightarrow> numeric_minus (l_amount r))"

definition numeric_sum :: "numeric list \<Rightarrow> numeric" where
  "numeric_sum xs = foldr numeric_add xs (Num 0)"

definition sum_text :: "ledger_row list \<Rightarrow> string" where
  "sum_text rows = (if rows = [] then ''0'' else numeric_text (numeric_sum (map signed_amount rows)))"

definition GetBalance_stmt :: "uuid \<Rightarrow> string stmt" where
  "GetBalance_stmt acct = (\<lambda>e n d.
     Inr (sum_text (filter (\<lambda>r. l_account_id r = acct) (ledger_entries d)), d))"

definition Store_GetBalance :: "uuid \<Rightarrow> (go_error + string) prog" where
  "Store_GetBalance acct = bind (sql (GetBalance_stmt acct))
     (\<lambda>r. Ret (map_sum (EWrap ''store/ledger: get balance'') id r))"

definition Reconcile_stmt :: "string stmt" where
  "Reconcile_stmt = (\<lambda>e n d. Inr (sum_text (ledger_entries d), d))"

definition Store_Reconcile :: "(go_error + string) prog" where
  "Store_Reconcile = bind (sql Reconcile_stmt)
     (\<lambda>r. Ret (map_sum (EWrap ''store/ledger: reconcile'') id r))"

text \<open>\<open>GetEntriesByTransfer\<close>: the rows of the transfer by creation time, the amount as text.\<close>

definition entry_of_row :: "ledger_row \<Rightarrow> LedgerEntry" where
  "entry_of_row r =
     \<lparr>le_ID = l_id r, le_MovementID = l_movement_id r, le_TransferID = l_transfer_id r,
      le_AccountID = l_account_id r, le_Side = l_side r, le_Amount = numeric_text (l_amount r),
      le_EntryType = l_entry_type r, le_Memo = l_memo r,
      le_CreatedAt = Some (l_created_at r)\<rparr>"

definition GetEntriesByTransfer_stmt :: "uuid \<Rightarrow> LedgerEntry list stmt" where
  "GetEntriesByTransfer_stmt i = (\<lambda>e n d. Inr (map entry_of_row
     (sort_key l_created_at (filter (\<lambda>r. l_transfer_id r = i) (ledger_entries d))), d))"

definition GetEntriesByTransfer :: "uuid \<Rightarrow> (go_error + LedgerEntry list) prog" where
  "GetEntriesByTransfer i = bind (sql (GetEntriesByTransfer_stmt i))
     (\<lambda>r. Ret (map_sum (EWrap ''store/ledger: query entries'') id r))"

section \<open>Accounts\<close>

text \<open>\<open>store.Account\<close> has the fields of its row, the correspondent being nil for FEE-APEX.\<close>

definition scanAccount :: "go_error + account_row option \<Rightarrow> go_error + account_row" where
  "scanAccount r = (case r of
       Inl err \<Rightarrow> Inl (EWrap ''store: scan account'' err)
     | Inr None \<Rightarrow> Inl (EMsg ''store: account not found'')
     | Inr (Some a) \<Rightarrow> Inr a)"

definition Accounts_GetByID :: "uuid \<Rightarrow> (go_error + account_row) prog" where
  "Accounts_GetByID i = bind (sql (\<lambda>e n d. Inr (account_of d i, d))) (\<lambda>r. Ret (scanAccount r))"

definition GetByCode :: "string \<Rightarrow> (go_error + account_row) prog" where
  "GetByCode code =
     bind (sql (\<lambda>e n d. Inr (row_of a_code code (accounts d), d))) (\<lambda>r. Ret (scanAccount r))"

definition GetOmnibusForCorrespondent :: "uuid \<Rightarrow> (go_error + uuid) prog" where
  "GetOmnibusForCorrespondent corr =
     bind (sql (\<lambda>e n d. Inr (find (\<lambda>a. a_correspondent_id a = Some corr \<and> a_type a = ''OMNIBUS'')
                               (accounts d), d)))
       (\<lambda>r. Ret (case r of
           Inl err \<Rightarrow> Inl (EWrap ''store: GetOmnibusForCorrespondent'' err)
         | Inr None \<Rightarrow> Inl (EMsg ''store: no omnibus account for correspondent'')
         | Inr (Some a) \<Rightarrow> Inr (a_id a)))"

definition ListInvestorAccounts :: "(go_error + account_row list) prog" where
  "ListInvestorAccounts =
     sql (\<lambda>e n d. Inr (sort_key (\<lambda>a. collate e (a_code a))
            (filter (\<lambda>a. a_type a \<notin> {''OMNIBUS'', ''FEE''}) (accounts d)), d))"

definition SetStatus :: "uuid \<Rightarrow> string \<Rightarrow> go_error option prog" where
  "SetStatus i status = exec_sql (\<lambda>e n d.
     Inr ((), d\<lparr>accounts := upd_row a_id i (\<lambda>a. a\<lparr>a_status := status\<rparr>) (accounts d)\<rparr>))"

section \<open>Correspondents\<close>

record Correspondent =
  co_ID :: uuid
  co_Code :: string
  co_Name :: string
  co_RulesConfig :: RulesConfig

definition Correspondents_GetByID :: "uuid \<Rightarrow> (go_error + Correspondent) prog" where
  "Correspondents_GetByID i =
     bind (sql (\<lambda>e n d. Inr (row_of c_id i (correspondents d), d)))
       (\<lambda>r. Ret (case r of
           Inl err \<Rightarrow> Inl (EWrap ''store: GetByID correspondent'' err)
         | Inr None \<Rightarrow> Inl (EMsg ''store: correspondent not found'')
         | Inr (Some c) \<Rightarrow>
             (case c_rules_config c of
                None \<Rightarrow> Inl (EWrap ''store: unmarshal rules_config'' (EMsg ''invalid JSON''))
              | Some rules \<Rightarrow> Inr \<lparr>co_ID = c_id c, co_Code = c_code c, co_Name = c_name c,
                                  co_RulesConfig = rules\<rparr>)))"

section \<open>Notifications\<close>

definition CreateNotification :: "uuid \<Rightarrow> uuid \<Rightarrow> string \<Rightarrow> string \<Rightarrow> go_error option prog" where
  "CreateNotification acct tid typ message = exec_sql (\<lambda>e n d.
     if account_of d acct = None \<or> transfer_of d tid = None then Inl (EDriver ''foreign key'')
     else Inr ((), d\<lparr>notifications := notifications d @
       [\<lparr>n_id = fresh_uuid e n, n_account_id = acct, n_transfer_id = Some tid, n_type = typ,
         n_message = message, n_read_at = None, n_created_at = clock e n\<rparr>]\<rparr>))"

definition Notifications_ListByAccountID :: "string \<Rightarrow> (go_error + notification_row list) prog" where
  "Notifications_ListByAccountID acct = sql (\<lambda>e n d. with_uuid e acct (\<lambda>u.
     Inr (sort_key (\<lambda>r. - n_created_at r) (filter (\<lambda>r. n_account_id r = u) (notifications d)), d)))"

definition MarkRead_stmt :: "string \<Rightarrow> nat stmt" where
  "MarkRead_stmt i = (\<lambda>e n d. with_uuid e i (\<lambda>u.
     Inr (length (filter (\<lambda>r. n_id r = u) (notifications d)),
          d\<lparr>notifications := upd_row n_id u (\<lambda>r. r\<lparr>n_read_at := Some (clock e n)\<rparr>) (notifications d)\<rparr>)))"

definition Notifications_MarkRead :: "string \<Rightarrow> go_error option prog" where
  "Notifications_MarkRead i = bind (sql (MarkRead_stmt i)) (\<lambda>r. Ret (case r of
       Inl err \<Rightarrow> Some err
     | Inr k \<Rightarrow> if k = 0 then Some (EMsg ''notification not found'') else None))"

end
