(* ===== verification/StoreSettlement.thy ===== *)
theory StoreSettlement
  imports StoreLedger
begin

text \<open>
  \<open>internal/store/settlement.go\<close> (batches and their transfers), the settlement queries that
  \<open>cmd/api/main.go\<close> issues itself (\<open>sqlSettlementQuerier\<close>) and the idempotency table of
  \<open>cmd/api/middleware/idempotency.go\<close>.
\<close>

section \<open>Batches\<close>

text \<open>\<open>settlement.Transfer\<close> and \<open>settlement.Batch\<close>: the engine's view of the rows.\<close>

record STransfer =
  st_ID :: string
  st_AccountID :: string
  st_FromAccountID :: string
  st_CorrespondentID :: string
  st_Amount :: float64
  st_State :: TransferState
  st_MICRData :: "MICRData option"
  st_FrontImageRef :: "string option"
  st_BackImageRef :: "string option"
  st_SubmittedAt :: instant

record Batch =
  ba_ID :: uuid
  ba_CorrespondentID :: string
  ba_CutoffDate :: day
  ba_Status :: batch_status
  ba_FileRef :: string
  ba_RecordCount :: nat
  ba_TotalAmount :: float64
  ba_SubmittedAt :: "instant option"
  ba_AcknowledgedAt :: "instant option"
  ba_CreatedAt :: instant
  ba_TransferIDs :: "string list"

definition scanSTransfer :: "transfer_row \<Rightarrow> STransfer" where
  "scanSTransfer r =
     \<lparr>st_ID = t_id r, st_AccountID = t_account_id r, st_FromAccountID = t_from_account_id r,
      st_CorrespondentID = t_correspondent_id r, st_Amount = numeric_float (t_amount r),
      st_State = t_state r, st_MICRData = t_micr_data r, st_FrontImageRef = t_front_image_ref r,
      st_BackImageRef = t_back_image_ref r, st_SubmittedAt = t_submitted_at r\<rparr>"

text \<open>\<open>scanBatch\<close> and \<open>scanBatchRow\<close>: NULL columns become Go zero values.\<close>

definition scanBatch :: "batch_row \<Rightarrow> Batch" where
  "scanBatch r =
     \<lparr>ba_ID = b_id r, ba_CorrespondentID = b_correspondent_id r, ba_CutoffDate = b_cutoff_date r,
      ba_Status = b_status r,
      ba_FileRef = (case b_file_ref r of None \<Rightarrow> '''' | Some s \<Rightarrow> s),
      ba_RecordCount = (case b_record_count r of None \<Rightarrow> 0 | Some k \<Rightarrow> k),
      ba_TotalAmount = (case b_total_amount r of None \<Rightarrow> Fin 0 | Some x \<Rightarrow> numeric_float x),
      ba_SubmittedAt = b_submitted_at r, ba_AcknowledgedAt = b_acknowledged_at r,
      ba_CreatedAt = b_created_at r, ba_TransferIDs = []\<rparr>"

definition ListFundsPostedBefore_stmt :: "instant \<Rightarrow> transfer_row list stmt" where
  "ListFundsPostedBefore_stmt cutoff = (\<lambda>e n d.
     Inr (sort_key t_submitted_at
            (filter (\<lambda>r. t_state r = FundsPosted \<and> t_submitted_at r < cutoff) (transfers d)), d))"

definition ListFundsPostedBefore :: "instant \<Rightarrow> (go_error + STransfer list) prog" where
  "ListFundsPostedBefore cutoff = bind (sql (ListFundsPostedBefore_stmt cutoff))
     (\<lambda>r. Ret (map_sum (EWrap ''query FundsPosted transfers'') (map scanSTransfer) r))"

definition insert_batch :: "batch_row \<Rightarrow> db \<Rightarrow> go_error + uuid \<times> db" where
  "insert_batch row d =
     (if row_of c_id (b_correspondent_id row) (correspondents d) = None then Inl (EDriver ''foreign key'')
      else if batch_of d (b_id row) \<noteq> None then Inl (EDriver ''settlement_batches_pkey'')
      else Inr (b_id row, d\<lparr>settlement_batches := settlement_batches d @ [row]\<rparr>))"

definition CreateBatch_stmt ::
  "string \<Rightarrow> day \<Rightarrow> string \<Rightarrow> nat \<Rightarrow> float64 \<Rightarrow> uuid stmt" where
  "CreateBatch_stmt corr cutoffDate fileRef recordCount totalAmount = (\<lambda>e n d.
     with_uuid e corr (\<lambda>c.
       case to_numeric 14 (float_param e totalAmount) of
         None \<Rightarrow> Inl (EDriver ''numeric field overflow'')
       | Some tot \<Rightarrow> insert_batch
           \<lparr>b_id = fresh_uuid e n, b_correspondent_id = c, b_cutoff_date = cutoffDate,
            b_status = PENDING, b_file_ref = Some fileRef, b_record_count = Some recordCount,
            b_total_amount = Some tot, b_submitted_at = None, b_acknowledged_at = None,
            b_created_at = clock e n\<rparr> d))"

definition CreateBatch ::
  "string \<Rightarrow> day \<Rightarrow> string \<Rightarrow> nat \<Rightarrow> float64 \<Rightarrow> (go_error + uuid) prog" where
  "CreateBatch corr cutoffDate fileRef recordCount totalAmount =
     bind (sql (CreateBatch_stmt corr cutoffDate fileRef recordCount totalAmount))
       (\<lambda>r. Ret (map_sum (EWrap ''insert settlement batch'') id r))"

definition UpdateBatchStatus_stmt :: "uuid \<Rightarrow> batch_status \<Rightarrow> instant option \<Rightarrow> unit stmt" where
  "UpdateBatchStatus_stmt i status acknowledgedAt = (\<lambda>e n d.
     let f = (case status of
                SUBMITTED \<Rightarrow> (\<lambda>b. b\<lparr>b_status := status, b_submitted_at := Some (clock e n)\<rparr>)
              | ACKNOWLEDGED \<Rightarrow> (\<lambda>b. b\<lparr>b_status := status, b_acknowledged_at := acknowledgedAt\<rparr>)
              | PENDING \<Rightarrow> (\<lambda>b. b\<lparr>b_status := status\<rparr>))
     in Inr ((), d\<lparr>settlement_batches := upd_row b_id i f (settlement_batches d)\<rparr>))"

definition UpdateBatchStatus :: "uuid \<Rightarrow> batch_status \<Rightarrow> instant option \<Rightarrow> go_error option prog" where
  "UpdateBatchStatus i status acknowledgedAt = exec_sql (UpdateBatchStatus_stmt i status acknowledgedAt)"

text \<open>The zero \<open>time.Time\<close> is \<open>None\<close>: then only the link is written.\<close>

definition SetSettlementBatch_stmt :: "string \<Rightarrow> uuid \<Rightarrow> instant option \<Rightarrow> unit stmt" where
  "SetSettlementBatch_stmt i batchID settledAt = (\<lambda>e n d.
     with_uuid e i (\<lambda>u.
     if transfer_of d u \<noteq> None \<and> batch_of d batchID = None then Inl (EDriver ''fk_settlement_batch'')
     else set_transfer_stmt i
       (case settledAt of
          None \<Rightarrow> (\<lambda>r. r\<lparr>t_settlement_batch_id := Some batchID\<rparr>)
        | Some t \<Rightarrow> (\<lambda>r. r\<lparr>t_settlement_batch_id := Some batchID, t_settled_at := Some t\<rparr>)) e n d))"

definition SetSettlementBatch :: "string \<Rightarrow> uuid \<Rightarrow> instant option \<Rightarrow> go_error option prog" where
  "SetSettlementBatch i batchID settledAt = exec_sql (SetSettlementBatch_stmt i batchID settledAt)"

definition transferIDsForBatch :: "uuid \<Rightarrow> (go_error + string list) prog" where
  "transferIDsForBatch i = sql (\<lambda>e n d.
     Inr (map t_id (sort_key t_submitted_at
            (filter (\<lambda>r. t_settlement_batch_id r = Some i) (transfers d))), d))"

definition GetBatch :: "uuid \<Rightarrow> (go_error + Batch) prog" where
  "GetBatch i =
     bind (sql (\<lambda>e n d. Inr (batch_of d i, d))) (\<lambda>r. case r of
       Inl err \<Rightarrow> Ret (Inl err)
     | Inr None \<Rightarrow> Ret (Inl (EDriver ''no rows in result set''))
     | Inr (Some row) \<Rightarrow>
         bind (transferIDsForBatch (b_id row)) (\<lambda>tids. case tids of
           Inl err \<Rightarrow> Ret (Inl err)
         | Inr ids \<Rightarrow> Ret (Inr ((scanBatch row)\<lparr>ba_TransferIDs := ids\<rparr>))))"

text \<open>\<open>ListBatches\<close>: the batches newest first, one more query for each batch's transfers.\<close>

fun load_batches :: "batch_row list \<Rightarrow> (go_error + Batch list) prog" where
  "load_batches [] = Ret (Inr [])"
| "load_batches (row # rows) =
     bind (transferIDsForBatch (b_id row)) (\<lambda>tids. case tids of
       Inl err \<Rightarrow> Ret (Inl err)
     | Inr ids \<Rightarrow> bind (load_batches rows) (\<lambda>rest. Ret (case rest of
           Inl err \<Rightarrow> Inl err
         | Inr bs \<Rightarrow> Inr ((scanBatch row)\<lparr>ba_TransferIDs := ids\<rparr> # bs))))"

definition ListBatches :: "(go_error + Batch list) prog" where
  "ListBatches =
     bind (sql (\<lambda>e n d. Inr (sort_key (\<lambda>b. - b_created_at b) (settlement_batches d), d)))
       (\<lambda>r. case r of Inl err \<Rightarrow> Ret (Inl err) | Inr rows \<Rightarrow> load_batches rows)"

definition UnbatchedFundsPostedCount :: "(go_error + nat) prog" where
  "UnbatchedFundsPostedCount = sql (\<lambda>e n d.
     Inr (length (filter (\<lambda>r. t_state r = FundsPosted \<and> t_settlement_batch_id r = None) (transfers d)), d))"

section \<open>The settlement queries of main.go\<close>

definition CountUnbatched :: "instant \<Rightarrow> (go_error + nat) prog" where
  "CountUnbatched cutoff = sql (\<lambda>e n d.
     Inr (length (filter (\<lambda>r. t_state r = FundsPosted \<and> t_settlement_batch_id r = None
                            \<and> t_submitted_at r < cutoff) (transfers d)), d))"

definition CountAllUnbatched :: "(go_error + nat) prog" where
  "CountAllUnbatched = sql (\<lambda>e n d.
     Inr (length (filter (\<lambda>r. t_state r = FundsPosted \<and> t_settlement_batch_id r = None) (transfers d)), d))"

record SettlementBatchInfo =
  bi_ID :: uuid
  bi_GeneratedAt :: instant
  bi_Count :: nat
  bi_Status :: batch_status

definition LastBatch :: "(go_error + SettlementBatchInfo) prog" where
  "LastBatch =
     bind (sql (\<lambda>e n d. Inr (sort_key (\<lambda>b. - b_created_at b) (settlement_batches d), d)))
       (\<lambda>r. Ret (case r of
           Inl err \<Rightarrow> Inl err
         | Inr [] \<Rightarrow> Inl (EDriver ''no rows in result set'')
         | Inr (b # _) \<Rightarrow> Inr \<lparr>bi_ID = b_id b, bi_GeneratedAt = b_created_at b,
             bi_Count = (case b_record_count b of None \<Rightarrow> 0 | Some k \<Rightarrow> k), bi_Status = b_status b\<rparr>))"

text \<open>\<open>SELECT correspondent_id, COUNT(*) ... GROUP BY correspondent_id LIMIT 1\<close>: some group of the
  unbatched transfers (here the group of the first one), or no row.\<close>

definition unbatched :: "db \<Rightarrow> transfer_row list" where
  "unbatched d = filter (\<lambda>r. t_state r = FundsPosted \<and> t_settlement_batch_id r = None) (transfers d)"

definition first_group :: "db \<Rightarrow> (uuid \<times> nat) option" where
  "first_group d = (case unbatched d of
       [] \<Rightarrow> None
     | r # rs \<Rightarrow> Some (t_correspondent_id r,
         length (filter (\<lambda>x. t_correspondent_id x = t_correspondent_id r) (r # rs))))"

text \<open>The demo batch of \<open>POST /health/settlement/trigger\<close>: three statements, no transaction.\<close>

definition link_unbatched_stmt :: "uuid \<Rightarrow> unit stmt" where
  "link_unbatched_stmt b = (\<lambda>e n d.
     if unbatched d \<noteq> [] \<and> batch_of d b = None then Inl (EDriver ''fk_settlement_batch'')
     else Inr ((), d\<lparr>transfers := map (\<lambda>r. if t_state r = FundsPosted \<and> t_settlement_batch_id r = None
                                    then r\<lparr>t_settlement_batch_id := Some b\<rparr> else r) (transfers d)\<rparr>))"

definition insert_demo_batch :: "uuid \<Rightarrow> nat \<Rightarrow> (uuid \<times> instant) stmt" where
  "insert_demo_batch corr ready = (\<lambda>e n d.
     case insert_batch \<lparr>b_id = fresh_uuid e n, b_correspondent_id = corr, b_cutoff_date = current_date e n,
            b_status = ACKNOWLEDGED, b_file_ref = None, b_record_count = Some ready,
            b_total_amount = None, b_submitted_at = None, b_acknowledged_at = None,
            b_created_at = clock e n\<rparr> d of
       Inl err \<Rightarrow> Inl err
     | Inr (i, d') \<Rightarrow> Inr ((i, clock e n), d'))"

definition CreateDemoBatch :: "(go_error + SettlementBatchInfo) prog" where
  "CreateDemoBatch =
     bind (sql (\<lambda>e n d. case first_group d of None \<Rightarrow> Inl (EDriver ''no rows in result set'')
                         | Some g \<Rightarrow> Inr (g, d))) (\<lambda>grp.
     bind (case grp of
             Inr (corr, ready) \<Rightarrow> Ret (Inr (corr, ready))
           | Inl _ \<Rightarrow>
               bind (sql (\<lambda>e n d. case correspondents d of
                            [] \<Rightarrow> Inl (EDriver ''no rows in result set'')
                          | c # _ \<Rightarrow> Inr (c_id c, d))) (\<lambda>r. Ret (case r of
                   Inl err \<Rightarrow> Inl (EWrap ''no correspondents found'' err)
                 | Inr corr \<Rightarrow> Inr (corr, 0)))) (\<lambda>sel.
     case sel of
       Inl err \<Rightarrow> Ret (Inl err)
     | Inr (corr, ready) \<Rightarrow>
         bind (sql (insert_demo_batch corr ready)) (\<lambda>ins.
         case ins of
           Inl err \<Rightarrow> Ret (Inl (EWrap ''insert settlement_batch'' err))
         | Inr (batchID, createdAt) \<Rightarrow>
             let info = \<lparr>bi_ID = batchID, bi_GeneratedAt = createdAt, bi_Count = ready,
                         bi_Status = ACKNOWLEDGED\<rparr>
             in if 0 < ready
                then bind (exec_sql (link_unbatched_stmt batchID)) (\<lambda>err. Ret (case err of
                       Some er \<Rightarrow> Inl (EWrap ''link transfers to batch'' er)
                     | None \<Rightarrow> Inr info))
                else Ret (Inr info))))"

section \<open>Idempotency keys\<close>

record storedResponse =
  sr_Code :: nat
  sr_Body :: json

definition Idem_Lookup :: "string \<Rightarrow> storedResponse option prog" where
  "Idem_Lookup key =
     bind (sql (\<lambda>e n d. Inr (row_of i_key key (idempotency_keys d), d))) (\<lambda>r. Ret (case r of
         Inr (Some row) \<Rightarrow> Some \<lparr>sr_Code = i_response_code row, sr_Body = i_response_body row\<rparr>
       | _ \<Rightarrow> None))"

text \<open>\<open>INSERT ... ON CONFLICT (key) DO NOTHING\<close>.\<close>

definition Idem_Store :: "string \<Rightarrow> string \<Rightarrow> nat \<Rightarrow> json \<Rightarrow> go_error option prog" where
  "Idem_Store key tid code body = exec_sql (\<lambda>e n d. with_uuid e tid (\<lambda>u.
     if row_of i_key key (idempotency_keys d) \<noteq> None then Inr ((), d)
     else if transfer_of d u = None then Inl (EDriver ''foreign key'')
     else Inr ((), d\<lparr>idempotency_keys := idempotency_keys d @
       [\<lparr>i_key = key, i_transfer_id = u, i_response_code = code, i_response_body = body\<rparr>]\<rparr>)))"

end
