(* ===== verification/Queries.thy ===== *)
theory Queries
  imports StoreSettlement
begin

text \<open>
  The reading methods of the stores: a query leaves the database as it was, so every reflexive relation on
  databases holds of its step. The lemmas are proved once for the locale of such relations.
\<close>

context reflexive_guarantee
begin

lemma query:
  assumes "\<And>e n d r d'. st e n d = Inr (r, d') \<Longrightarrow> d' = d"
  shows "guarantees R (sql st)"
  using assms R_refl by (intro sqlI) metis

lemma queries:
  "guarantees R (GetByID i)" "guarantees R (ListRecent k)"
  "guarantees R (ListByAccountID i)" "guarantees R (ListQueue f)"
  "guarantees R (GetEvents i)" "guarantees R (HasRecentTransfer a m win)"
  "guarantees R (Store_GetBalance u)" "guarantees R Store_Reconcile"
  "guarantees R (GetEntriesByTransfer u)"
  "guarantees R (Accounts_GetByID u)" "guarantees R (GetByCode c)"
  "guarantees R (GetOmnibusForCorrespondent u)" "guarantees R ListInvestorAccounts"
  "guarantees R (Correspondents_GetByID u)" "guarantees R (Notifications_ListByAccountID c)"
  "guarantees R (transferIDsForBatch u)" "guarantees R UnbatchedFundsPostedCount"
  "guarantees R (CountUnbatched cutoff)" "guarantees R CountAllUnbatched"
  "guarantees R LastBatch" "guarantees R (Idem_Lookup key)"
  "guarantees R (ListFundsPostedBefore cutoff)"
  unfolding GetByID_def ListRecent_def ListByAccountID_def ListQueue_def GetEvents_def HasRecentTransfer_def
    Store_GetBalance_def Store_Reconcile_def GetEntriesByTransfer_def Accounts_GetByID_def GetByCode_def
    GetOmnibusForCorrespondent_def ListInvestorAccounts_def Correspondents_GetByID_def
    Notifications_ListByAccountID_def transferIDsForBatch_def UnbatchedFundsPostedCount_def CountUnbatched_def
    CountAllUnbatched_def LastBatch_def Idem_Lookup_def ListFundsPostedBefore_def
  by (intro guarantees_bind query guarantees_Ret quiet;
      auto simp: GetByID_stmt_def ListRecent_stmt_def ListByAccountID_stmt_def ListQueue_stmt_def
        GetEvents_stmt_def HasRecentTransfer_stmt_def GetBalance_stmt_def Reconcile_stmt_def
        GetEntriesByTransfer_stmt_def ListFundsPostedBefore_stmt_def Let_def split: option.splits)+

lemma GetBatch: "guarantees R (GetBatch b)"
  unfolding GetBatch_def
  by (intro guarantees_bind query) (auto intro!: guarantees_bind queries split: sum.splits option.splits)

lemma ListBatches: "guarantees R ListBatches"
proof -
  have "guarantees R (load_batches rows)" for rows
    by (induction rows) (auto intro!: guarantees_bind queries split: sum.splits)
  then show ?thesis
    unfolding ListBatches_def by (intro guarantees_bind query) (auto split: sum.splits)
qed

end

end
