(* ===== verification/Lawful.thy ===== *)
theory Lawful
  imports Queries
begin

text \<open>
  What no code may do to the database, whatever the schedule: \<open>lawful T\<close> relates the database before and
  after one atomic step. Transfers are never deleted, keep their account, correspondent, amount and
  settlement link, change state along \<open>T\<close> only (\<open>valid_step\<close> or a part of it) and are created on existing
  accounts, by a step \<open>T None\<close>; the ledger, the event log and the stored responses are append-only, ledger rows are
  appended in pairs of one debit and one credit of the same movement, with positive amounts and never
  twice for the same transfer, entry type, account and side, no account appears,
  disappears or changes its id, and the ids of transfers stay distinct. Every store
  operation is lawful, under the side conditions that the callers must then establish.
\<close>

section \<open>The relation\<close>

definition same_identity :: "transfer_row \<Rightarrow> transfer_row \<Rightarrow> bool" where
  "same_identity r r' \<longleftrightarrow>
     t_id r' = t_id r \<and> t_account_id r' = t_account_id r \<and> t_from_account_id r' = t_from_account_id r \<and>
     t_correspondent_id r' = t_correspondent_id r \<and> t_amount r' = t_amount r \<and>
     t_submitted_at r' = t_submitted_at r \<and>
     (t_settlement_batch_id r \<noteq> None \<longrightarrow> t_settlement_batch_id r' \<noteq> None)"

text \<open>The steps of the state machine; \<open>None\<close> is the state of a transfer that does not exist yet.\<close>

type_synonym transition_rel = "TransferState option \<Rightarrow> TransferState \<Rightarrow> bool"

fun valid_step :: transition_rel where
  "valid_step None t = (t = Requested)"
| "valid_step (Some s) t = isValidTransition s t"

fun lawful_transfer ::
  "transition_rel \<Rightarrow> uuid set \<Rightarrow> transfer_row option \<Rightarrow> transfer_row option \<Rightarrow> bool" where
  "lawful_transfer T A None None = True"
| "lawful_transfer T A None (Some r') = (T None (t_state r') \<and> t_account_id r' \<in> A)"
| "lawful_transfer T A (Some r) None = False"
| "lawful_transfer T A (Some r) (Some r') =
     (same_identity r r' \<and> (t_state r' = t_state r \<or> T (Some (t_state r)) (t_state r')))"

definition ledger_pair :: "ledger_row \<Rightarrow> ledger_row \<Rightarrow> bool" where
  "ledger_pair x y \<longleftrightarrow>
     l_side x = SideDebit \<and> l_side y = SideCredit \<and> l_amount x = l_amount y \<and>
     l_movement_id x = l_movement_id y \<and> l_transfer_id x = l_transfer_id y \<and>
     l_entry_type x = l_entry_type y \<and> l_memo x = l_memo y"

fun ledger_pairs :: "ledger_row list \<Rightarrow> bool" where
  "ledger_pairs [] = True"
| "ledger_pairs [x] = False"
| "ledger_pairs (x # y # rs) = (ledger_pair x y \<and> ledger_pairs rs)"

lemma ledger_pairs_append: "ledger_pairs xs \<Longrightarrow> ledger_pairs (xs @ ys) \<longleftrightarrow> ledger_pairs ys"
  by (induction xs rule: ledger_pairs.induct) auto

text \<open>\<open>unique_entry_per_type\<close> and \<open>valid_amount\<close>.\<close>

definition sound_rows :: "ledger_row list \<Rightarrow> bool" where
  "sound_rows rows \<longleftrightarrow> distinct (map entry_key rows) \<and> list_all (\<lambda>r. numeric_pos (l_amount r)) rows"

definition account_ids :: "db \<Rightarrow> uuid set" where
  "account_ids d = a_id ` set (accounts d)"

lemma account_ids_iff: "a \<in> account_ids d \<longleftrightarrow> account_of d a \<noteq> None"
  using row_of_None_iff [of a_id a "accounts d"] by (auto simp: account_ids_def)

definition lawful :: "transition_rel \<Rightarrow> db \<Rightarrow> db \<Rightarrow> bool" where
  "lawful T d d' \<longleftrightarrow>
     (\<forall>i. lawful_transfer T (account_ids d) (transfer_of d i) (transfer_of d' i)) \<and>
     map a_id (accounts d') = map a_id (accounts d) \<and>
     (distinct (map t_id (transfers d)) \<longrightarrow> distinct (map t_id (transfers d'))) \<and>
     (\<exists>new. ledger_entries d' = ledger_entries d @ new \<and> ledger_pairs new) \<and>
     (sound_rows (ledger_entries d) \<longrightarrow> sound_rows (ledger_entries d')) \<and>
     (\<exists>new. transfer_events d' = transfer_events d @ new) \<and>
     (\<exists>new. idempotency_keys d' = idempotency_keys d @ new)"

lemma same_identity_refl [simp]: "same_identity r r"
  by (simp add: same_identity_def)

lemma lawful_transfer_refl [simp]: "lawful_transfer T A x x"
  by (cases x) simp_all

lemma lawful_mono:
  assumes "lawful T d d'" "\<And>s t. T s t \<Longrightarrow> T' s t"
  shows "lawful T' d d'"
proof -
  have "lawful_transfer T A x y \<Longrightarrow> lawful_transfer T' A x y" for A x y
    using assms(2) by (cases x; cases y) auto
  then show ?thesis using assms(1) by (auto simp: lawful_def)
qed

lemma lawful_refl: "lawful T d d"
  by (simp add: lawful_def exI [of _ "[]"])

interpretation lawful: reflexive_guarantee "lawful T"
  by unfold_locales (rule lawful_refl)

text \<open>Updates that leave these tables alone, append an event, or change other fields of a transfer.\<close>

lemma lawful_same_tables:
  "transfers d' = transfers d \<Longrightarrow> ledger_entries d' = ledger_entries d
   \<Longrightarrow> transfer_events d' = transfer_events d
   \<Longrightarrow> map a_id (accounts d') = map a_id (accounts d) \<Longrightarrow> idempotency_keys d' = idempotency_keys d
   \<Longrightarrow> lawful T d d'"
  by (simp add: lawful_def exI [of _ "[]"])

lemma lawful_upd_transfer:
  assumes "\<And>r. transfer_of d i = Some r \<Longrightarrow>
      same_identity r (f r) \<and> (t_state (f r) = t_state r \<or> T (Some (t_state r)) (t_state (f r)))"
    and "\<And>r. t_id (f r) = t_id r"
  shows "lawful T d (upd_transfer i f d)"
proof -
  have "lawful_transfer T A (transfer_of d j) (transfer_of (upd_transfer i f d) j)" for j A
    using assms(1) by (cases "transfer_of d j") (auto simp: transfer_of_upd_transfer assms(2))
  moreover have "map t_id (transfers (upd_transfer i f d)) = map t_id (transfers d)"
    by (simp add: upd_transfer_def upd_row_keys assms(2))
  ultimately show ?thesis by (simp add: lawful_def exI [of _ "[]"])
qed

lemma lawful_set_transfer_stmt:
  assumes "\<And>r. same_identity r (f r)" "\<And>r. t_state (f r) = t_state r"
  shows "set_transfer_stmt i f e n d = Inr (x, d') \<Longrightarrow> lawful T d d'"
proof -
  have t: "t_id (f r) = t_id r" for r using assms(1) [of r] by (simp add: same_identity_def)
  have "same_identity r ((f r)\<lparr>t_updated_at := c\<rparr>)" for r c
    using assms(1) [of r] by (simp add: same_identity_def)
  then show "set_transfer_stmt i f e n d = Inr (x, d') \<Longrightarrow> lawful T d d'"
    by (auto simp: set_transfer_stmt_def assms t intro!: lawful_upd_transfer)
qed

section \<open>The store operations are lawful\<close>

lemma lawful_set_transfer:
  "(\<And>r. same_identity r (f r)) \<Longrightarrow> (\<And>r. t_state (f r) = t_state r)
   \<Longrightarrow> guarantees (lawful T) (exec_sql (set_transfer_stmt i f))"
  by (rule lawful.exec_sqlI) (rule lawful_set_transfer_stmt)

lemma lawful_Create:
  assumes "T None Requested"
  shows "guarantees (lawful T) (Create ci)"
proof -
  have "lawful T d (d\<lparr>transfers := transfers d @ [row]\<rparr>)"
    if "t_state row = Requested" "transfer_of d (t_id row) = None" "account_of d (t_account_id row) \<noteq> None" for d row
  proof -
    have "lawful_transfer T (account_ids d) (transfer_of d i)
        (transfer_of (d\<lparr>transfers := transfers d @ [row]\<rparr>) i)" for i
      using that by (cases "transfer_of d i") (auto simp: db_simps account_ids_iff assms)
    moreover have "t_id row \<notin> t_id ` set (transfers d)" using that(2) by (simp add: row_of_None_iff)
    ultimately show ?thesis by (simp add: lawful_def exI [of _ "[]"])
  qed
  then show ?thesis
    unfolding Create_def
    by (intro guarantees_bind lawful.sqlI guarantees_Ret)
       (auto simp: Create_stmt_def Let_def split: option.splits if_splits)
qed

lemma lawful_UpdateState:
  assumes "T (Some from) to"
  shows "guarantees (lawful T) (UpdateState i from to)"
  unfolding UpdateState_def
proof (intro guarantees_bind lawful.sqlI guarantees_Ret)
  fix e n d r d'
  assume "UpdateState_stmt i from to e n d = Inr (r, d')"
  with assms show "lawful T d d'"
    by (auto simp: UpdateState_stmt_def lawful_refl same_identity_def
        intro!: lawful_upd_transfer split: option.splits if_splits)
qed

lemma lawful_WriteEvent: "guarantees (lawful T) (WriteEvent i step actor payload)"
proof -
  have "lawful T d (d\<lparr>transfer_events := transfer_events d @ [v]\<rparr>)" for d v
    by (simp add: lawful_def exI [of _ "[]"])
  then show ?thesis
    unfolding WriteEvent_def
    by (auto simp: WriteEvent_stmt_def intro!: lawful.exec_sqlI guarantees_Ret split: if_splits)
qed

lemma lawful_Notify: "guarantees (lawful T) (Notify i payload)"
  unfolding Notify_def
  by (auto simp: Notify_stmt_def intro!: lawful.exec_sqlI guarantees_Ret lawful_same_tables split: if_splits)

lemma lawful_setters:
  "guarantees (lawful T) (SetErrorCode i code)" "guarantees (lawful T) (SetReviewReason i reason)"
  "guarantees (lawful T) (SetContributionType i ct)" "guarantees (lawful T) (SetImageRefs i fr bk)"
  by (simp_all add: SetErrorCode_def SetReviewReason_def SetContributionType_def SetImageRefs_def
      lawful_set_transfer same_identity_def)

lemma lawful_SetVSSResults: "guarantees (lawful T) (SetVSSResults i tx c m)"
  unfolding SetVSSResults_def
  by (rule lawful.exec_sqlI)
     (auto simp: SetVSSResults_stmt_def split: option.splits if_splits
       intro: lawful_set_transfer_stmt [rotated 2] simp: same_identity_def)

lemma lawful_other_writes:
  "guarantees (lawful T) (SetStatus i s)" "guarantees (lawful T) (CreateNotification a i t m)"
  "guarantees (lawful T) (Notifications_MarkRead c)" "guarantees (lawful T) (UpdateBatchStatus b st ts)"
  "guarantees (lawful T) (Idem_Store k i code body)"
proof -
  have "lawful T d (d\<lparr>idempotency_keys := idempotency_keys d @ [row]\<rparr>)" for d row
    by (simp add: lawful_def)
  then show "guarantees (lawful T) (Idem_Store k i code body)"
    unfolding Idem_Store_def by (intro lawful.exec_sqlI) (auto simp: lawful_refl split: if_splits)
qed (unfold SetStatus_def CreateNotification_def Notifications_MarkRead_def UpdateBatchStatus_def;
     intro guarantees_bind lawful.exec_sqlI lawful.sqlI guarantees_Ret;
     auto simp: MarkRead_stmt_def UpdateBatchStatus_stmt_def Let_def lawful_refl upd_row_keys
        intro!: lawful_same_tables split: if_splits)+

lemma lawful_CreateBatch: "guarantees (lawful T) (CreateBatch c day fr k tot)"
  unfolding CreateBatch_def
  by (intro guarantees_bind lawful.sqlI guarantees_Ret)
     (auto simp: CreateBatch_stmt_def insert_batch_def intro!: lawful_same_tables split: option.splits if_splits)

lemma lawful_SetSettlementBatch: "guarantees (lawful T) (SetSettlementBatch i b ts)"
  unfolding SetSettlementBatch_def
proof (rule lawful.exec_sqlI)
  fix e n d r d'
  assume "SetSettlementBatch_stmt i b ts e n d = Inr (r, d')"
  then obtain f where "set_transfer_stmt i f e n d = Inr (r, d')"
    and "\<And>r. same_identity r (f r)" "\<And>r. t_state (f r) = t_state r"
    by (auto simp: SetSettlementBatch_stmt_def same_identity_def split: if_splits option.splits)
  then show "lawful T d d'" by (rule lawful_set_transfer_stmt [rotated 2])
qed

lemma lawful_link_unbatched: "guarantees (lawful T) (exec_sql (link_unbatched_stmt b))"
proof (rule lawful.exec_sqlI)
  fix e n d r d'
  assume "link_unbatched_stmt b e n d = Inr (r, d')"
  then have d': "d' = d\<lparr>transfers := map (\<lambda>r. if t_state r = FundsPosted \<and> t_settlement_batch_id r = None
      then r\<lparr>t_settlement_batch_id := Some b\<rparr> else r) (transfers d)\<rparr>"
    by (simp add: link_unbatched_stmt_def split: if_splits)
  have "lawful_transfer T A (row_of t_id i rows) (row_of t_id i (map (\<lambda>r. if t_state r = FundsPosted
      \<and> t_settlement_batch_id r = None then r\<lparr>t_settlement_batch_id := Some b\<rparr> else r) rows))" for i rows A
    by (induction rows) (auto simp: db_simps same_identity_def)
  then have "lawful_transfer T A (transfer_of d i) (transfer_of d' i)" for i A by (simp add: d')
  moreover have "map t_id (transfers d') = map t_id (transfers d)" by (simp add: d')
  moreover have "ledger_entries d' = ledger_entries d" "transfer_events d' = transfer_events d"
    "accounts d' = accounts d" "idempotency_keys d' = idempotency_keys d" by (simp_all add: d')
  ultimately show "lawful T d d'" by (simp add: lawful_def exI [of _ "[]"])
qed

lemma lawful_CreateDemoBatch: "guarantees (lawful T) CreateDemoBatch"
proof -
  have ins: "guarantees (lawful T) (sql (insert_demo_batch corr k))" for corr k
    by (rule lawful.sqlI)
       (auto simp: insert_demo_batch_def insert_batch_def intro!: lawful_same_tables split: if_splits)
  show ?thesis
    unfolding CreateDemoBatch_def
    by (intro guarantees_bind lawful.query)
       (auto intro!: guarantees_bind lawful.query ins lawful_link_unbatched
         split: sum.splits option.splits list.splits simp: Let_def)
qed

text \<open>A debit and a credit of one movement, inserted in one transaction, are a pair of rows.\<close>

definition entry_pair :: "LedgerEntry \<Rightarrow> LedgerEntry \<Rightarrow> bool" where
  "entry_pair x y \<longleftrightarrow>
     le_Side x = SideDebit \<and> le_Side y = SideCredit \<and> le_Amount x = le_Amount y \<and>
     le_MovementID x = le_MovementID y \<and> le_TransferID x = le_TransferID y \<and>
     le_EntryType x = le_EntryType y \<and> le_Memo x = le_Memo y"

lemma insert_entry_Inr:
  "insert_entry e n le d = Inr d' \<longleftrightarrow>
     (\<exists>x amt. numeric_in (le_Amount le) = Some x \<and> to_numeric 12 x = Some amt \<and> numeric_pos amt \<and>
        le_ID le \<notin> l_id ` set (ledger_entries d) \<and>
        entry_key (ledger_row_of e n le amt) \<notin> entry_key ` set (ledger_entries d) \<and>
        transfer_of d (le_TransferID le) \<noteq> None \<and> account_of d (le_AccountID le) \<noteq> None \<and>
        d' = d\<lparr>ledger_entries := ledger_entries d @ [ledger_row_of e n le amt]\<rparr>)"
  by (auto simp: insert_entry_def ledger_row_of_def Let_def split: option.splits)

lemma lawful_InsertEntries_stmt:
  assumes "entry_pair x y" "InsertEntries_stmt [x, y] e n d = Inr (r, d')"
  shows "lawful T d d'"
proof -
  from assms(2) obtain d1 where 1: "insert_entry e n x d = Inr d1" "insert_entry e n y d1 = Inr d'"
    by (auto split: sum.splits)
  then obtain amt where "d' = d\<lparr>ledger_entries := ledger_entries d @
      [ledger_row_of e n x amt, ledger_row_of e n y amt]\<rparr>"
    and "sound_rows (ledger_entries d) \<longrightarrow> sound_rows (ledger_entries d')"
    using assms(1) by (auto simp: insert_entry_Inr entry_pair_def sound_rows_def) (auto simp: ledger_row_of_def)
  moreover have "ledger_pair (ledger_row_of e n x amt) (ledger_row_of e n y amt)"
    using assms(1) by (simp add: entry_pair_def ledger_pair_def ledger_row_of_def)
  ultimately show "lawful T d d'" by (simp add: lawful_def)
qed

lemma lawful_InsertEntries:
  "entry_pair x y \<Longrightarrow> guarantees (lawful T) (InsertEntries [x, y])"
  unfolding InsertEntries_def by (rule lawful.exec_sqlI) (rule lawful_InsertEntries_stmt)

lemmas lawful_ops = lawful_Create lawful_WriteEvent lawful_Notify lawful_setters lawful_SetVSSResults
  lawful.queries lawful.GetBatch lawful.ListBatches lawful_other_writes lawful_CreateBatch
  lawful_SetSettlementBatch lawful_CreateDemoBatch lawful.quiet

end
