(* ===== verification/Middleware.thy ===== *)
theory Middleware
  imports StoreSettlement Lawful
begin

text \<open>
  \<open>cmd/api/middleware\<close>: what a handler receives and writes, the demo-token authentication
  (\<open>auth.go\<close>), the settlement bank's bearer token (\<open>settlement_auth.go\<close>) and the replay of responses by
  idempotency key (\<open>idempotency.go\<close>). A handler is a program that returns the response it wrote.
\<close>

section \<open>Responses\<close>

text \<open>The body: JSON, the text of \<open>http.Error\<close>, a served file, or nothing when the encoder failed.\<close>

datatype body = JsonBody jval | TextBody string | FileBody string | EmptyBody

record response =
  rs_Status :: nat
  rs_Body :: body
  rs_Replay :: bool

definition writeJSON :: "nat \<Rightarrow> jval \<Rightarrow> response" where
  "writeJSON status data =
     \<lparr>rs_Status = status, rs_Body = (if jval_ok data then JsonBody data else EmptyBody), rs_Replay = False\<rparr>"

definition error_json :: "nat \<Rightarrow> string \<Rightarrow> response" where
  "error_json status msg = writeJSON status (JObj [(''error'', JStr msg)])"

definition http_Error :: "string \<Rightarrow> nat \<Rightarrow> response" where
  "http_Error msg status = \<lparr>rs_Status = status, rs_Body = TextBody msg, rs_Replay = False\<rparr>"

text \<open>The text of an error object as the middleware writes it by hand.\<close>

definition quoted :: "string \<Rightarrow> string" where
  "quoted s = [CHR 0x22] @ s @ [CHR 0x22]"

definition error_text :: "string \<Rightarrow> string" where
  "error_text msg = ''{'' @ quoted ''error'' @ '':'' @ quoted msg @ ''}''"

section \<open>Authentication\<close>

record DemoToken =
  dt_OperatorID :: string
  dt_Role :: string
  dt_CorrespondentID :: string
  dt_AccountID :: string

definition demoTokens :: "string \<rightharpoonup> DemoToken" where
  "demoTokens =
     [''operator-alpha'' \<mapsto> \<lparr>dt_OperatorID = ''op-alpha-001'', dt_Role = ''operator'',
        dt_CorrespondentID = ''c0000000-0000-0000-0000-000000000001'', dt_AccountID = ''''\<rparr>,
      ''operator-beta'' \<mapsto> \<lparr>dt_OperatorID = ''op-beta-001'', dt_Role = ''operator'',
        dt_CorrespondentID = ''c0000000-0000-0000-0000-000000000002'', dt_AccountID = ''''\<rparr>,
      ''apex-admin'' \<mapsto> \<lparr>dt_OperatorID = ''admin-001'', dt_Role = ''admin'',
        dt_CorrespondentID = '''', dt_AccountID = ''''\<rparr>,
      ''investor-alpha'' \<mapsto> \<lparr>dt_OperatorID = '''', dt_Role = ''investor'',
        dt_CorrespondentID = ''c0000000-0000-0000-0000-000000000001'',
        dt_AccountID = ''a0000000-0000-0000-0000-000000000001''\<rparr>,
      ''investor-beta'' \<mapsto> \<lparr>dt_OperatorID = '''', dt_Role = ''investor'',
        dt_CorrespondentID = ''c0000000-0000-0000-0000-000000000002'',
        dt_AccountID = ''a0000000-0000-0000-0000-000000000007''\<rparr>]"

text \<open>The four context values; a value that was not set reads as the empty string.\<close>

record ctx =
  cx_Role :: "string option"
  cx_OperatorID :: "string option"
  cx_CorrespondentID :: "string option"
  cx_AccountID :: "string option"

definition background :: ctx where
  "background = \<lparr>cx_Role = None, cx_OperatorID = None, cx_CorrespondentID = None, cx_AccountID = None\<rparr>"

definition with_token :: "DemoToken \<Rightarrow> ctx \<Rightarrow> ctx" where
  "with_token dt c =
     (let c1 = c\<lparr>cx_Role := Some (dt_Role dt), cx_OperatorID := Some (dt_OperatorID dt)\<rparr>;
          c2 = (if dt_CorrespondentID dt \<noteq> '''' then c1\<lparr>cx_CorrespondentID := Some (dt_CorrespondentID dt)\<rparr> else c1)
      in if dt_AccountID dt \<noteq> '''' then c2\<lparr>cx_AccountID := Some (dt_AccountID dt)\<rparr> else c2)"

definition RoleFromContext :: "ctx \<Rightarrow> string" where
  "RoleFromContext c = (case cx_Role c of None \<Rightarrow> '''' | Some v \<Rightarrow> v)"

definition CorrespondentIDFromContext :: "ctx \<Rightarrow> string" where
  "CorrespondentIDFromContext c = (case cx_CorrespondentID c of None \<Rightarrow> '''' | Some v \<Rightarrow> v)"

definition OperatorIDFromContext :: "ctx \<Rightarrow> string" where
  "OperatorIDFromContext c = (case cx_OperatorID c of None \<Rightarrow> '''' | Some v \<Rightarrow> v)"

definition AccountIDFromContext :: "ctx \<Rightarrow> string" where
  "AccountIDFromContext c = (case cx_AccountID c of None \<Rightarrow> '''' | Some v \<Rightarrow> v)"

text \<open>\<open>Auth(next)\<close> on the value of the Authorization header (empty: no header).\<close>

definition Auth :: "(ctx \<Rightarrow> response prog) \<Rightarrow> string \<Rightarrow> response prog" where
  "Auth nxt authHeader =
     (if authHeader = '''' then Ret (http_Error (error_text ''missing Authorization header'') 401)
      else
        let token = TrimPrefix authHeader ''Bearer '' in
        if token = authHeader
        then Ret (http_Error (error_text ''invalid Authorization format, expected Bearer <token>'') 401)
        else case demoTokens token of
               None \<Rightarrow> Ret (http_Error (error_text ''invalid token'') 401)
             | Some dt \<Rightarrow> nxt (with_token dt background))"

definition extractBearerToken :: "string \<Rightarrow> string" where
  "extractBearerToken header =
     (if HasPrefix header ''Bearer '' then drop (length ''Bearer '') header else '''')"

definition SettlementAuth :: "response prog \<Rightarrow> string \<Rightarrow> response prog" where
  "SettlementAuth nxt authHeader =
     bind (go_getenv ''SETTLEMENT_BANK_TOKEN'') (\<lambda>expected.
       if expected = '''' then Ret (http_Error (error_text ''settlement auth not configured'') 401)
       else if extractBearerToken authHeader \<noteq> expected then Ret (http_Error (error_text ''unauthorized'') 401)
       else nxt)"

section \<open>Idempotency\<close>

text \<open>\<open>respData["id"].(string)\<close>: the string member \<open>id\<close> of a JSON object.\<close>

definition response_id :: "body \<Rightarrow> (json \<times> string) option" where
  "response_id b =
     (case b of
        JsonBody (JObj m) \<Rightarrow> (case map_of m ''id'' of Some (JStr i) \<Rightarrow> Some (m, i) | _ \<Rightarrow> None)
      | _ \<Rightarrow> None)"

definition replay_response :: "storedResponse \<Rightarrow> response" where
  "replay_response s = \<lparr>rs_Status = sr_Code s, rs_Body = JsonBody (JObj (sr_Body s)), rs_Replay = True\<rparr>"

definition Idempotency :: "string \<Rightarrow> response prog \<Rightarrow> response prog" where
  "Idempotency key nxt =
     (if key = '''' then nxt
      else bind (Idem_Lookup key) (\<lambda>found. case found of
        Some s \<Rightarrow> Ret (replay_response s)
      | None \<Rightarrow>
          bind nxt (\<lambda>rs. case response_id (rs_Body rs) of
            None \<Rightarrow> Ret rs
          | Some (m, i) \<Rightarrow> bind (Idem_Store key i (rs_Status rs) m) (\<lambda>_. Ret rs))))"

section \<open>What they guarantee\<close>

lemma guarantees_Auth:
  "(\<And>c. guarantees R (nxt c)) \<Longrightarrow> guarantees R (Auth nxt authHeader)"
  by (auto simp: Auth_def Let_def split: option.splits)

lemma lawful_SettlementAuth:
  "guarantees (lawful T) nxt \<Longrightarrow> guarantees (lawful T) (SettlementAuth nxt authHeader)"
  unfolding SettlementAuth_def by (auto intro!: guarantees_bind lawful.quiet)

text \<open>The tokens by role.\<close>

lemma demoTokens_cases:
  "demoTokens tok = Some dt \<Longrightarrow>
   (dt_CorrespondentID dt = '''' \<longleftrightarrow> tok = ''apex-admin'') \<and>
   (dt_AccountID dt \<noteq> '''' \<longleftrightarrow> dt_Role dt = ''investor'')"
  by (auto simp: demoTokens_def split: if_splits)

lemma Auth_cases:
  "(\<exists>msg. Auth nxt authHeader = Ret (http_Error msg 401)) \<or>
   (\<exists>tok dt. authHeader = ''Bearer '' @ tok \<and> demoTokens tok = Some dt \<and>
      Auth nxt authHeader = nxt (with_token dt background))"
proof (cases "HasPrefix authHeader ''Bearer ''")
  case True
  then obtain tok where "authHeader = ''Bearer '' @ tok" by (auto simp: HasPrefix_iff)
  then show ?thesis
    using TrimPrefix_append [of "''Bearer ''" tok]
    by (auto simp: Auth_def Let_def split: option.splits)
next
  case False
  then show ?thesis by (auto simp: Auth_def Let_def TrimPrefix_def)
qed

end
