(* ===== verification/LedgerService.thy ===== *)
theory LedgerService
  imports Lawful
begin

text \<open>
  \<open>internal/ledger/service.go\<close>: double-entry posting and the queries over the ledger, and what they
  promise: two rows per posting or none, a balance that moves by exactly the posted amount, and a
  global sum that stays zero.
\<close>

section \<open>The service\<close>

definition double_entry ::
  "EntryType \<Rightarrow> uuid \<Rightarrow> uuid \<Rightarrow> uuid \<Rightarrow> uuid \<Rightarrow> uuid \<Rightarrow> string \<Rightarrow> string \<Rightarrow> uuid \<Rightarrow> LedgerEntry list" where
  "double_entry entryType movementID id1 id2 debit credit amount memo transferID =
     [\<lparr>le_ID = id1, le_MovementID = movementID, le_TransferID = transferID, le_AccountID = debit,
       le_Side = SideDebit, le_Amount = amount, le_EntryType = entryType, le_Memo = memo,
       le_CreatedAt = None\<rparr>,
      \<lparr>le_ID = id2, le_MovementID = movementID, le_TransferID = transferID, le_AccountID = credit,
       le_Side = SideCredit, le_Amount = amount, le_EntryType = entryType, le_Memo = memo,
       le_CreatedAt = None\<rparr>]"

definition PostDoubleEntry :: "uuid \<Rightarrow> uuid \<Rightarrow> string \<Rightarrow> string \<Rightarrow> uuid \<Rightarrow> go_error option prog" where
  "PostDoubleEntry debit credit amount memo transferID =
     (case MemoToEntryType memo of
        None \<Rightarrow> Ret (Some (EMsg ''ledger: unknown memo''))
      | Some entryType \<Rightarrow>
          bind new_uuid (\<lambda>movementID. bind new_uuid (\<lambda>id1. bind new_uuid (\<lambda>id2.
          bind (InsertEntries (double_entry entryType movementID id1 id2 debit credit amount memo transferID))
            (\<lambda>err. Ret (map_option (EWrap ''ledger: post double entry'') err))))))"

definition GetBalance :: "uuid \<Rightarrow> (go_error + string) prog" where
  "GetBalance acct = bind (Store_GetBalance acct) (\<lambda>r. Ret (map_sum (EWrap ''ledger: get balance'') id r))"

definition GetEntries :: "uuid \<Rightarrow> (go_error + LedgerEntry list) prog" where
  "GetEntries transferID =
     bind (GetEntriesByTransfer transferID) (\<lambda>r. Ret (map_sum (EWrap ''ledger: get entries'') id r))"

definition Reconcile :: "(go_error + string) prog" where
  "Reconcile = bind Store_Reconcile (\<lambda>r. Ret (map_sum (EWrap ''ledger: reconcile'') id r))"

lemma lawful_PostDoubleEntry: "guarantees (lawful T) (PostDoubleEntry dr cr amount memo i)"
  unfolding PostDoubleEntry_def double_entry_def
  by (auto intro!: guarantees_bind guarantees_Ret lawful_ops lawful_InsertEntries
      simp: entry_pair_def split: option.splits)

lemma lawful_ledger_service:
  "guarantees (lawful T) (GetBalance a)" "guarantees (lawful T) (GetEntries i)" "guarantees (lawful T) Reconcile"
  unfolding GetBalance_def GetEntries_def Reconcile_def
  by (intro guarantees_bind guarantees_Ret lawful.queries)+

section \<open>Balances in cents\<close>

text \<open>The abstract ledger: how many cents each account holds. It is defined for ledgers without NaN.\<close>

definition nan_free :: "ledger_row list \<Rightarrow> bool" where
  "nan_free rows \<longleftrightarrow> list_all (\<lambda>r. l_amount r \<noteq> NumNaN) rows"

fun cents :: "numeric \<Rightarrow> int" where
  "cents (Num c) = c"
| "cents NumNaN = 0"

definition signed_cents :: "ledger_row \<Rightarrow> int" where
  "signed_cents r = (case l_side r of SideCredit \<Rightarrow> cents (l_amount r) | SideDebit \<Rightarrow> - cents (l_amount r))"

definition balance :: "ledger_row list \<Rightarrow> uuid \<Rightarrow> int" where
  "balance rows acct = sum_list (map signed_cents (filter (\<lambda>r. l_account_id r = acct) rows))"

definition ledger_total :: "ledger_row list \<Rightarrow> int" where
  "ledger_total rows = sum_list (map signed_cents rows)"

lemma nan_free_simps [simp]:
  "nan_free []" "nan_free (r # rs) \<longleftrightarrow> l_amount r \<noteq> NumNaN \<and> nan_free rs"
  "nan_free (xs @ ys) \<longleftrightarrow> nan_free xs \<and> nan_free ys"
  by (simp_all add: nan_free_def)

lemma nan_free_filter: "nan_free rows \<Longrightarrow> nan_free (filter P rows)"
  by (induction rows) auto

lemma numeric_sum_cents:
  "nan_free rows \<Longrightarrow> numeric_sum (map signed_amount rows) = Num (ledger_total rows)"
proof (induction rows)
  case (Cons r rs)
  obtain c where "l_amount r = Num c" using Cons.prems by (cases "l_amount r") auto
  with Cons show ?case
    by (cases "l_side r") (simp_all add: numeric_sum_def ledger_total_def signed_amount_def signed_cents_def)
qed (simp add: numeric_sum_def ledger_total_def)

lemma sum_text_cents:
  "nan_free rows \<Longrightarrow> sum_text rows = (if rows = [] then ''0'' else cents_text (ledger_total rows))"
  by (simp add: sum_text_def numeric_sum_cents)

lemma balance_total: "balance rows acct = ledger_total (filter (\<lambda>r. l_account_id r = acct) rows)"
  by (simp add: balance_def ledger_total_def)

lemma balance_append: "balance (xs @ ys) acct = balance xs acct + balance ys acct"
  by (simp add: balance_def)

lemma ledger_total_append: "ledger_total (xs @ ys) = ledger_total xs + ledger_total ys"
  by (simp add: ledger_total_def)

lemma ledger_pair_cents: "ledger_pair x y \<Longrightarrow> signed_cents x + signed_cents y = 0"
  by (simp add: ledger_pair_def signed_cents_def)

lemma ledger_pairs_total: "ledger_pairs rows \<Longrightarrow> ledger_total rows = 0"
  by (induction rows rule: ledger_pairs.induct)
     (use ledger_pair_cents in \<open>force simp: ledger_total_def\<close>)+

lemma ledger_total_balances:
  "ledger_total rows = (\<Sum>acct \<in> l_account_id ` set rows. balance rows acct)"
proof -
  have "ledger_total rows = (\<Sum>acct \<in> A. balance rows acct)"
    if "finite A" "l_account_id ` set rows \<subseteq> A" for A
    using that(2)
  proof (induction rows)
    case Nil
    then show ?case by (simp add: ledger_total_def balance_def)
  next
    case (Cons r rs)
    have "(\<Sum>acct \<in> A. balance (r # rs) acct)
        = (\<Sum>acct \<in> A. (if acct = l_account_id r then signed_cents r else 0) + balance rs acct)"
      by (rule sum.cong) (auto simp: balance_def)
    also have "\<dots> = signed_cents r + (\<Sum>acct \<in> A. balance rs acct)"
      using Cons.prems that(1) by (simp add: sum.distrib sum.delta)
    finally show ?case using Cons by (simp add: ledger_total_def)
  qed
  then show ?thesis by simp
qed

lemma cents_text_zero: "cents_text 0 = ''0.00''"
  by code_simp

section \<open>The double-entry contract\<close>

text \<open>
  What any store of ledger rows promises once its reachable states hold balanced pairs: the
  reconciliation sum is zero and the balances of all accounts cancel.
\<close>

locale double_entry_book =
  fixes rows :: "'s \<Rightarrow> ledger_row list" and good :: "'s \<Rightarrow> bool"
  assumes good_pairs: "good s \<Longrightarrow> ledger_pairs (rows s)"
begin

lemma total_zero: "good s \<Longrightarrow> ledger_total (rows s) = 0"
  by (rule ledger_pairs_total [OF good_pairs])

lemma balances_cancel: "good s \<Longrightarrow> (\<Sum>acct \<in> l_account_id ` set (rows s). balance (rows s) acct) = 0"
  using total_zero [of s] ledger_total_balances [of "rows s"] by simp

lemma reconciliation_text:
  "good s \<Longrightarrow> nan_free (rows s) \<Longrightarrow> sum_text (rows s) = (if rows s = [] then ''0'' else ''0.00'')"
  by (simp add: sum_text_cents total_zero cents_text_zero)

end

definition paired_books :: "db \<Rightarrow> bool" where
  "paired_books d \<longleftrightarrow> ledger_pairs (ledger_entries d)"

interpretation book: double_entry_book ledger_entries paired_books
  by unfold_locales (simp add: paired_books_def)

lemma lawful_paired_books: "lawful T d d' \<Longrightarrow> paired_books d \<Longrightarrow> paired_books d'"
  by (auto simp: lawful_def paired_books_def ledger_pairs_append)

section \<open>Posting without faults\<close>

text \<open>UUIDs made within sixteen steps of each other differ.\<close>

definition fresh_window :: "env \<Rightarrow> bool" where
  "fresh_window e \<longleftrightarrow> (\<forall>n k. 0 < k \<longrightarrow> k < 16 \<longrightarrow> fresh_uuid e (n + k) \<noteq> fresh_uuid e n)"

lemma fresh_windowD: "fresh_window e \<Longrightarrow> m < n \<Longrightarrow> n < m + 16 \<Longrightarrow> fresh_uuid e n \<noteq> fresh_uuid e m"
  unfolding fresh_window_def by (metis add_diff_inverse_nat less_imp_not_less nat_add_left_cancel_less zero_less_diff)

text \<open>When a posting of a positive number of cents succeeds: known memo and accounts, fresh ids, and no
  earlier entry of the same type for the same transfer, account and side.\<close>

definition postable :: "env \<Rightarrow> world \<Rightarrow> EntryType \<Rightarrow> uuid \<Rightarrow> uuid \<Rightarrow> int \<Rightarrow> uuid \<Rightarrow> bool" where
  "postable e w et dr cr c i \<longleftrightarrow>
     0 < c \<and> c < 10 ^ 12 \<and>
     fresh_uuid e (w_ticks w + 1) \<notin> l_id ` set (ledger_entries (w_db w)) \<and>
     fresh_uuid e (w_ticks w + 2) \<notin> l_id ` set (ledger_entries (w_db w)) \<and>
     fresh_uuid e (w_ticks w + 2) \<noteq> fresh_uuid e (w_ticks w + 1) \<and>
     (i, et, dr, SideDebit) \<notin> entry_key ` set (ledger_entries (w_db w)) \<and>
     (i, et, cr, SideCredit) \<notin> entry_key ` set (ledger_entries (w_db w)) \<and>
     transfer_of (w_db w) i \<noteq> None \<and>
     account_of (w_db w) dr \<noteq> None \<and> account_of (w_db w) cr \<noteq> None"

definition posted_rows ::
  "env \<Rightarrow> nat \<Rightarrow> EntryType \<Rightarrow> uuid \<Rightarrow> uuid \<Rightarrow> int \<Rightarrow> string \<Rightarrow> uuid \<Rightarrow> ledger_row list" where
  "posted_rows e n et dr cr c memo i =
     map2 (\<lambda>le _. ledger_row_of e (n + 3) le (Num c))
       (double_entry et (fresh_uuid e n) (fresh_uuid e (n + 1)) (fresh_uuid e (n + 2)) dr cr '''' memo i) [(), ()]"

lemma posted_rows_eq:
  "posted_rows e n et dr cr c memo i =
     [\<lparr>l_id = fresh_uuid e (n + 1), l_movement_id = fresh_uuid e n, l_transfer_id = i,
       l_account_id = dr, l_side = SideDebit, l_amount = Num c, l_entry_type = et, l_memo = memo,
       l_created_at = clock e (n + 3)\<rparr>,
      \<lparr>l_id = fresh_uuid e (n + 2), l_movement_id = fresh_uuid e n, l_transfer_id = i,
       l_account_id = cr, l_side = SideCredit, l_amount = Num c, l_entry_type = et, l_memo = memo,
       l_created_at = clock e (n + 3)\<rparr>]"
  by (simp add: posted_rows_def double_entry_def ledger_row_of_def)

lemma to_numeric_12: "0 < c \<Longrightarrow> c < 10 ^ 12 \<Longrightarrow> to_numeric 12 (SNum (of_int c / 100)) = Some (Num c)"
  by (rule to_numeric_cents) simp

lemma run_PostDoubleEntry:
  assumes "fault_free e" "MemoToEntryType memo = Some et" "postable e w et dr cr c i"
  shows "run (PostDoubleEntry dr cr (cents_text c) memo i) e w =
     (Done None, w\<lparr>w_ticks := w_ticks w + 4,
        w_db := (w_db w)\<lparr>ledger_entries := ledger_entries (w_db w) @ posted_rows e (w_ticks w) et dr cr c memo i\<rparr>\<rparr>)"
  using assms(3)
  by (simp add: PostDoubleEntry_def assms(1,2) InsertEntries_def double_entry_def run_simps
      insert_entry_def numeric_in_cents_text to_numeric_12 Let_def postable_def ledger_row_of_def
      entry_key_def posted_rows_eq del: to_numeric.simps)
     (simp add: tick_def numeral_eq_Suc)

lemma balance_posted_rows:
  "dr \<noteq> cr \<Longrightarrow> balance (posted_rows e n et dr cr c memo i) a
     = (if a = dr then - c else if a = cr then c else 0)"
  by (simp add: posted_rows_eq balance_def signed_cents_def)

end
