(* ===== verification/Funding.thy ===== *)
theory Funding
  imports LedgerService
begin

text \<open>
  \<open>internal/funding/rules.go\<close> and \<open>engine.go\<close>: the rules as functions of the request, the engine
  that runs them in order, and the locale that says what a list of rules promises.
\<close>

section \<open>Rules\<close>

type_synonym Rule = "EvaluateRequest \<Rightarrow> FundingDecision option"

text \<open>A decision without omnibus account and contribution type: the zero values of Go.\<close>

definition nil_uuid :: uuid where
  "nil_uuid = ''00000000-0000-0000-0000-000000000000''"

definition decide :: "Decision \<Rightarrow> string \<Rightarrow> FundingDecision" where
  "decide dec reason =
     \<lparr>fd_Decision = dec, fd_ReasonCode = reason, fd_ResolvedOmnibusID = nil_uuid, fd_ContributionType = ''''\<rparr>"

definition AccountEligibilityRule :: Rule where
  "AccountEligibilityRule req =
     (if rq_AccountStatus req \<noteq> ''ACTIVE'' then Some (decide DecisionReject ''FS_ACCOUNT_INELIGIBLE'')
      else if list_ex (\<lambda>t. t = rq_AccountType req) (IneligibleAccountTypes (rq_RulesConfig req))
      then Some (decide DecisionReject ''FS_ACCOUNT_INELIGIBLE'')
      else None)"

definition DepositLimitRule :: Rule where
  "DepositLimitRule req =
     (if f_lt (DepositLimit (rq_RulesConfig req)) (rq_Amount req)
      then Some (decide DecisionReject ''FS_OVER_DEPOSIT_LIMIT'') else None)"

definition ContributionTypeRule :: Rule where
  "ContributionTypeRule req = None"

definition DefaultContributionType :: "EvaluateRequest \<Rightarrow> string" where
  "DefaultContributionType req =
     (if rq_AccountType req = ''IRA'' \<and> rq_ContributionType req = '''' then ''INDIVIDUAL''
      else rq_ContributionType req)"

definition VSSMICRRule :: Rule where
  "VSSMICRRule req =
     (case rq_VSSResult req of
        None \<Rightarrow> None
      | Some v \<Rightarrow> if \<not> MICRReadable v then Some (decide DecisionFlagForReview ''VSS_MICR_READ_FAIL'') else None)"

definition VSSAmountMismatchRule :: Rule where
  "VSSAmountMismatchRule req =
     (case rq_VSSResult req of
        None \<Rightarrow> None
      | Some v \<Rightarrow>
          if \<not> MICRReadable v then None
          else if \<not> f_eq (vr_OCRAmount v) (rq_Amount req)
          then Some (decide DecisionFlagForReview ''VSS_AMOUNT_MISMATCH'') else None)"

section \<open>The engine\<close>

text \<open>The resolver and the duplicate checker are the store's methods, injected.\<close>

record Engine =
  en_rules :: "Rule list"
  en_resolver :: "uuid \<Rightarrow> (go_error + uuid) prog"
  en_dupChecker :: "(uuid \<Rightarrow> float64 \<Rightarrow> int \<Rightarrow> (go_error + bool) prog) option"
  en_dupWindow :: int

definition minute :: int where
  "minute = 60 * 10 ^ 9"

definition NewEngine :: "(uuid \<Rightarrow> (go_error + uuid) prog) \<Rightarrow> Engine" where
  "NewEngine resolver =
     \<lparr>en_rules = [VSSMICRRule, VSSAmountMismatchRule, AccountEligibilityRule, DepositLimitRule,
                  ContributionTypeRule],
      en_resolver = resolver, en_dupChecker = None, en_dupWindow = 5 * minute\<rparr>"

definition WithDuplicateChecker ::
  "Engine \<Rightarrow> (uuid \<Rightarrow> float64 \<Rightarrow> int \<Rightarrow> (go_error + bool) prog) \<Rightarrow> int \<Rightarrow> Engine" where
  "WithDuplicateChecker en checker window = en\<lparr>en_dupChecker := Some checker, en_dupWindow := window\<rparr>"

text \<open>The loop over the rules: the first decision wins.\<close>

fun run_rules :: "Rule list \<Rightarrow> EvaluateRequest \<Rightarrow> FundingDecision option" where
  "run_rules [] req = None"
| "run_rules (rule # rules) req =
     (case rule req of Some d \<Rightarrow> Some d | None \<Rightarrow> run_rules rules req)"

definition Evaluate :: "Engine \<Rightarrow> EvaluateRequest \<Rightarrow> (go_error + FundingDecision) prog" where
  "Evaluate en req =
     bind (case en_dupChecker en of
             None \<Rightarrow> Ret (Inr False)
           | Some check \<Rightarrow> check (rq_AccountID req) (rq_Amount req) (en_dupWindow en)) (\<lambda>dup.
     case dup of
       Inl err \<Rightarrow> Ret (Inl (EWrap ''funding: duplicate check'' err))
     | Inr True \<Rightarrow> Ret (Inr (decide DecisionReject ''FS_DUPLICATE_DEPOSIT''))
     | Inr False \<Rightarrow>
         (case run_rules (en_rules en) req of
            Some d \<Rightarrow> Ret (Inr d)
          | None \<Rightarrow>
              bind (en_resolver en (rq_CorrespondentID req)) (\<lambda>omni. Ret (case omni of
                Inl err \<Rightarrow> Inl (EWrap ''funding: omnibus resolution'' err)
              | Inr omnibusID \<Rightarrow> Inr \<lparr>fd_Decision = DecisionApprove, fd_ReasonCode = '''',
                   fd_ResolvedOmnibusID = omnibusID,
                   fd_ContributionType = DefaultContributionType req\<rparr>))))"

section \<open>What rules promise\<close>

text \<open>A rule only stops a deposit, and it says why: it never approves and its reason is not empty.\<close>

locale stopping_rules =
  fixes rules :: "Rule list"
  assumes stops: "r \<in> set rules \<Longrightarrow> r req = Some d \<Longrightarrow> fd_Decision d \<noteq> DecisionApprove"
    and reasons: "r \<in> set rules \<Longrightarrow> r req = Some d \<Longrightarrow> fd_ReasonCode d \<noteq> ''''"
begin

lemma run_rules_Some:
  "rs \<subseteq> set rules \<Longrightarrow> set rl \<subseteq> rs \<Longrightarrow> run_rules rl req = Some d
   \<Longrightarrow> fd_Decision d \<noteq> DecisionApprove \<and> fd_ReasonCode d \<noteq> ''''"
  by (induction rl) (auto split: option.splits dest: stops reasons)

lemma decision_stops:
  "run_rules rules req = Some d \<Longrightarrow> fd_Decision d \<noteq> DecisionApprove \<and> fd_ReasonCode d \<noteq> ''''"
  by (rule run_rules_Some [OF order_refl order_refl])

end

lemma run_rules_None: "run_rules rules req = None \<longleftrightarrow> list_all (\<lambda>r. r req = None) rules"
  by (induction rules) (auto split: option.splits)

lemma decide_simps [simp]:
  "fd_Decision (decide dec c) = dec" "fd_ReasonCode (decide dec c) = c"
  "fd_ContributionType (decide dec c) = ''''"
  by (simp_all add: decide_def)

lemmas rule_defs = AccountEligibilityRule_def DepositLimitRule_def ContributionTypeRule_def
  VSSMICRRule_def VSSAmountMismatchRule_def

interpretation funding_rules: stopping_rules "en_rules (NewEngine resolver)"
  by unfold_locales (auto simp: NewEngine_def rule_defs split: option.splits if_splits)

text \<open>The rules of the engine in one decision: the eligibility that a deposit must pass.\<close>

definition eligible :: "EvaluateRequest \<Rightarrow> bool" where
  "eligible req \<longleftrightarrow>
     (case rq_VSSResult req of None \<Rightarrow> True
      | Some v \<Rightarrow> MICRReadable v \<and> f_eq (vr_OCRAmount v) (rq_Amount req)) \<and>
     rq_AccountStatus req = ''ACTIVE'' \<and>
     rq_AccountType req \<notin> set (IneligibleAccountTypes (rq_RulesConfig req)) \<and>
     \<not> f_lt (DepositLimit (rq_RulesConfig req)) (rq_Amount req)"

lemma run_rules_eligible: "run_rules (en_rules (NewEngine resolver)) req = None \<longleftrightarrow> eligible req"
  by (auto simp: run_rules_None NewEngine_def rule_defs eligible_def list_ex_iff split: option.splits if_splits)

lemma guarantees_Evaluate:
  assumes "\<And>c. guarantees R (en_resolver en c)"
    and "\<And>check a m win. en_dupChecker en = Some check \<Longrightarrow> guarantees R (check a m win)"
  shows "guarantees R (Evaluate en req)"
  unfolding Evaluate_def
  by (auto intro!: guarantees_bind guarantees_Ret assms split: option.splits sum.splits bool.splits)

end
