(* ===== verification/RelyGuarantee.thy ===== *)
theory RelyGuarantee
  imports Runtime
begin

text \<open>
  What one request may rely on while others interleave. \<open>stable G K\<close>: no step that satisfies \<open>G\<close>
  destroys the fact \<open>K\<close> about the database. \<open>rg e G p K Q\<close>: started when \<open>K\<close> holds, every step of
  \<open>p\<close> satisfies \<open>G\<close>, although other requests take steps satisfying \<open>G\<close> between any two steps of
  \<open>p\<close>, and \<open>Q\<close> holds of its result when it returns. The facts that \<open>p\<close> learns on the way must be
  stable, since only those survive until its next step.
\<close>

section \<open>Stable facts and triples\<close>

definition stable :: "(db \<Rightarrow> db \<Rightarrow> bool) \<Rightarrow> (db \<Rightarrow> bool) \<Rightarrow> bool" where
  "stable G K \<longleftrightarrow> (\<forall>d d'. K d \<longrightarrow> G d d' \<longrightarrow> K d')"

lemma stable_True [simp]: "stable G (\<lambda>_. P)"
  by (simp add: stable_def)

lemma stable_conj: "stable G K \<Longrightarrow> stable G L \<Longrightarrow> stable G (\<lambda>d. K d \<and> L d)"
  unfolding stable_def by blast

lemma stable_imp: "(P \<Longrightarrow> stable G K) \<Longrightarrow> stable G (\<lambda>d. P \<longrightarrow> K d)"
  by (auto simp: stable_def)

lemma stableD: "stable G K \<Longrightarrow> K d \<Longrightarrow> G d d' \<Longrightarrow> K d'"
  by (auto simp: stable_def)

primrec rg ::
  "env \<Rightarrow> (db \<Rightarrow> db \<Rightarrow> bool) \<Rightarrow> 'a prog \<Rightarrow> (db \<Rightarrow> bool) \<Rightarrow> ('a \<Rightarrow> db \<Rightarrow> bool) \<Rightarrow> bool" where
  "rg e G (Ret a) = (\<lambda>K Q. \<forall>d. K d \<longrightarrow> Q a d)"
| "rg e G (Panic m) = (\<lambda>K Q. True)"
| "rg e G (Step f) = (\<lambda>K Q. \<forall>w. K (w_db w) \<longrightarrow>
     G (w_db w) (w_db (snd (f e w))) \<and>
     (\<exists>K'. stable G K' \<and> K' (w_db (snd (f e w))) \<and> fst (map_prod (rg e G) id (f e w)) K' Q))"

lemma rg_Step:
  "rg e G (Step f) K Q \<longleftrightarrow> (\<forall>w. K (w_db w) \<longrightarrow>
     G (w_db w) (w_db (snd (f e w))) \<and>
     (\<exists>K'. stable G K' \<and> K' (w_db (snd (f e w))) \<and> rg e G (fst (f e w)) K' Q))"
  by (simp add: map_prod_def split_beta)

declare rg.simps(3) [simp del]

lemma rg_StepD:
  assumes "rg e G (Step f) K Q" "f e w = (q, w')" "K (w_db w)"
  shows "G (w_db w) (w_db w')" "\<exists>K'. stable G K' \<and> K' (w_db w') \<and> rg e G q K' Q"
  using assms by (metis fst_conv snd_conv rg_Step)+

section \<open>Rules\<close>

lemma rg_pre: "rg e G p K Q \<Longrightarrow> (\<And>d. K' d \<Longrightarrow> K d) \<Longrightarrow> rg e G p K' Q"
  by (cases p) (auto simp: rg_Step)

lemma rg_post: "rg e G p K Q \<Longrightarrow> (\<And>a d. Q a d \<Longrightarrow> Q' a d) \<Longrightarrow> rg e G p K Q'"
proof (induction p arbitrary: K)
  case (Step f)
  have "rg e G (fst (f e w)) K' Q'" if "rg e G (fst (f e w)) K' Q" for w K'
    using Step.IH [OF rangeI rangeI, of "fst (f e w)" e w] that Step.prems(2) by (auto simp: fsts.simps)
  with Step.prems(1) show ?case unfolding rg_Step by blast
qed auto

lemma rg_bind:
  assumes "rg e G p K M" "\<And>a. rg e G (k a) (M a) Q"
  shows "rg e G (bind p k) K Q"
  using assms(1)
proof (induction p arbitrary: K)
  case (Ret a)
  then show ?case using rg_pre [OF assms(2) [of a]] by simp
next
  case (Step f)
  have "rg e G (bind (fst (f e w)) k) K' Q" if "rg e G (fst (f e w)) K' M" for w K'
    using Step.IH [OF rangeI rangeI, of "fst (f e w)" e w] that by (auto simp: fsts.simps)
  with Step.prems show ?case
    unfolding rg_Step bind.simps by (simp add: map_prod_def split_beta) blast
qed simp

lemma rg_frame:
  assumes "rg e G p K Q" "stable G F"
  shows "rg e G p (\<lambda>d. K d \<and> F d) (\<lambda>a d. Q a d \<and> F d)"
  using assms(1)
proof (induction p arbitrary: K)
  case (Step f)
  show ?case
    unfolding rg_Step
  proof (intro allI impI)
    fix w :: world
    assume K: "K (w_db w) \<and> F (w_db w)"
    obtain q w' where f: "f e w = (q, w')" by force
    then have g: "G (w_db w) (w_db w')"
      and "\<exists>K'. stable G K' \<and> K' (w_db w') \<and> rg e G q K' Q"
      using rg_StepD [OF Step.prems f] K by auto
    then obtain K' where K': "stable G K'" "K' (w_db w')" "rg e G q K' Q" by blast
    have "rg e G q (\<lambda>d. K' d \<and> F d) (\<lambda>a d. Q a d \<and> F d)"
      using Step.IH [OF rangeI rangeI, of q e w K'] K'(3) f by (simp add: fsts.simps)
    moreover have "F (w_db w')" using stableD [OF assms(2)] K g by blast
    ultimately show "G (w_db w) (w_db (snd (f e w))) \<and>
        (\<exists>K''. stable G K'' \<and> K'' (w_db (snd (f e w))) \<and>
          rg e G (fst (f e w)) K'' (\<lambda>a d. Q a d \<and> F d))"
      using f g K' assms(2) by (auto intro!: exI [of _ "\<lambda>d. K' d \<and> F d"] stable_conj)
  qed
qed auto

lemma rg_atomic:
  assumes "\<And>w a w'. K (w_db w) \<Longrightarrow> f e w = (a, w') \<Longrightarrow> G (w_db w) (w_db w') \<and> Q a (w_db w')"
    and "\<And>a. stable G (Q a)"
  shows "rg e G (atomic f) K Q"
  unfolding atomic_def rg_Step
proof (intro allI impI)
  fix w :: world
  assume "K (w_db w)"
  obtain a w' where f: "f e w = (a, w')" by force
  with assms(1) [OF \<open>K (w_db w)\<close>] have "G (w_db w) (w_db w')" "Q a (w_db w')" by auto
  then show "G (w_db w) (w_db (snd (map_prod Ret id (f e w)))) \<and>
      (\<exists>K'. stable G K' \<and> K' (w_db (snd (map_prod Ret id (f e w)))) \<and>
        rg e G (fst (map_prod Ret id (f e w))) K' Q)"
    using assms(2) f by (auto intro!: exI [of _ "Q a"])
qed

lemma rg_guarantees:
  assumes "guarantees R p" "\<And>d d'. R d d' \<Longrightarrow> K d \<Longrightarrow> G d d'" "stable G K"
  shows "rg e G p K (\<lambda>_. K)"
  using assms(1)
proof (induction p)
  case (Step f)
  show ?case
    unfolding rg_Step
  proof (intro allI impI)
    fix w :: world
    assume K: "K (w_db w)"
    obtain q w' where f: "f e w = (q, w')" by force
    then have "R (w_db w) (w_db w')" "guarantees R q" using guarantees_StepD [OF Step.prems f] by auto
    moreover have "rg e G q K (\<lambda>_. K)"
      using Step.IH [OF rangeI rangeI, of q e w] \<open>guarantees R q\<close> f by (simp add: fsts.simps)
    ultimately show "G (w_db w) (w_db (snd (f e w))) \<and>
        (\<exists>K'. stable G K' \<and> K' (w_db (snd (f e w))) \<and> rg e G (fst (f e w)) K' (\<lambda>_. K))"
      using f K assms(2,3) by (auto intro!: exI [of _ K] dest: stableD)
  qed
qed auto

text \<open>A statement, committed or not, whose answer may be lost.\<close>

lemma rg_statement:
  assumes refl: "\<And>d. G d d"
    and stmt: "\<And>n d r d'. K d \<Longrightarrow> st e n d = Inr (r, d') \<Longrightarrow> G d d' \<and> Q (Inr r) d'"
    and err: "\<And>err d. K d \<Longrightarrow> Q (Inl err) d"
    and st: "stable G K" and post: "\<And>a. stable G (Q a)"
  shows "rg e G (sql st) K Q"
  unfolding sql_def
proof (rule rg_atomic [OF _ post])
  fix w a w'
  assume K: "K (w_db w)"
    and run: "(let res = st e (w_ticks w) (w_db w)
         in case fault e (w_ticks w) of
              NoFault \<Rightarrow> (answer res, commit w res)
            | LostRequest \<Rightarrow> (Inl (EDriver ''bad connection''), tick w)
            | LostReply \<Rightarrow> (Inl (EDriver ''bad connection''), commit w res)) = (a, w')"
  show "G (w_db w) (w_db w') \<and> Q a (w_db w')"
  proof (cases "st e (w_ticks w) (w_db w)")
    case (Inl err)
    with run K show ?thesis
      by (auto simp: Let_def run_simps refl err split: fault.splits)
  next
    case (Inr x)
    obtain r d' where x: "x = (r, d')" by force
    have "G (w_db w) d'" "Q (Inr r) d'" using stmt [OF K, of _ r d'] Inr x by auto
    moreover have "K d'" using stableD [OF st K] \<open>G (w_db w) d'\<close> .
    ultimately show ?thesis
      using run K Inr x by (auto simp: Let_def run_simps refl err split: fault.splits)
  qed
qed

section \<open>Concurrent requests\<close>

text \<open>Every request keeps the common guarantee, starting from the common stable facts.\<close>

locale rely_guarantee_system =
  fixes e :: env and G :: "db \<Rightarrow> db \<Rightarrow> bool" and F :: "db \<Rightarrow> bool" and Req :: "'a prog set"
  assumes G_refl: "G d d"
    and F_stable: "stable G F"
    and requests: "p \<in> Req \<Longrightarrow> rg e G p F (\<lambda>_ _. True)"
begin

definition running :: "world \<Rightarrow> 'a prog \<Rightarrow> bool" where
  "running w p \<longleftrightarrow> (\<exists>K. stable G K \<and> K (w_db w) \<and> rg e G p K (\<lambda>_ _. True))"

lemma running_step: "running w p \<Longrightarrow> G (w_db w) (w_db w') \<Longrightarrow> running w' p"
  by (auto simp: running_def dest: stableD)

lemma running_Panic: "running w (Panic m)"
  by (auto simp: running_def intro!: exI [of _ "\<lambda>_. True"])

lemma reachable_running:
  "reachable e Req w0 s \<Longrightarrow> F (w_db w0) \<Longrightarrow> F (w_db (snd s)) \<and> list_all (running (snd s)) (fst s)"
proof (induction rule: reachable.induct)
  case reach_start
  then show ?case by simp
next
  case (reach_step s s')
  then have IH: "F (w_db (snd s))" "list_all (running (snd s)) (fst s)" by auto
  from reach_step.hyps(2) show ?case
  proof cases
    case (sys_arrive p ps w)
    have "running w p"
      using requests [OF sys_arrive(3)] F_stable IH(1) sys_arrive(1) by (auto simp: running_def)
    then show ?thesis using IH sys_arrive by simp
  next
    case (sys_run i ps f w q w')
    from IH(2) sys_run have "running w (Step f)" by (auto simp: list_all_length)
    then obtain K where K: "stable G K" "K (w_db w)" "rg e G (Step f) K (\<lambda>_ _. True)"
      by (auto simp: running_def)
    have g: "G (w_db w) (w_db w')" and "running w' q"
      using rg_StepD [OF K(3) sys_run(5) K(2)] by (auto simp: running_def)
    moreover have "list_all (running w') ps"
      using IH(2) sys_run(1) running_step [OF _ g] by (auto simp: list_all_iff)
    ultimately have "list_all (running w') (ps[i := q])"
      using set_update_subset_insert [of ps i q] by (auto simp: list_all_iff)
    then show ?thesis using IH(1) sys_run(1,2) stableD [OF F_stable _ g] by simp
  next
    case (sys_crash i ps w)
    have "list_all (running w) (ps[i := Panic ''crash''])"
      using IH(2) sys_crash(1) running_Panic set_update_subset_insert [of ps i "Panic ''crash''"]
      by (auto simp: list_all_iff)
    then show ?thesis using IH(1) sys_crash(1,2) by simp
  qed
qed

lemma step_related:
  assumes "reachable e Req w0 s" "F (w_db w0)" "sys_step e Req s s'"
  shows "G (w_db (snd s)) (w_db (snd s'))"
  using assms(3)
proof cases
  case (sys_run i ps f w q w')
  have "running w (Step f)"
    using reachable_running [OF assms(1,2)] sys_run by (auto simp: list_all_length)
  then show ?thesis using rg_StepD(1) sys_run by (auto simp: running_def)
qed (simp_all add: G_refl)

text \<open>A fact that is stable under the guarantee holds for ever once it holds at the start.\<close>

lemma reachable_stable:
  assumes "stable G I" "F (w_db w0)" "I (w_db w0)"
  shows "reachable e Req w0 s \<Longrightarrow> I (w_db (snd s))"
proof (induction rule: reachable.induct)
  case (reach_step s s')
  then show ?case using step_related [OF reach_step.hyps(1) assms(2)] assms(1) stableD by blast
qed (simp add: assms)

end

end
