(* ===== verification/Orchestrator.thy ===== *)
theory Orchestrator
  imports Funding RelyGuarantee
begin

text \<open>
  \<open>internal/orchestrator\<close> (\<open>transition.go\<close>, \<open>flag.go\<close>, \<open>updates.go\<close>, \<open>events.go\<close>, \<open>flow.go\<close>) and
  \<open>internal/vendorclient/http.go\<close>: the validated transition, and the flow that drives a deposit from
  Requested to FundsPosted, Analyzing or Rejected. The injected dependencies are the fields of
  \<open>Deps\<close>; \<open>orchDeps\<close> is the wiring of \<open>cmd/api/main.go\<close>.
\<close>

section \<open>Vendor client\<close>

fun json_number_ok :: "float64 \<Rightarrow> bool" where
  "json_number_ok (Fin x) = True"
| "json_number_ok _ = False"

text \<open>\<open>HTTPVendorClient.Validate\<close>: marshalling fails on NaN and infinities, every status but 200 is an
  error.\<close>

definition Validate :: "ValidateRequest \<Rightarrow> (go_error + ValidateResponse) prog" where
  "Validate req =
     (if \<not> json_number_ok (vq_Amount req)
      then Ret (Inl (EWrap ''vendorclient: marshal request'' (EMsg ''json: unsupported value'')))
      else bind (http_call (\<lambda>e n. vendor e n req)) (\<lambda>reply. Ret (case reply of
          HttpFail err \<Rightarrow> Inl (EWrap ''vendorclient: send request'' err)
        | HttpReply status body \<Rightarrow>
            if status \<noteq> 200 then Inl (EMsg ''vendorclient: unexpected status'')
            else (case body of
                    None \<Rightarrow> Inl (EWrap ''vendorclient: decode response'' (EMsg ''invalid JSON''))
                  | Some result \<Rightarrow> Inr result))))"

section \<open>Dependencies\<close>

type_synonym event_writer = "string \<Rightarrow> string \<Rightarrow> string \<Rightarrow> json \<Rightarrow> go_error option prog"
type_synonym notifier = "string \<Rightarrow> json \<Rightarrow> go_error option prog"

text \<open>\<open>TransferFieldUpdater\<close>: the setters that an updater may or may not have (\<open>updates.go\<close> asks by a
  type assertion).\<close>

record FieldUpdater =
  fu_SetErrorCode :: "string \<Rightarrow> string \<Rightarrow> go_error option prog"
  fu_SetReviewReason :: "string \<Rightarrow> string \<Rightarrow> go_error option prog"
  fu_SetContributionType :: "string \<Rightarrow> string \<Rightarrow> go_error option prog"
  fu_SetVSSResults :: "string \<Rightarrow> string \<Rightarrow> float64 \<Rightarrow> MICRData option \<Rightarrow> go_error option prog"

record Updater =
  up_UpdateState :: "string \<Rightarrow> TransferState \<Rightarrow> TransferState \<Rightarrow> go_error option prog"
  up_Fields :: "FieldUpdater option"

record LedgerService =
  ls_PostDoubleEntry :: "uuid \<Rightarrow> uuid \<Rightarrow> string \<Rightarrow> string \<Rightarrow> uuid \<Rightarrow> go_error option prog"
  ls_GetBalance :: "uuid \<Rightarrow> (go_error + string) prog"
  ls_GetEntries :: "uuid \<Rightarrow> (go_error + LedgerEntry list) prog"
  ls_Reconcile :: "(go_error + string) prog"

record Deps =
  dp_Updater :: Updater
  dp_Events :: event_writer
  dp_Notifier :: "notifier option"
  dp_VSS :: "ValidateRequest \<Rightarrow> (go_error + ValidateResponse) prog"
  dp_Funding :: "EvaluateRequest \<Rightarrow> (go_error + FundingDecision) prog"
  dp_Ledger :: LedgerService

text \<open>\<open>cmd/api/main.go\<close>: one \<open>TransferStore\<close> is updater, event writer and notifier.\<close>

definition transferStore :: Updater where
  "transferStore = \<lparr>up_UpdateState = UpdateState, up_Fields = Some
     \<lparr>fu_SetErrorCode = SetErrorCode, fu_SetReviewReason = SetReviewReason,
      fu_SetContributionType = SetContributionType, fu_SetVSSResults = SetVSSResults\<rparr>\<rparr>"

definition ledgerService :: LedgerService where
  "ledgerService = \<lparr>ls_PostDoubleEntry = PostDoubleEntry, ls_GetBalance = GetBalance,
     ls_GetEntries = GetEntries, ls_Reconcile = Reconcile\<rparr>"

definition fundingEngine :: Engine where
  "fundingEngine = NewEngine GetOmnibusForCorrespondent"

definition orchDeps :: Deps where
  "orchDeps = \<lparr>dp_Updater = transferStore, dp_Events = WriteEvent, dp_Notifier = Some Notify,
     dp_VSS = Validate, dp_Funding = Evaluate fundingEngine, dp_Ledger = ledgerService\<rparr>"

lemma orchDeps_simps [simp]:
  "dp_Updater orchDeps = transferStore" "dp_Events orchDeps = WriteEvent"
  "dp_Notifier orchDeps = Some Notify" "dp_VSS orchDeps = Validate"
  "dp_Funding orchDeps = Evaluate fundingEngine" "dp_Ledger orchDeps = ledgerService"
  "ls_PostDoubleEntry ledgerService = PostDoubleEntry" "ls_GetBalance ledgerService = GetBalance"
  "ls_GetEntries ledgerService = GetEntries" "ls_Reconcile ledgerService = Reconcile"
  "up_UpdateState transferStore = UpdateState"
  by (simp_all add: orchDeps_def transferStore_def ledgerService_def)

section \<open>Transitions\<close>

definition writeStateChangedEvent ::
  "event_writer \<Rightarrow> string \<Rightarrow> TransferState \<Rightarrow> TransferState \<Rightarrow> go_error option prog" where
  "writeStateChangedEvent events i from to =
     events i ''state_changed'' ''system''
       [(''from_state'', JStr (state_text from)), (''to_state'', JStr (state_text to)),
        (''trigger'', JStr ''orchestrator'')]"

text \<open>A best-effort call: \<open>_ = f(...)\<close>.\<close>

definition ignoring :: "'e prog \<Rightarrow> 'b prog \<Rightarrow> 'b prog" where
  "ignoring p q = bind p (\<lambda>_. q)"

definition notify_best_effort :: "notifier option \<Rightarrow> string \<Rightarrow> json \<Rightarrow> 'b prog \<Rightarrow> 'b prog" where
  "notify_best_effort nf i payload q =
     (case nf of None \<Rightarrow> q | Some notify \<Rightarrow> ignoring (notify i payload) q)"

definition Transition ::
  "Updater \<Rightarrow> event_writer \<Rightarrow> notifier option \<Rightarrow> string \<Rightarrow> TransferState \<Rightarrow> TransferState
     \<Rightarrow> go_error option prog" where
  "Transition updater events nf i from to =
     (if \<not> isValidTransition from to then Ret (Some (ErrInvalidTransition from to))
      else bind (up_UpdateState updater i from to) (\<lambda>err.
        case err of
          Some er \<Rightarrow> Ret (Some (EWrap (''UpdateState '' @ state_text from @ arrow @ state_text to) er))
        | None \<Rightarrow>
            bind (writeStateChangedEvent events i from to) (\<lambda>err.
            case err of
              Some er \<Rightarrow> Ret (Some (EWrap (''WriteEvent state_changed '' @ state_text from @ arrow @ state_text to) er))
            | None \<Rightarrow>
                notify_best_effort nf i
                  [(''transfer_id'', JStr i), (''from_state'', JStr (state_text from)),
                   (''to_state'', JStr (state_text to))]
                  (Ret None))))"

definition FlagForReview ::
  "(string \<Rightarrow> string \<Rightarrow> go_error option prog) \<Rightarrow> event_writer \<Rightarrow> notifier option \<Rightarrow> string \<Rightarrow> string
     \<Rightarrow> go_error option prog" where
  "FlagForReview setter events nf i reason =
     bind (setter i reason) (\<lambda>err. case err of
       Some er \<Rightarrow> Ret (Some (EWrap ''FlagForReview SetReviewReason'' er))
     | None \<Rightarrow>
         bind (events i ''flagged'' ''system'' [(''review_reason'', JStr reason)]) (\<lambda>err. case err of
           Some er \<Rightarrow> Ret (Some (EWrap ''FlagForReview WriteEvent'' er))
         | None \<Rightarrow>
             notify_best_effort nf i [(''transfer_id'', JStr i), (''review_reason'', JStr reason)] (Ret None)))"

section \<open>Setters behind the type assertion\<close>

definition if_fields :: "Updater \<Rightarrow> (FieldUpdater \<Rightarrow> go_error option prog) \<Rightarrow> go_error option prog" where
  "if_fields updater f = (case up_Fields updater of None \<Rightarrow> Ret None | Some u \<Rightarrow> f u)"

definition setErrorCode :: "Updater \<Rightarrow> string \<Rightarrow> string \<Rightarrow> go_error option prog" where
  "setErrorCode updater i code = if_fields updater (\<lambda>u. fu_SetErrorCode u i code)"

definition setReviewReason :: "Updater \<Rightarrow> string \<Rightarrow> string \<Rightarrow> go_error option prog" where
  "setReviewReason updater i reason = if_fields updater (\<lambda>u. fu_SetReviewReason u i reason)"

definition setContributionType :: "Updater \<Rightarrow> string \<Rightarrow> string \<Rightarrow> go_error option prog" where
  "setContributionType updater i ct = if_fields updater (\<lambda>u. fu_SetContributionType u i ct)"

definition updateTransferVSSResults :: "Updater \<Rightarrow> string \<Rightarrow> ValidateResponse \<Rightarrow> go_error option prog" where
  "updateTransferVSSResults updater i resp =
     if_fields updater (\<lambda>u. fu_SetVSSResults u i (TransactionID resp) (ConfidenceScore resp) (vs_MICRData resp))"

section \<open>The deposit flow\<close>

record TransferDetail =
  td_TransferID :: string
  td_AccountID :: uuid
  td_CorrespondentID :: uuid
  td_Amount :: float64
  td_AccountType :: string
  td_AccountStatus :: string
  td_ContributionType :: string
  td_RulesConfig :: RulesConfig
  td_FrontImageRef :: string
  td_BackImageRef :: string
  td_Scenario :: string

text \<open>The event of the Vendor Service's answer; \<open>micr_data\<close> is the JSON text of the object.\<close>

definition micr_json :: "MICRData \<Rightarrow> jval" where
  "micr_json m =
     JText [(''routing'', JStr (Routing m)), (''account'', JStr (Account m)),
       (''check_number'', JStr (CheckNumber m))]"

definition vss_event :: "ValidateResponse \<Rightarrow> json" where
  "vss_event resp =
     [(''iqa_status'', JStr (IQAStatus resp)), (''confidence_score'', JNum (ConfidenceScore resp)),
      (''duplicate_flag'', JBool (DuplicateFlag resp)), (''transaction_id'', JStr (TransactionID resp))]
     @ (case IQAErrorType resp of None \<Rightarrow> [] | Some t \<Rightarrow> [(''iqa_error_type'', JStr t)])
     @ (case vs_MICRData resp of None \<Rightarrow> [] | Some m \<Rightarrow> [(''micr_data'', micr_json m)])"

definition iqa_error_code :: "string option \<Rightarrow> string" where
  "iqa_error_code t =
     (case t of
        None \<Rightarrow> ErrCodeVSSIQABlur
      | Some s \<Rightarrow>
          if s = ''glare'' \<or> s = ErrCodeVSSIQAGlare then ErrCodeVSSIQAGlare
          else if s = ''blur'' \<or> s = ErrCodeVSSIQABlur then ErrCodeVSSIQABlur
          else ErrCodeVSSIQABlur)"

text \<open>The two assignments to \<open>reviewReason\<close> in order: the second overwrites the first.\<close>

definition vss_review_reason :: "ValidateResponse \<Rightarrow> float64 \<Rightarrow> string" where
  "vss_review_reason resp amount =
     (let r1 = (case vs_MICRData resp of
                  None \<Rightarrow> ''VSS_MICR_READ_FAIL''
                | Some m \<Rightarrow> if IQAStatus resp = ''pass'' \<and> Routing m = '''' then ''VSS_MICR_READ_FAIL'' else '''')
      in if \<not> f_eq (OCRAmount resp) amount then ''VSS_AMOUNT_MISMATCH'' else r1)"

definition setErrorAndReject :: "Deps \<Rightarrow> string \<Rightarrow> TransferState \<Rightarrow> string \<Rightarrow> go_error option prog" where
  "setErrorAndReject d i from code =
     ignoring (setErrorCode (dp_Updater d) i code)
       (Transition (dp_Updater d) (dp_Events d) (dp_Notifier d) i from Rejected)"

text \<open>The end of a rejecting branch.\<close>

definition reject_with ::
  "Deps \<Rightarrow> string \<Rightarrow> TransferState \<Rightarrow> string \<Rightarrow> (TransferState \<times> go_error option) prog" where
  "reject_with d i from code =
     bind (setErrorAndReject d i from code) (\<lambda>err. Ret (case err of
         Some er \<Rightarrow> (from, Some er) | None \<Rightarrow> (Rejected, None)))"

definition wrap_transition :: "TransferState \<Rightarrow> TransferState \<Rightarrow> go_error \<Rightarrow> go_error" where
  "wrap_transition from to = EWrap (''transition '' @ state_text from @ arrow @ state_text to)"

text \<open>The flow, cut where its comments number it; each part returns the final state and the error.\<close>

definition finish_posting :: "Deps \<Rightarrow> string \<Rightarrow> (TransferState \<times> go_error option) prog" where
  "finish_posting d i =
     bind (Transition (dp_Updater d) (dp_Events d) (dp_Notifier d) i Approved FundsPosted) (\<lambda>err.
       Ret (case err of
           Some er \<Rightarrow> (Approved, Some (wrap_transition Approved FundsPosted er))
         | None \<Rightarrow> (FundsPosted, None)))"

definition post_ledger ::
  "Deps \<Rightarrow> TransferDetail \<Rightarrow> uuid \<Rightarrow> (TransferState \<times> go_error option) prog" where
  "post_ledger d td omnibusID =
     (let i = td_TransferID td in
      bind (MustParse i) (\<lambda>transferUUID.
      bind (ls_PostDoubleEntry (dp_Ledger d) omnibusID (td_AccountID td) (fmt2 (td_Amount td)) ''FREE''
              transferUUID) (\<lambda>err. case err of
        Some er \<Rightarrow> Ret (Approved, Some (EWrap ''ledger post'' er))
      | None \<Rightarrow>
          ignoring (dp_Events d i ''ledger_posted'' ''system''
              [(''debit_account'', JStr omnibusID), (''credit_account'', JStr (td_AccountID td)),
               (''amount'', JNum (td_Amount td))])
          (finish_posting d i))))"

definition post_funds ::
  "Deps \<Rightarrow> TransferDetail \<Rightarrow> FundingDecision \<Rightarrow> (TransferState \<times> go_error option) prog" where
  "post_funds d td fs =
     (let i = td_TransferID td in
      bind (Transition (dp_Updater d) (dp_Events d) (dp_Notifier d) i Analyzing Approved) (\<lambda>err. case err of
        Some er \<Rightarrow> Ret (Analyzing, Some (wrap_transition Analyzing Approved er))
      | None \<Rightarrow>
          ignoring (if fd_ContributionType fs \<noteq> ''''
                    then setContributionType (dp_Updater d) i (fd_ContributionType fs) else Ret None)
          (post_ledger d td (fd_ResolvedOmnibusID fs))))"

definition evaluate_funding ::
  "Deps \<Rightarrow> TransferDetail \<Rightarrow> ValidateResponse \<Rightarrow> (TransferState \<times> go_error option) prog" where
  "evaluate_funding d td resp =
     (let i = td_TransferID td; reviewReason = vss_review_reason resp (td_Amount td) in
      ignoring (dp_Events d i ''fs_evaluated'' ''funding_service''
          [(''account_id'', JStr (td_AccountID td)), (''amount'', JNum (td_Amount td))])
      (bind (MustParse i) (\<lambda>transferUUID.
       bind (dp_Funding d \<lparr>rq_TransferID = transferUUID, rq_AccountID = td_AccountID td,
               rq_CorrespondentID = td_CorrespondentID td, rq_Amount = td_Amount td,
               rq_AccountType = td_AccountType td, rq_AccountStatus = td_AccountStatus td,
               rq_ContributionType = td_ContributionType td, rq_RulesConfig = td_RulesConfig td,
               rq_VSSResult = None\<rparr>) (\<lambda>dec. case dec of
         Inl er \<Rightarrow> Ret (Analyzing, Some (EWrap ''Funding Service evaluate'' er))
       | Inr fs \<Rightarrow>
           ignoring (dp_Events d i ''fs_evaluated'' ''funding_service''
               [(''decision'', JStr (decision_text (fd_Decision fs))),
                (''reason_code'', JStr (fd_ReasonCode fs))])
           (if fd_Decision fs = DecisionReject then reject_with d i Analyzing (fd_ReasonCode fs)
            else if fd_Decision fs = DecisionFlagForReview \<or> reviewReason \<noteq> '''' then
              (let reason = (if fd_ReasonCode fs \<noteq> '''' then fd_ReasonCode fs else reviewReason) in
               ignoring (dp_Events d i ''flagged'' ''system'' [(''review_reason'', JStr reason)])
               (ignoring (setReviewReason (dp_Updater d) i reason)
                (Ret (Analyzing, None))))
            else post_funds d td fs)))))"

definition after_vss ::
  "Deps \<Rightarrow> TransferDetail \<Rightarrow> ValidateResponse \<Rightarrow> (TransferState \<times> go_error option) prog" where
  "after_vss d td resp =
     (let i = td_TransferID td in
      ignoring (dp_Events d i ''vss_result'' ''vss'' (vss_event resp))
      (ignoring (updateTransferVSSResults (dp_Updater d) i resp)
       (if IQAStatus resp = ''fail'' then reject_with d i Validating (iqa_error_code (IQAErrorType resp))
        else if DuplicateFlag resp then reject_with d i Validating ErrCodeVSSDuplicateDetected
        else bind (Transition (dp_Updater d) (dp_Events d) (dp_Notifier d) i Validating Analyzing) (\<lambda>err.
          case err of
            Some er \<Rightarrow> Ret (Validating, Some (wrap_transition Validating Analyzing er))
          | None \<Rightarrow> evaluate_funding d td resp))))"

definition ProcessDeposit :: "Deps \<Rightarrow> TransferDetail \<Rightarrow> (TransferState \<times> go_error option) prog" where
  "ProcessDeposit d td =
     (let i = td_TransferID td in
      bind (Transition (dp_Updater d) (dp_Events d) (dp_Notifier d) i Requested Validating) (\<lambda>err.
      case err of
        Some er \<Rightarrow> Ret (Requested, Some (wrap_transition Requested Validating er))
      | None \<Rightarrow>
          ignoring (dp_Events d i ''vss_called'' ''system''
              [(''account_id'', JStr (td_AccountID td)), (''amount'', JNum (td_Amount td))])
          (bind (dp_VSS d \<lparr>vq_AccountID = td_AccountID td, vq_Amount = td_Amount td,
                   vq_FrontImage = td_FrontImageRef td, vq_BackImage = td_BackImageRef td,
                   vq_Scenario = td_Scenario td\<rparr>) (\<lambda>vss. case vss of
             Inl er \<Rightarrow> Ret (Validating, Some (EWrap ''VSS validate'' er))
           | Inr resp \<Rightarrow> after_vss d td resp))))"

end
