(* ===== verification/Outcomes.thy ===== *)
theory Outcomes
  imports Orchestrator
begin

text \<open>
  Running alone and without faults: \<open>returns p e w Q\<close> says that \<open>p\<close> returns (no panic) and that \<open>Q\<close> holds of
  its result and final world. \<open>flow\<close> is the assertion carried through the flows: which state the
  transfer has reached, with which codes, and what the ledger gained, everything else of the transfers,
  accounts and correspondents being as at the start.
\<close>

section \<open>Total correctness\<close>

definition returns :: "'a prog \<Rightarrow> env \<Rightarrow> world \<Rightarrow> ('a \<Rightarrow> world \<Rightarrow> bool) \<Rightarrow> bool" where
  "returns p e w Q = (case run p e w of (Done a, w') \<Rightarrow> Q a w' | (Panicked m, w') \<Rightarrow> False)"

lemma returns_Ret [simp]: "returns (Ret a) e w Q \<longleftrightarrow> Q a w"
  by (simp add: returns_def)

lemma returns_bind: "returns (bind p k) e w Q \<longleftrightarrow> returns p e w (\<lambda>a w'. returns (k a) e w' Q)"
  by (simp add: returns_def run_bind split: prod.splits outcome.splits)

lemma returns_mono: "returns p e w Q \<Longrightarrow> (\<And>a w'. Q a w' \<Longrightarrow> Q' a w') \<Longrightarrow> returns p e w Q'"
  by (simp add: returns_def split: prod.splits outcome.splits)

lemma returns_bindI:
  "returns p e w M \<Longrightarrow> (\<And>a w'. M a w' \<Longrightarrow> returns (k a) e w' Q) \<Longrightarrow> returns (bind p k) e w Q"
  unfolding returns_bind by (rule returns_mono)

lemma returns_ignoringI:
  "returns p e w (\<lambda>_. M) \<Longrightarrow> (\<And>w'. M w' \<Longrightarrow> returns q e w' Q) \<Longrightarrow> returns (ignoring p q) e w Q"
  unfolding ignoring_def by (rule returns_bindI)

lemma ignoring_Ret [simp]: "ignoring (Ret a) q = q"
  by (simp add: ignoring_def)

lemma returns_conj:
  "returns p e w Q \<Longrightarrow> returns p e w Q' \<Longrightarrow> returns p e w (\<lambda>a w'. Q a w' \<and> Q' a w')"
  by (simp add: returns_def split: prod.splits outcome.splits)

lemma returns_exec_sql:
  "fault_free e \<Longrightarrow>
   returns (exec_sql st) e w Q \<longleftrightarrow>
     Q (error_of (answer (st e (w_ticks w) (w_db w)))) (commit w (st e (w_ticks w) (w_db w)))"
  by (simp add: returns_def run_exec_sql)

lemma returns_sql:
  "fault_free e \<Longrightarrow>
   returns (sql st) e w Q \<longleftrightarrow>
     Q (answer (st e (w_ticks w) (w_db w))) (commit w (st e (w_ticks w) (w_db w)))"
  by (simp add: returns_def run_sql)

section \<open>The assertion of the flows\<close>

definition flow ::
  "uuid \<Rightarrow> TransferState \<Rightarrow> string option \<Rightarrow> string option \<Rightarrow> ledger_row list \<Rightarrow> db \<Rightarrow> db \<Rightarrow> bool" where
  "flow i s ec rr new d0 d \<longleftrightarrow>
     (\<exists>r0 r. transfer_of d0 i = Some r0 \<and> transfer_of d i = Some r \<and> same_identity r0 r \<and>
        t_state r = s \<and> t_error_code r = ec \<and> t_review_reason r = rr) \<and>
     (\<forall>j. j \<noteq> i \<longrightarrow> transfer_of d j = transfer_of d0 j) \<and>
     ledger_entries d = ledger_entries d0 @ new \<and> accounts d = accounts d0 \<and>
     correspondents d = correspondents d0"

lemma flow_start:
  "transfer_of d i = Some r \<Longrightarrow> flow i (t_state r) (t_error_code r) (t_review_reason r) [] d d"
  by (simp add: flow_def)

lemma flowE:
  assumes "flow i s ec rr new d0 d"
  obtains r where "transfer_of d i = Some r" "t_state r = s" "t_error_code r = ec" "t_review_reason r = rr"
    "accounts d = accounts d0" "correspondents d = correspondents d0"
    "ledger_entries d = ledger_entries d0 @ new"
  using assms by (auto simp: flow_def)

lemma flow_other_tables [simp]:
  "flow i s ec rr new d0 (d\<lparr>transfer_events := x\<rparr>) = flow i s ec rr new d0 d"
  "flow i s ec rr new d0 (d\<lparr>db_notices := y\<rparr>) = flow i s ec rr new d0 d"
  "flow i s ec rr new d0 (d\<lparr>notifications := z\<rparr>) = flow i s ec rr new d0 d"
  by (simp_all add: flow_def)

lemma flow_ledger_more:
  assumes "flow i s ec rr old d0 d"
  shows "flow i s ec rr (old @ new) d0 (d\<lparr>ledger_entries := ledger_entries d @ new\<rparr>)"
  using assms by (simp add: flow_def)

lemmas flow_ledger = flow_ledger_more [where old = "[]", simplified]

lemma flow_upd_transfer:
  assumes "flow i s ec rr new d0 d"
    and "\<And>r. same_identity r (f r)"
    and "\<And>r. t_state r = s \<Longrightarrow> t_state (f r) = s'"
    and "\<And>r. t_error_code r = ec \<Longrightarrow> t_error_code (f r) = ec'"
    and "\<And>r. t_review_reason r = rr \<Longrightarrow> t_review_reason (f r) = rr'"
  shows "flow i s' ec' rr' new d0 (upd_transfer i f d)"
proof -
  have id: "t_id (f r) = t_id r" for r using assms(2) [of r] by (simp add: same_identity_def)
  have trans: "same_identity r0 r \<Longrightarrow> same_identity r0 (f r)" for r0 r
    using assms(2) [of r] by (auto simp: same_identity_def)
  show ?thesis
    using assms(1,3,4,5) trans by (auto simp: flow_def transfer_of_upd_transfer id)
qed

section \<open>The store operations\<close>

lemma flow_WriteEvent:
  "fault_free e \<Longrightarrow> canonical e i \<Longrightarrow> flow i s ec rr new d0 (w_db w) \<Longrightarrow>
   returns (WriteEvent i step actor payload) e w
     (\<lambda>err w'. (marshal_ok payload \<longrightarrow> err = None) \<and> flow i s ec rr new d0 (w_db w'))"
  by (auto simp: WriteEvent_def returns_exec_sql WriteEvent_stmt_def run_simps) (auto elim: flowE)

lemma flow_Notify:
  "fault_free e \<Longrightarrow> flow i s ec rr new d0 (w_db w) \<Longrightarrow>
   returns (Notify j payload) e w (\<lambda>_ w'. flow i s ec rr new d0 (w_db w'))"
  by (auto simp: Notify_def returns_exec_sql Notify_stmt_def run_simps)

lemma flow_UpdateState:
  assumes "fault_free e" "canonical e i" "flow i from ec rr new d0 (w_db w)"
  shows "returns (UpdateState i from to) e w (\<lambda>err w'. err = None \<and> flow i to ec rr new d0 (w_db w'))"
proof -
  obtain r where "transfer_of (w_db w) i = Some r" "t_state r = from"
    using assms(3) by (auto elim: flowE)
  moreover have "flow i to ec rr new d0
      (upd_transfer i (\<lambda>r. r\<lparr>t_state := to, t_updated_at := clock e (w_ticks w)\<rparr>) (w_db w))"
    using assms(3) by (rule flow_upd_transfer) (simp_all add: same_identity_def)
  ultimately show ?thesis by (simp add: returns_def run_UpdateState assms(1,2))
qed

lemma flow_Transition:
  assumes "fault_free e" "canonical e i" "flow i from ec rr new d0 (w_db w)" "isValidTransition from to"
  shows "returns (Transition transferStore WriteEvent (Some Notify) i from to) e w
           (\<lambda>err w'. err = None \<and> flow i to ec rr new d0 (w_db w'))"
  unfolding Transition_def transferStore_def
  by (auto simp: assms(4) writeStateChangedEvent_def notify_best_effort_def
      intro!: returns_bindI [OF flow_UpdateState [OF assms(1-3)]]
        returns_bindI [OF flow_WriteEvent [OF assms(1,2)]] returns_ignoringI [OF flow_Notify [OF assms(1)]])

lemma flow_set_transfer:
  assumes "fault_free e" "canonical e i" "flow i s ec rr new d0 (w_db w)"
    and "\<And>r. same_identity r (f r)" "\<And>r. t_state (f r) = t_state r"
    and "\<And>r. t_error_code r = ec \<Longrightarrow> t_error_code (f r) = ec'"
    and "\<And>r. t_review_reason r = rr \<Longrightarrow> t_review_reason (f r) = rr'"
  shows "returns (exec_sql (set_transfer_stmt i f)) e w
           (\<lambda>err w'. err = None \<and> flow i s ec' rr' new d0 (w_db w'))"
proof -
  have "flow i s ec' rr' new d0 (upd_transfer i (\<lambda>r. (f r)\<lparr>t_updated_at := c\<rparr>) (w_db w))" for c
    using assms(4,5) by (intro flow_upd_transfer [OF assms(3)]) (simp_all add: same_identity_def assms)
  then show ?thesis by (simp add: returns_def run_set_transfer assms(1,2))
qed

lemma flow_setErrorCode:
  "fault_free e \<Longrightarrow> canonical e i \<Longrightarrow> flow i s ec rr new d0 (w_db w) \<Longrightarrow>
   returns (setErrorCode transferStore i code) e w (\<lambda>_ w'. flow i s (Some code) rr new d0 (w_db w'))"
  unfolding setErrorCode_def if_fields_def transferStore_def
  by (simp add: SetErrorCode_def)
     (rule returns_mono [OF flow_set_transfer]; simp add: same_identity_def)

lemma flow_setReviewReason:
  "fault_free e \<Longrightarrow> canonical e i \<Longrightarrow> flow i s ec rr new d0 (w_db w) \<Longrightarrow>
   returns (setReviewReason transferStore i reason) e w (\<lambda>_ w'. flow i s ec (Some reason) new d0 (w_db w'))"
  unfolding setReviewReason_def if_fields_def transferStore_def
  by (simp add: SetReviewReason_def)
     (rule returns_mono [OF flow_set_transfer]; simp add: same_identity_def)

lemma flow_setContributionType:
  "fault_free e \<Longrightarrow> canonical e i \<Longrightarrow> flow i s ec rr new d0 (w_db w) \<Longrightarrow>
   returns (setContributionType transferStore i ct) e w (\<lambda>_ w'. flow i s ec rr new d0 (w_db w'))"
  unfolding setContributionType_def if_fields_def transferStore_def
  by (simp add: SetContributionType_def)
     (rule returns_mono [OF flow_set_transfer]; simp add: same_identity_def)

lemma flow_updateTransferVSSResults:
  assumes "fault_free e" "canonical e i" "flow i s ec rr new d0 (w_db w)"
  shows "returns (updateTransferVSSResults transferStore i resp) e w (\<lambda>_ w'. flow i s ec rr new d0 (w_db w'))"
proof -
  have "flow i s ec rr new d0 (upd_transfer i (\<lambda>r. r\<lparr>t_vendor_transaction_id := a, t_confidence_score := b,
      t_micr_data := m, t_updated_at := c\<rparr>) (w_db w))" for a b m c
    by (rule flow_upd_transfer [OF assms(3)]) (simp_all add: same_identity_def)
  then show ?thesis
    using assms
    by (auto simp: updateTransferVSSResults_def if_fields_def transferStore_def SetVSSResults_def
        returns_exec_sql SetVSSResults_stmt_def set_transfer_stmt_def run_simps split: option.splits)
qed

section \<open>The same, one step before the rest of a program\<close>

lemma event_then:
  assumes "fault_free e" "canonical e i" "flow i s ec rr new d0 (w_db w)"
    and "\<And>w'. flow i s ec rr new d0 (w_db w') \<Longrightarrow> returns q e w' Q"
  shows "returns (ignoring (WriteEvent i step actor payload) q) e w Q"
  by (rule returns_ignoringI [OF returns_mono [OF flow_WriteEvent [OF assms(1-3)]]])
     (auto intro: assms(4))

lemma transition_then:
  assumes "fault_free e" "canonical e i" "flow i from ec rr new d0 (w_db w)" "isValidTransition from to"
    and "\<And>w'. flow i to ec rr new d0 (w_db w') \<Longrightarrow> returns (k None) e w' Q"
  shows "returns (bind (Transition transferStore WriteEvent (Some Notify) i from to) k) e w Q"
  by (rule returns_bindI [OF flow_Transition [OF assms(1-4)]]) (auto intro: assms(5))

lemma notify_then:
  assumes "fault_free e" "flow i s ec rr new d0 (w_db w)"
    and "\<And>w'. flow i s ec rr new d0 (w_db w') \<Longrightarrow> returns q e w' Q"
  shows "returns (ignoring (Notify j payload) q) e w Q"
  by (rule returns_ignoringI [OF flow_Notify [OF assms(1,2)] assms(3)])

lemma update_then:
  assumes "fault_free e" "canonical e i" "flow i from ec rr new d0 (w_db w)"
    and "\<And>w'. flow i to ec rr new d0 (w_db w') \<Longrightarrow> returns (k None) e w' Q"
  shows "returns (bind (UpdateState i from to) k) e w Q"
  by (rule returns_bindI [OF flow_UpdateState [OF assms(1-3)]]) (auto intro: assms(4))

lemma review_reason_then:
  assumes "fault_free e" "canonical e i" "flow i s ec rr new d0 (w_db w)"
    and "\<And>w'. flow i s ec (Some reason) new d0 (w_db w') \<Longrightarrow> returns q e w' Q"
  shows "returns (ignoring (setReviewReason transferStore i reason) q) e w Q"
  by (rule returns_ignoringI [OF flow_setReviewReason [OF assms(1-3)] assms(4)])

lemma vss_results_then:
  assumes "fault_free e" "canonical e i" "flow i s ec rr new d0 (w_db w)"
    and "\<And>w'. flow i s ec rr new d0 (w_db w') \<Longrightarrow> returns q e w' Q"
  shows "returns (ignoring (updateTransferVSSResults transferStore i resp) q) e w Q"
  by (rule returns_ignoringI [OF flow_updateTransferVSSResults [OF assms(1-3)] assms(4)])

end
