(* ===== verification/DepositFlow.thy ===== *)
theory DepositFlow
  imports Outcomes
begin

text \<open>
  Lemmas on the steps of the deposit flow with the production wiring, and its success: a deposit that
  the Vendor Service passes and the rules accept reaches FundsPosted. Where a deposit ends in every other
  case is in theory \<open>DepositSpec\<close>.
\<close>

section \<open>Posting\<close>

definition posting ::
  "EntryType \<Rightarrow> numeric \<Rightarrow> uuid \<Rightarrow> uuid \<Rightarrow> string \<Rightarrow> uuid \<Rightarrow> ledger_row list \<Rightarrow> bool" where
  "posting et amt dr cr memo i new \<longleftrightarrow>
     (\<exists>x y. new = [x, y] \<and> ledger_pair x y \<and> l_account_id x = dr \<and> l_account_id y = cr \<and>
        l_amount x = amt \<and> l_transfer_id x = i \<and> l_entry_type x = et \<and> l_memo x = memo)"

lemma posting_balance:
  assumes "posting et (Num c) dr cr memo i new" "dr \<noteq> cr"
  shows "balance new a = (if a = dr then - c else if a = cr then c else 0)"
proof -
  obtain x y where xy: "new = [x, y]" "ledger_pair x y" "l_account_id x = dr" "l_account_id y = cr"
    "l_amount x = Num c"
    using assms(1) by (auto simp: posting_def)
  then have "l_amount y = Num c" by (simp add: ledger_pair_def)
  with xy assms(2) show ?thesis by (simp add: ledger_pair_def balance_def signed_cents_def)
qed

lemma posting_pairs: "posting et amt dr cr memo i new \<Longrightarrow> ledger_pairs new"
  by (auto simp: posting_def)

lemma returns_new_uuid: "returns new_uuid e w Q \<longleftrightarrow> Q (fresh_uuid e (w_ticks w)) (tick w)"
  by (simp add: returns_def run_new_uuid)

lemma InsertEntries_double_entry:
  assumes "InsertEntries_stmt (double_entry et m a b dr cr amount memo i) e n d = Inr (u, d')"
  obtains q amt new where "numeric_in amount = Some q" "to_numeric 12 q = Some amt"
    "posting et amt dr cr memo i new" "d' = d\<lparr>ledger_entries := ledger_entries d @ new\<rparr>"
proof -
  define x y where "x = hd (double_entry et m a b dr cr amount memo i)"
    and "y = last (double_entry et m a b dr cr amount memo i)"
  have xy: "double_entry et m a b dr cr amount memo i = [x, y]"
    by (simp add: x_def y_def double_entry_def)
  from assms obtain d1 where 1: "insert_entry e n x d = Inr d1" "insert_entry e n y d1 = Inr d'"
    by (auto simp: xy split: sum.splits)
  then obtain q amt where amt: "numeric_in amount = Some q" "to_numeric 12 q = Some amt"
    and d': "d' = d\<lparr>ledger_entries := ledger_entries d @
      [ledger_row_of e n x amt, ledger_row_of e n y amt]\<rparr>"
    by (auto simp: insert_entry_Inr x_def y_def double_entry_def)
  have "posting et amt dr cr memo i [ledger_row_of e n x amt, ledger_row_of e n y amt]"
    by (auto simp: posting_def ledger_pair_def ledger_row_of_def x_def y_def double_entry_def)
  with amt d' show thesis by (intro that)
qed

lemma returns_PostDoubleEntry:
  assumes "fault_free e" "MemoToEntryType memo = Some et"
  shows "returns (PostDoubleEntry dr cr amount memo i) e w (\<lambda>err w'.
     case err of
       Some er \<Rightarrow> w_db w' = w_db w
     | None \<Rightarrow> \<exists>q amt new. numeric_in amount = Some q \<and> to_numeric 12 q = Some amt \<and>
         posting et amt dr cr memo i new \<and>
         w_db w' = (w_db w)\<lparr>ledger_entries := ledger_entries (w_db w) @ new\<rparr>)"
proof -
  define n where "n = w_ticks w"
  let ?w = "tick (tick (tick w))"
  let ?res = "InsertEntries_stmt (double_entry et (fresh_uuid e n) (fresh_uuid e (Suc n))
      (fresh_uuid e (Suc (Suc n))) dr cr amount memo i) e (w_ticks ?w) (w_db w)"
  have "returns (PostDoubleEntry dr cr amount memo i) e w Q \<longleftrightarrow>
      Q (map_option (EWrap ''ledger: post double entry'') (error_of (answer ?res))) (commit ?w ?res)" for Q
    by (simp add: PostDoubleEntry_def assms(2) returns_bind returns_new_uuid InsertEntries_def
        returns_exec_sql [OF assms(1)] n_def)
  moreover have "\<exists>q amt new. numeric_in amount = Some q \<and> to_numeric 12 q = Some amt \<and>
      posting et amt dr cr memo i new \<and> d' = (w_db w)\<lparr>ledger_entries := ledger_entries (w_db w) @ new\<rparr>"
    if "?res = Inr (u, d')" for u d'
    using that by (rule InsertEntries_double_entry) blast
  ultimately show ?thesis
    by (cases ?res) (auto simp: run_simps)
qed

section \<open>The other services\<close>

lemma flow_Validate:
  "flow i s ec rr new d0 (w_db w) \<Longrightarrow>
   returns (Validate req) e w (\<lambda>_ w'. flow i s ec rr new d0 (w_db w'))"
  by (simp add: Validate_def returns_bind) (simp add: returns_def run_http_call)

lemma returns_Evaluate:
  assumes "fault_free e"
  shows "returns (Evaluate fundingEngine req) e w (\<lambda>dec w'. w_db w' = w_db w \<and>
     (\<forall>fs. dec = Inr fs \<longrightarrow>
        (fd_Decision fs = DecisionApprove \<longrightarrow> eligible req \<and> fd_ReasonCode fs = '''' \<and>
           (\<exists>a \<in> set (accounts (w_db w)). a_id a = fd_ResolvedOmnibusID fs \<and> a_type a = ''OMNIBUS'' \<and>
              a_correspondent_id a = Some (rq_CorrespondentID req))) \<and>
        (fd_Decision fs \<noteq> DecisionApprove \<longrightarrow> fd_ReasonCode fs \<noteq> '''')))"
proof (cases "run_rules (en_rules fundingEngine) req")
  case None
  then have "eligible req" by (simp add: fundingEngine_def run_rules_eligible)
  with None show ?thesis
    by (auto simp: Evaluate_def fundingEngine_def NewEngine_def returns_bind returns_sql [OF assms]
        GetOmnibusForCorrespondent_def run_simps find_Some_iff split: option.splits)
next
  case (Some d)
  then have "fd_Decision d \<noteq> DecisionApprove \<and> fd_ReasonCode d \<noteq> ''''"
    unfolding fundingEngine_def by (rule funding_rules.decision_stops)
  with Some show ?thesis
    by (simp add: Evaluate_def fundingEngine_def NewEngine_def returns_bind)
qed

lemma returns_MustParse:
  "canonical e i \<Longrightarrow> returns (MustParse i) e w Q \<longleftrightarrow> Q i w"
  by (simp add: returns_def run_MustParse canonical_def)

section \<open>The happy path\<close>

text \<open>What makes a deposit succeed: the Vendor Service passes it and reads the submitted amount, the
  funding rules accept it, the accounts exist and the ledger has no entries of this transfer yet.\<close>

text \<open>The request of the flow, and an answer that passes it.\<close>

definition vendor_request :: "TransferDetail \<Rightarrow> ValidateRequest" where
  "vendor_request td = \<lparr>vq_AccountID = td_AccountID td, vq_Amount = td_Amount td,
     vq_FrontImage = td_FrontImageRef td, vq_BackImage = td_BackImageRef td, vq_Scenario = td_Scenario td\<rparr>"

definition clean_pass :: "ValidateResponse \<Rightarrow> float64 \<Rightarrow> bool" where
  "clean_pass resp amount \<longleftrightarrow>
     IQAStatus resp = ''pass'' \<and> \<not> DuplicateFlag resp \<and> f_eq (OCRAmount resp) amount \<and>
     (\<exists>m. vs_MICRData resp = Some m \<and> Routing m \<noteq> '''')"

definition happy :: "env \<Rightarrow> TransferDetail \<Rightarrow> int \<Rightarrow> db \<Rightarrow> bool" where
  "happy e td c d \<longleftrightarrow>
     0 < c \<and> c < 10 ^ 12 \<and> td_Amount td = of_cents c \<and>
     (\<forall>n. \<exists>resp. vendor e n (vendor_request td) = HttpReply 200 (Some resp) \<and> clean_pass resp (td_Amount td)) \<and>
     td_AccountStatus td = ''ACTIVE'' \<and>
     td_AccountType td \<notin> set (IneligibleAccountTypes (td_RulesConfig td)) \<and>
     \<not> f_lt (DepositLimit (td_RulesConfig td)) (td_Amount td) \<and>
     account_of d (td_AccountID td) \<noteq> None \<and>
     (\<exists>a \<in> set (accounts d). a_correspondent_id a = Some (td_CorrespondentID td) \<and> a_type a = ''OMNIBUS'') \<and>
     fresh_window e \<and>
     (\<forall>n. fresh_uuid e n \<notin> l_id ` set (ledger_entries d)) \<and>
     (\<forall>r \<in> set (ledger_entries d). l_transfer_id r \<noteq> td_TransferID td)"

lemma happy_postable:
  assumes "happy e td c d0" "flow (td_TransferID td) s ec rr [] d0 (w_db w)"
    and "a \<in> set (accounts d0)" "a_id a = omni"
  shows "postable e w EntryTypeProvisionalCredit omni (td_AccountID td) c (td_TransferID td)"
proof -
  have "account_of d0 omni \<noteq> None" using assms(3,4) by (auto simp: row_of_None_iff)
  with assms(1,2) show ?thesis
    using fresh_windowD [of e "w_ticks w + 1" "w_ticks w + 2"]
    unfolding happy_def postable_def by (force simp: entry_key_def elim!: flowE)
qed

lemma returns_Evaluate_happy:
  assumes "fault_free e" "eligible req"
    and "\<exists>a \<in> set (accounts (w_db w)). a_correspondent_id a = Some (rq_CorrespondentID req) \<and> a_type a = ''OMNIBUS''"
  shows "returns (Evaluate fundingEngine req) e w (\<lambda>dec w'. \<exists>fs. dec = Inr fs \<and>
     fd_Decision fs = DecisionApprove \<and> fd_ReasonCode fs = '''')"
proof -
  have "run_rules (en_rules fundingEngine) req = None"
    using assms(2) by (simp add: fundingEngine_def run_rules_eligible)
  moreover have "find (\<lambda>a. a_correspondent_id a = Some (rq_CorrespondentID req) \<and> a_type a = ''OMNIBUS'')
      (accounts (w_db w)) \<noteq> None"
    using assms(3) by (auto simp: find_None_iff)
  ultimately show ?thesis
    by (auto simp: Evaluate_def fundingEngine_def NewEngine_def returns_bind returns_sql [OF assms(1)]
        GetOmnibusForCorrespondent_def run_simps)
qed

lemma post_funds_happy:
  assumes e: "fault_free e" "canonical e (td_TransferID td)" and h: "happy e td c d0"
    and w: "flow (td_TransferID td) Analyzing ec rr [] d0 (w_db w)"
    and a: "a \<in> set (accounts d0)" "a_id a = fd_ResolvedOmnibusID fs"
  shows "returns (post_funds orchDeps td fs) e w (\<lambda>res w'. res = (FundsPosted, None))"
proof -
  have c: "0 < c" "c < 10 ^ 12" and amt: "td_Amount td = of_cents c" using h by (auto simp: happy_def)
  have fmt: "fmt2 (td_Amount td) = cents_text c" using c unfolding amt by (intro fmt2_of_cents) simp
  have memo: "MemoToEntryType ''FREE'' = Some EntryTypeProvisionalCredit" by (simp add: MemoToEntryType_def)
  have finish: "returns (finish_posting orchDeps (td_TransferID td)) e w' (\<lambda>res w'. res = (FundsPosted, None))"
    if "flow (td_TransferID td) Approved ec rr new d0 (w_db w')" for w' new
    unfolding finish_posting_def orchDeps_simps using that by (rule transition_then [OF e]) simp_all
  have "returns (post_ledger orchDeps td (fd_ResolvedOmnibusID fs)) e w' (\<lambda>res w'. res = (FundsPosted, None))"
    if w': "flow (td_TransferID td) Approved ec rr [] d0 (w_db w')" for w'
  proof -
    note run = run_PostDoubleEntry [OF e(1) memo happy_postable [OF h w' a]]
    show ?thesis
      unfolding post_ledger_def Let_def returns_bind [of "MustParse _"] returns_MustParse [OF e(2)]
        orchDeps_simps fmt returns_bind [of "PostDoubleEntry _ _ _ _ _"]
      by (subst returns_def)
         (use flow_ledger [OF w'] in \<open>auto simp: run intro!: event_then [OF e] finish\<close>)
  qed
  then show ?thesis
    unfolding post_funds_def Let_def orchDeps_simps
    by (intro transition_then [OF e w])
       (auto intro!: returns_ignoringI [OF flow_setContributionType [OF e]])
qed

lemma evaluate_funding_happy:
  assumes e: "fault_free e" "canonical e (td_TransferID td)" and h: "happy e td c d0"
    and w: "flow (td_TransferID td) Analyzing ec rr [] d0 (w_db w)" and resp: "clean_pass resp (td_Amount td)"
  shows "returns (evaluate_funding orchDeps td resp) e w (\<lambda>res w'. res = (FundsPosted, None))"
  unfolding evaluate_funding_def Let_def orchDeps_simps
proof (rule event_then [OF e w], unfold returns_bind [of "MustParse _"] returns_MustParse [OF e(2)],
    rule returns_bindI [OF returns_conj [OF returns_Evaluate [OF e(1)] returns_Evaluate_happy [OF e(1)]]],
    goal_cases)
  case (1 w1)
  then show ?case using h by (auto simp: eligible_def happy_def)
next
  case (2 w1)
  then show ?case using h by (auto simp: happy_def elim!: flowE)
next
  case (3 w1 dec w2)
  then obtain fs where fs: "dec = Inr fs" "fd_Decision fs = DecisionApprove" "fd_ReasonCode fs = ''''" by auto
  from 3(1) have "accounts (w_db w1) = accounts d0" by (auto elim: flowE)
  with 3 fs obtain a where a: "a \<in> set (accounts d0)" "a_id a = fd_ResolvedOmnibusID fs" by auto
  have w2: "flow (td_TransferID td) Analyzing ec rr [] d0 (w_db w2)" using 3 by simp
  have "vss_review_reason resp (td_Amount td) = ''''"
    using resp by (auto simp: clean_pass_def vss_review_reason_def)
  with fs show ?case
    by (auto intro!: event_then [OF e w2] post_funds_happy [OF e h _ a])
qed

lemma ProcessDeposit_happy:
  assumes e: "fault_free e" "canonical e (td_TransferID td)" and h: "happy e td c (w_db w)"
    and "transfer_of (w_db w) (td_TransferID td) = Some r" "t_state r = Requested"
  shows "returns (ProcessDeposit orchDeps td) e w (\<lambda>res w'. res = (FundsPosted, None))"
proof -
  let ?d0 = "w_db w" and ?i = "td_TransferID td"
  have "\<bar>c\<bar> \<le> 10 ^ 14" using h by (auto simp: happy_def)
  then obtain y where "of_cents c = Fin y" by (rule of_cents_error)
  then have amount: "json_number_ok (td_Amount td)" using h by (simp add: happy_def)
  have w: "flow ?i Requested (t_error_code r) (t_review_reason r) [] ?d0 ?d0"
    using flow_start [OF assms(4)] assms(5) by simp
  have vss: "returns (after_vss orchDeps td resp) e w' (\<lambda>res w'. res = (FundsPosted, None))"
    if "flow ?i Validating (t_error_code r) (t_review_reason r) [] ?d0 (w_db w')"
      and resp: "clean_pass resp (td_Amount td)" for w' resp
    using resp unfolding after_vss_def Let_def orchDeps_simps
    by (intro event_then [OF e that(1)], elim vss_results_then [OF e])
       (auto simp: clean_pass_def [of resp] intro!: transition_then [OF e] evaluate_funding_happy [OF e h])
  show ?thesis
    unfolding ProcessDeposit_def Let_def orchDeps_simps
  proof (rule transition_then [OF e w], simp, unfold option.case, erule event_then [OF e], goal_cases)
    case (1 w0 w1)
    obtain resp where resp: "vendor e (w_ticks w1) (vendor_request td) = HttpReply 200 (Some resp)"
      "clean_pass resp (td_Amount td)"
      using h unfolding happy_def by blast
    have "run (Validate (vendor_request td)) e w1 = (Done (Inr resp), tick w1)"
      using amount resp(1) by (simp add: Validate_def run_bind run_http_call) (simp add: vendor_request_def)
    then show ?case
      unfolding vendor_request_def [symmetric] returns_bind by (subst returns_def) (use 1 in \<open>simp add: vss resp(2)\<close>)
  qed
qed

end
