(* ===== verification/Backed.thy ===== *)
theory Backed
  imports DepositFlow
begin

text \<open>
  The invariant that ties the state machine to the ledger under concurrency, lost replies and crashes:
  \<open>backed\<close> says that no transfer is FundsPosted, Completed or Returned without the ledger entries that
  state stands for. \<open>money_step\<close> is the guarantee every request gives to the others, and the rules
  below prove it for the store operations and the deposit flow.
\<close>

section \<open>The invariant\<close>

definition has_entry :: "db \<Rightarrow> uuid \<Rightarrow> EntryType \<Rightarrow> uuid \<Rightarrow> Side \<Rightarrow> bool" where
  "has_entry d i et a sd \<longleftrightarrow>
     list_ex (\<lambda>l. l_transfer_id l = i \<and> l_entry_type l = et \<and> l_account_id l = a \<and> l_side l = sd)
       (ledger_entries d)"

text \<open>What the state of a transfer says about the ledger and the batches.\<close>

fun backed_state :: "db \<Rightarrow> transfer_row \<Rightarrow> TransferState \<Rightarrow> bool" where
  "backed_state d r FundsPosted =
     has_entry d (t_id r) EntryTypeProvisionalCredit (t_account_id r) SideCredit"
| "backed_state d r Completed =
     (has_entry d (t_id r) EntryTypeProvisionalCredit (t_account_id r) SideCredit \<and>
      t_settlement_batch_id r \<noteq> None)"
| "backed_state d r Returned =
     (has_entry d (t_id r) EntryTypeProvisionalCredit (t_account_id r) SideCredit \<and>
      has_entry d (t_id r) EntryTypeReversal (t_account_id r) SideDebit \<and>
      has_entry d (t_id r) EntryTypeFee (t_account_id r) SideDebit)"
| "backed_state d r _ = True"

definition backed :: "db \<Rightarrow> bool" where
  "backed d \<longleftrightarrow> (\<forall>i r. transfer_of d i = Some r \<longrightarrow> backed_state d r (t_state r))"

text \<open>The ids in the tables are canonical texts, those of transfers are distinct, and transfers refer to
  existing accounts.\<close>

definition wf_ids :: "env \<Rightarrow> db \<Rightarrow> bool" where
  "wf_ids e d \<longleftrightarrow>
     (\<forall>a \<in> account_ids d. canonical e a) \<and> distinct (map t_id (transfers d)) \<and>
     (\<forall>i r. transfer_of d i = Some r \<longrightarrow> canonical e i \<and> t_account_id r \<in> account_ids d)"

definition money_step :: "env \<Rightarrow> db \<Rightarrow> db \<Rightarrow> bool" where
  "money_step e d d' \<longleftrightarrow>
     lawful valid_step d d' \<and> (backed d \<longrightarrow> backed d') \<and> (wf_ids e d \<longrightarrow> wf_ids e d')"

text \<open>The steps that create no transfer and reach no state that money stands for.\<close>

fun quiet_step :: transition_rel where
  "quiet_step None t = False"
| "quiet_step (Some s) t = (isValidTransition s t \<and> t \<notin> {FundsPosted, Completed, Returned})"

section \<open>Stable facts\<close>

lemma money_step_refl: "money_step e d d"
  by (simp add: money_step_def lawful_refl)

lemma has_entry_lawful: "lawful T d d' \<Longrightarrow> has_entry d i et a sd \<Longrightarrow> has_entry d' i et a sd"
  by (auto simp: lawful_def has_entry_def)

lemma lawful_transfer_of:
  assumes "lawful T d d'" "transfer_of d i = Some r"
  obtains r' where "transfer_of d' i = Some r'" "same_identity r r'"
    "t_state r' = t_state r \<or> T (Some (t_state r)) (t_state r')"
proof -
  have "lawful_transfer T (account_ids d) (transfer_of d i) (transfer_of d' i)"
    using assms(1) by (simp add: lawful_def)
  with assms(2) that show thesis by (cases "transfer_of d' i") auto
qed

lemma account_ids_lawful: "lawful T d d' \<Longrightarrow> account_ids d' = account_ids d"
  unfolding lawful_def account_ids_def by (metis list.set_map)

lemma backed_state_lawful:
  assumes "lawful T d d'" "same_identity r r'" "backed_state d r s"
  shows "backed_state d' r' s"
  using assms(2,3) has_entry_lawful [OF assms(1)] by (cases s) (auto simp: same_identity_def)

lemma stable_lawful:
  "(\<And>d d'. lawful valid_step d d' \<Longrightarrow> K d \<Longrightarrow> K d') \<Longrightarrow> stable (money_step e) K"
  by (auto simp: stable_def money_step_def)

lemma stable_wf_ids: "stable (money_step e) (wf_ids e)"
  by (auto simp: stable_def money_step_def)

lemma stable_backed: "stable (money_step e) backed"
  by (auto simp: stable_def money_step_def)

lemma stable_has_entry: "stable (money_step e) (\<lambda>d. has_entry d i et a sd)"
  by (rule stable_lawful) (rule has_entry_lawful)

text \<open>\<open>owned i a d\<close>: the transfer exists and belongs to the account.\<close>

definition owned :: "uuid \<Rightarrow> uuid \<Rightarrow> db \<Rightarrow> bool" where
  "owned i a d \<longleftrightarrow> (\<exists>r. transfer_of d i = Some r \<and> t_account_id r = a)"

lemma stable_owned: "stable (money_step e) (owned i a)"
proof (rule stable_lawful)
  fix d d' assume "lawful valid_step d d'" "owned i a d"
  then show "owned i a d'"
    by (auto simp: owned_def same_identity_def elim: lawful_transfer_of)
qed

definition in_batch :: "uuid \<Rightarrow> db \<Rightarrow> bool" where
  "in_batch i d \<longleftrightarrow> (\<exists>r. transfer_of d i = Some r \<and> t_settlement_batch_id r \<noteq> None)"

lemma stable_in_batch: "stable (money_step e) (in_batch i)"
proof (rule stable_lawful)
  fix d d' assume l: "lawful valid_step d d'" "in_batch i d"
  then obtain r where r: "transfer_of d i = Some r" "t_settlement_batch_id r \<noteq> None"
    by (auto simp: in_batch_def)
  obtain r' where "transfer_of d' i = Some r'" "same_identity r r'"
    using l(1) r(1) by (rule lawful_transfer_of)
  with r(2) show "in_batch i d'" by (auto simp: in_batch_def same_identity_def)
qed

section \<open>Quiet steps\<close>

lemma quiet_money_step:
  assumes "lawful quiet_step d d'"
  shows "money_step e d d'"
  unfolding money_step_def
proof (intro conjI impI)
  have q: "quiet_step s t \<Longrightarrow> valid_step s t" for s t by (cases s) auto
  show "lawful valid_step d d'" using assms q by (rule lawful_mono)
  have old: "\<exists>r. transfer_of d i = Some r \<and> same_identity r r' \<and>
      (t_state r' = t_state r \<or> t_state r' \<notin> {FundsPosted, Completed, Returned})"
    if "transfer_of d' i = Some r'" for i r'
  proof (cases "transfer_of d i")
    case None
    have "lawful_transfer quiet_step (account_ids d) (transfer_of d i) (transfer_of d' i)"
      using assms by (simp add: lawful_def)
    with None that show ?thesis by simp
  next
    case (Some r)
    with assms that show ?thesis by (auto elim!: lawful_transfer_of)
  qed
  show "backed d'" if "backed d"
    unfolding backed_def
  proof (intro allI impI)
    fix i r' assume "transfer_of d' i = Some r'"
    with old obtain r where r: "transfer_of d i = Some r" "same_identity r r'"
      "t_state r' = t_state r \<or> t_state r' \<notin> {FundsPosted, Completed, Returned}" by blast
    have "backed_state d r (t_state r)" using that r(1) by (auto simp: backed_def)
    with r(2) have "backed_state d' r' (t_state r)" by (rule backed_state_lawful [OF assms])
    moreover have "backed_state d' r' s" if "s \<notin> {FundsPosted, Completed, Returned}" for s
      using that by (cases s) auto
    ultimately show "backed_state d' r' (t_state r')" using r(3) by auto
  qed
  show "wf_ids e d'" if "wf_ids e d"
    unfolding wf_ids_def account_ids_lawful [OF assms]
  proof (intro conjI)
    show "distinct (map t_id (transfers d'))" using assms that by (auto simp: lawful_def wf_ids_def)
    show "\<forall>i r. transfer_of d' i = Some r \<longrightarrow> canonical e i \<and> t_account_id r \<in> account_ids d"
      using that old by (fastforce simp: wf_ids_def same_identity_def)
    show "\<forall>a \<in> account_ids d. canonical e a" using that by (simp add: wf_ids_def)
  qed
qed

lemma rg_quiet:
  "guarantees (lawful quiet_step) p \<Longrightarrow> stable (money_step e) K \<Longrightarrow> rg e (money_step e) p K (\<lambda>_. K)"
  by (erule rg_guarantees) (simp add: quiet_money_step)

lemma rg_bind_quiet:
  assumes "guarantees (lawful quiet_step) p" "stable (money_step e) K"
    and "\<And>a. rg e (money_step e) (k a) K Q"
  shows "rg e (money_step e) (bind p k) K Q"
  by (rule rg_bind [OF rg_quiet [OF assms(1,2)] assms(3)])

lemma rg_ignoring_quiet:
  "guarantees (lawful quiet_step) p \<Longrightarrow> stable (money_step e) K \<Longrightarrow> rg e (money_step e) q K Q
   \<Longrightarrow> rg e (money_step e) (ignoring p q) K Q"
  unfolding ignoring_def by (rule rg_bind_quiet)

lemma rg_Ret: "(\<And>d. K d \<Longrightarrow> Q a d) \<Longrightarrow> rg e G (Ret a) K Q"
  by simp

section \<open>Statements that move money\<close>

lemmas rg_sql = rg_statement [where G = "money_step e" for e, OF money_step_refl]

lemma stable_UNIV_option:
  "(\<And>a. x = Some a \<Longrightarrow> stable G (K a)) \<Longrightarrow> stable G (\<lambda>d. \<forall>a. x = Some a \<longrightarrow> K a d)"
  by (auto simp: stable_def)

text \<open>A transition into any state: what the state stands for must be known before.\<close>

lemma UpdateState_money_step:
  assumes "valid_step (Some from) to" "wf_ids e d"
    and "UpdateState_stmt i from to e n d = Inr (x, d')"
    and "\<And>u r. uuid_parse e i = Some u \<Longrightarrow> transfer_of d u = Some r \<Longrightarrow> t_state r = from \<Longrightarrow>
      backed d \<Longrightarrow> backed_state d r to"
  shows "money_step e d d'"
proof -
  obtain u where u: "uuid_parse e i = Some u" using assms(3) by (auto simp: UpdateState_stmt_def)
  show ?thesis
  proof (cases "d' = d")
    case True
    then show ?thesis by (simp add: money_step_refl)
  next
    case False
    then obtain r where r: "transfer_of d u = Some r" "t_state r = from"
      and d': "d' = upd_transfer u (\<lambda>r. r\<lparr>t_state := to, t_updated_at := clock e n\<rparr>) d"
      using assms(3) u by (auto simp: UpdateState_stmt_def split: option.splits if_splits)
    have l: "lawful valid_step d d'"
      unfolding d' using assms(1) r by (intro lawful_upd_transfer) (auto simp: same_identity_def)
    have row: "transfer_of d' j = (if j = u then Some (r\<lparr>t_state := to, t_updated_at := clock e n\<rparr>)
        else transfer_of d j)" for j
      using r(1) by (simp add: d' transfer_of_upd_transfer)
    have "backed d'" if b: "backed d"
      unfolding backed_def
    proof (intro allI impI)
      fix j r' assume r': "transfer_of d' j = Some r'"
      show "backed_state d' r' (t_state r')"
      proof (cases "j = u")
        case True
        with r' row have "r' = r\<lparr>t_state := to, t_updated_at := clock e n\<rparr>" by simp
        moreover have "backed_state d r to" using assms(4) u r b by blast
        ultimately show ?thesis
          using backed_state_lawful [OF l, of r r' to] by (simp add: same_identity_def)
      next
        case False
        with r' row b have "backed_state d r' (t_state r')" by (auto simp: backed_def)
        then show ?thesis using backed_state_lawful [OF l, of r' r'] by simp
      qed
    qed
    moreover have "wf_ids e d'"
      using assms(2) r(1) l unfolding wf_ids_def account_ids_lawful [OF l] row by (auto simp: lawful_def)
    ultimately show ?thesis using l by (simp add: money_step_def)
  qed
qed

lemma rg_UpdateState:
  assumes "valid_step (Some from) to" "stable (money_step e) K" "\<And>d. K d \<Longrightarrow> wf_ids e d"
    and "\<And>u r d. K d \<Longrightarrow> uuid_parse e i = Some u \<Longrightarrow> transfer_of d u = Some r \<Longrightarrow> t_state r = from \<Longrightarrow>
      backed d \<Longrightarrow> backed_state d r to"
  shows "rg e (money_step e) (UpdateState i from to) K (\<lambda>_. K)"
  unfolding UpdateState_def
proof (rule rg_bind)
  show "rg e (money_step e) (sql (UpdateState_stmt i from to)) K (\<lambda>_. K)"
  proof (rule rg_sql [OF _ _ assms(2) assms(2)])
    fix n d r d'
    assume "K d" "UpdateState_stmt i from to e n d = Inr (r, d')"
    then have "money_step e d d'" using assms(1,3,4) by (blast intro: UpdateState_money_step)
    with \<open>K d\<close> show "money_step e d d' \<and> K d'" using assms(2) by (blast dest: stableD)
  qed
qed simp

text \<open>Posting: the entries are in the ledger when no error came back.\<close>

lemma rg_PostDoubleEntry:
  assumes "MemoToEntryType memo = Some et" "stable (money_step e) K"
  shows "rg e (money_step e) (PostDoubleEntry dr cr amount memo i) K
     (\<lambda>err d. K d \<and> (err = None \<longrightarrow> has_entry d i et dr SideDebit \<and> has_entry d i et cr SideCredit))"
proof -
  let ?Q = "\<lambda>err d. K d \<and> (err = None \<longrightarrow> has_entry d i et dr SideDebit \<and> has_entry d i et cr SideCredit)"
  have stable_Q: "stable (money_step e) (?Q err)" for err
    by (intro stable_conj stable_imp assms(2) stable_has_entry)
  have stable_sql: "stable (money_step e) (\<lambda>d. ?Q (error_of a) d)" for a :: "go_error + unit"
    by (rule stable_Q)
  have "rg e (money_step e) (sql (InsertEntries_stmt (double_entry et m a b dr cr amount memo i))) K
      (\<lambda>r. ?Q (error_of r))" for m a b
  proof (rule rg_sql [OF _ _ assms(2) stable_sql])
    fix n d u d'
    assume K: "K d" and ins: "InsertEntries_stmt (double_entry et m a b dr cr amount memo i) e n d = Inr (u, d')"
    then obtain amt new where new: "posting et amt dr cr memo i new"
      "d' = d\<lparr>ledger_entries := ledger_entries d @ new\<rparr>"
      by (elim InsertEntries_double_entry)
    have "lawful quiet_step d d'"
      using ins unfolding double_entry_def
      by (rule lawful_InsertEntries_stmt [rotated]) (simp add: entry_pair_def)
    then have "money_step e d d'" by (rule quiet_money_step)
    moreover have "has_entry d' i et dr SideDebit \<and> has_entry d' i et cr SideCredit"
      using new by (auto simp: has_entry_def posting_def ledger_pair_def)
    ultimately show "money_step e d d' \<and> ?Q (error_of (Inr u)) d'"
      using stableD [OF assms(2) K] by simp
  qed (simp add: error_of_simps)
  then have "rg e (money_step e) (InsertEntries (double_entry et m a b dr cr amount memo i)) K ?Q" for m a b
    unfolding InsertEntries_def exec_sql_def by (rule rg_bind) simp
  then have post: "rg e (money_step e) (bind (InsertEntries (double_entry et m a b dr cr amount memo i))
      (\<lambda>err. Ret (map_option (EWrap ''ledger: post double entry'') err))) K ?Q" for m a b
    by (rule rg_bind) simp
  show ?thesis
    unfolding PostDoubleEntry_def assms(1) option.case
    by (intro rg_bind_quiet lawful.quiet assms(2) post)
qed

lemma rg_MustParse:
  assumes "stable (money_step e) K"
  shows "rg e (money_step e) (MustParse s) K (\<lambda>u d. K d \<and> uuid_parse e s = Some u)"
proof -
  have "rg e (money_step e) (uuid_Parse s) K (\<lambda>r d. K d \<and> uuid_parse e s = r)"
    unfolding uuid_Parse_def
    by (rule rg_atomic) (auto intro: stable_conj assms stable_True simp: money_step_refl)
  then show ?thesis
    unfolding MustParse_def by (rule rg_bind) (auto split: option.splits)
qed

section \<open>The deposit flow\<close>

lemma guarantees_ignoring: "guarantees R p \<Longrightarrow> guarantees R q \<Longrightarrow> guarantees R (ignoring p q)"
  unfolding ignoring_def by (rule guarantees_bind)

lemma lawful_Transition:
  assumes "isValidTransition from to \<Longrightarrow> T (Some from) to"
  shows "guarantees (lawful T) (Transition transferStore WriteEvent (Some Notify) i from to)"
  unfolding Transition_def writeStateChangedEvent_def notify_best_effort_def using assms
  by (auto intro!: guarantees_bind guarantees_ignoring lawful_UpdateState lawful_WriteEvent lawful_Notify
      split: option.splits)

lemma lawful_field_setters:
  "guarantees (lawful T) (setErrorCode transferStore i code)"
  "guarantees (lawful T) (setReviewReason transferStore i reason)"
  "guarantees (lawful T) (setContributionType transferStore i ct)"
  "guarantees (lawful T) (updateTransferVSSResults transferStore i resp)"
  by (simp_all add: setErrorCode_def setReviewReason_def setContributionType_def
      updateTransferVSSResults_def if_fields_def transferStore_def lawful_setters lawful_SetVSSResults)

lemma lawful_Validate: "guarantees (lawful T) (Validate req)"
  unfolding Validate_def by (auto intro!: guarantees_bind lawful.quiet)

lemma lawful_Evaluate: "guarantees (lawful T) (Evaluate fundingEngine req)"
  by (rule guarantees_Evaluate) (auto simp: fundingEngine_def NewEngine_def lawful.queries)

lemma lawful_reject_with:
  "(isValidTransition from Rejected \<Longrightarrow> T (Some from) Rejected) \<Longrightarrow>
   guarantees (lawful T) (reject_with orchDeps i from code)"
  unfolding reject_with_def setErrorAndReject_def orchDeps_simps
  by (intro guarantees_bind guarantees_ignoring lawful_field_setters lawful_Transition guarantees_Ret)

lemma rg_Transition:
  assumes "valid_step (Some from) to" "stable (money_step e) K" "\<And>d. K d \<Longrightarrow> wf_ids e d"
    and "\<And>u r d. K d \<Longrightarrow> uuid_parse e i = Some u \<Longrightarrow> transfer_of d u = Some r \<Longrightarrow> t_state r = from \<Longrightarrow>
      backed d \<Longrightarrow> backed_state d r to"
  shows "rg e (money_step e) (Transition transferStore WriteEvent (Some Notify) i from to) K (\<lambda>_. K)"
proof -
  have "guarantees (lawful quiet_step) (writeStateChangedEvent WriteEvent i from to)"
    by (simp add: writeStateChangedEvent_def lawful_WriteEvent)
  moreover have "rg e (money_step e) (notify_best_effort (Some Notify) i payload (Ret None)) K (\<lambda>_. K)"
    for payload :: json
    unfolding notify_best_effort_def option.case
    by (rule rg_ignoring_quiet [OF lawful_Notify assms(2)]) simp
  ultimately show ?thesis
    using assms(1) unfolding Transition_def orchDeps_simps
    by (simp, intro rg_bind [OF rg_UpdateState [OF assms]])
       (auto intro!: rg_bind_quiet [OF _ assms(2)] split: option.splits)
qed

text \<open>What the flow knows of its transfer: it belongs to the account; later also: it is credited.\<close>

definition parsed_owned :: "env \<Rightarrow> string \<Rightarrow> uuid \<Rightarrow> db \<Rightarrow> bool" where
  "parsed_owned e i a d \<longleftrightarrow> wf_ids e d \<and> (\<forall>u. uuid_parse e i = Some u \<longrightarrow> owned u a d)"

definition parsed_credited :: "env \<Rightarrow> string \<Rightarrow> uuid \<Rightarrow> db \<Rightarrow> bool" where
  "parsed_credited e i a d \<longleftrightarrow> parsed_owned e i a d \<and>
     (\<forall>u. uuid_parse e i = Some u \<longrightarrow> has_entry d u EntryTypeProvisionalCredit a SideCredit)"

lemma stable_all: "(\<And>x. stable G (K x)) \<Longrightarrow> stable G (\<lambda>d. \<forall>x. K x d)"
  unfolding stable_def by blast

lemma stable_parsed_owned: "stable (money_step e) (parsed_owned e i a)"
  unfolding parsed_owned_def
  by (intro stable_conj stable_wf_ids stable_all stable_imp stable_owned)

lemma stable_parsed_credited: "stable (money_step e) (parsed_credited e i a)"
  unfolding parsed_credited_def
  by (intro stable_conj stable_parsed_owned stable_all stable_imp stable_has_entry)

lemma rg_to_FundsPosted:
  "rg e (money_step e) (Transition transferStore WriteEvent (Some Notify) i Approved FundsPosted)
     (parsed_credited e i a) (\<lambda>_. parsed_credited e i a)"
proof (rule rg_Transition [OF _ stable_parsed_credited])
  fix u r d
  assume "parsed_credited e i a d" "uuid_parse e i = Some u" "transfer_of d u = Some r"
  then show "backed_state d r FundsPosted"
    using row_of_key [of t_id u "transfers d" r]
    by (auto simp: parsed_credited_def parsed_owned_def owned_def)
qed (simp_all add: parsed_credited_def parsed_owned_def)

lemma rg_post_ledger:
  "rg e (money_step e) (post_ledger orchDeps td omni) (parsed_owned e (td_TransferID td) (td_AccountID td))
     (\<lambda>_ _. True)"
proof -
  let ?i = "td_TransferID td" and ?a = "td_AccountID td"
  have memo: "MemoToEntryType ''FREE'' = Some EntryTypeProvisionalCredit" by (simp add: MemoToEntryType_def)
  have finish: "rg e (money_step e) (finish_posting orchDeps ?i) (parsed_credited e ?i ?a) (\<lambda>_ _. True)"
    unfolding finish_posting_def orchDeps_simps by (rule rg_bind [OF rg_to_FundsPosted]) simp
  have event: "rg e (money_step e) (ignoring (WriteEvent ?i step actor payload) (finish_posting orchDeps ?i))
      (parsed_credited e ?i ?a) (\<lambda>_ _. True)" for step actor payload
    by (rule rg_ignoring_quiet [OF lawful_WriteEvent stable_parsed_credited finish])
  have st: "stable (money_step e) (\<lambda>d. parsed_owned e ?i ?a d \<and> uuid_parse e ?i = Some u)" for u
    by (intro stable_conj stable_parsed_owned stable_True)
  show ?thesis
    unfolding post_ledger_def Let_def orchDeps_simps
  proof (rule rg_bind [OF rg_MustParse [OF stable_parsed_owned]], rule rg_bind [OF rg_PostDoubleEntry [OF memo st]],
      goal_cases)
    case (1 u err)
    show ?case
    proof (cases err)
      case None
      show ?thesis
        unfolding None option.case
        by (rule rg_pre [OF event]) (auto simp: parsed_credited_def)
    qed simp
  qed
qed

lemma rg_post_funds:
  "rg e (money_step e) (post_funds orchDeps td fs) (parsed_owned e (td_TransferID td) (td_AccountID td))
     (\<lambda>_ _. True)"
  unfolding post_funds_def Let_def orchDeps_simps
  by (rule rg_bind_quiet [OF lawful_Transition stable_parsed_owned])
     (auto intro!: rg_ignoring_quiet [OF _ stable_parsed_owned] lawful_field_setters rg_post_ledger
       split: option.splits)

lemma rg_reject_with:
  "from = Validating \<or> from = Analyzing \<Longrightarrow>
   rg e (money_step e) (reject_with orchDeps i from code) (parsed_owned e j a) (\<lambda>_ _. True)"
  by (rule rg_post [OF rg_quiet [OF lawful_reject_with stable_parsed_owned]]) auto

lemma rg_evaluate_funding:
  "rg e (money_step e) (evaluate_funding orchDeps td resp)
     (parsed_owned e (td_TransferID td) (td_AccountID td)) (\<lambda>_ _. True)"
  unfolding evaluate_funding_def Let_def orchDeps_simps
  by (auto intro!: rg_ignoring_quiet [OF _ stable_parsed_owned] rg_bind_quiet [OF _ stable_parsed_owned]
      lawful_WriteEvent lawful.quiet lawful_Evaluate rg_reject_with lawful_field_setters rg_post_funds
      split: sum.splits)

lemma rg_after_vss:
  "rg e (money_step e) (after_vss orchDeps td resp)
     (parsed_owned e (td_TransferID td) (td_AccountID td)) (\<lambda>_ _. True)"
  unfolding after_vss_def Let_def orchDeps_simps
  by (auto intro!: rg_ignoring_quiet [OF _ stable_parsed_owned] rg_bind_quiet [OF _ stable_parsed_owned]
      lawful_WriteEvent rg_reject_with
      lawful_field_setters lawful_Transition rg_evaluate_funding split: option.splits)

lemma rg_ProcessDeposit:
  "rg e (money_step e) (ProcessDeposit orchDeps td)
     (parsed_owned e (td_TransferID td) (td_AccountID td)) (\<lambda>_ _. True)"
  unfolding ProcessDeposit_def Let_def orchDeps_simps
  by (auto intro!: rg_ignoring_quiet [OF _ stable_parsed_owned] rg_bind_quiet [OF _ stable_parsed_owned]
      lawful_WriteEvent lawful_Validate lawful_Transition rg_after_vss split: option.splits sum.splits)

end
