(* ===== verification/Returns.thy ===== *)
theory Returns
  imports Backed
begin

text \<open>
  \<open>internal/returns/handler.go\<close> with the adapters of \<open>cmd/api/handlers/returns.go\<close>: the return of a
  deposit by the settlement bank posts the reversal and the fee, moves the transfer to Returned,
  notifies the investor and flags an account whose balance is negative.
\<close>

section \<open>Dependencies\<close>

record RTransfer =
  rt_ID :: string
  rt_AccountID :: uuid
  rt_OmnibusID :: uuid
  rt_CorrespondentID :: uuid
  rt_Amount :: float64
  rt_State :: TransferState

record ReturnInput =
  in_TransferID :: string
  in_ReasonCode :: string

record ReturnDeps =
  rd_GetTransfer :: "string \<Rightarrow> (go_error + RTransfer) prog"
  rd_UpdateState :: "string \<Rightarrow> TransferState \<Rightarrow> TransferState \<Rightarrow> go_error option prog"
  rd_WriteEvent :: event_writer
  rd_Notify :: notifier
  rd_GetReturnedCheckFee :: "uuid \<Rightarrow> (go_error + float64) prog"
  rd_GetFeeAccountID :: "(go_error + uuid) prog"
  rd_SetAccountStatus :: "uuid \<Rightarrow> string \<Rightarrow> go_error option prog"
  rd_CreateNotification :: "uuid \<Rightarrow> uuid \<Rightarrow> string \<Rightarrow> string \<Rightarrow> go_error option prog"
  rd_Ledger :: LedgerService

text \<open>\<open>returns.ErrNotFound\<close> and \<open>returns.IsNotFound\<close>.\<close>

definition Returns_ErrNotFound :: "string \<Rightarrow> go_error" where
  "Returns_ErrNotFound msg = EWrap msg ErrReturnsNotFound"

definition IsNotFound :: "go_error option \<Rightarrow> bool" where
  "IsNotFound err = (case err of None \<Rightarrow> False | Some er \<Rightarrow> ErrorsIs er ErrReturnsNotFound)"

section \<open>The adapters\<close>

text \<open>\<open>accountID, _ := uuid.Parse(...)\<close>: the zero UUID when the text is malformed.\<close>

definition parse_or_nil :: "string \<Rightarrow> uuid prog" where
  "parse_or_nil s = bind (uuid_Parse s) (\<lambda>r. Ret (case r of None \<Rightarrow> nil_uuid | Some u \<Rightarrow> u))"

definition Adapter_GetTransfer :: "string \<Rightarrow> (go_error + RTransfer) prog" where
  "Adapter_GetTransfer i =
     bind (GetByID i) (\<lambda>r. case r of
       Inl err \<Rightarrow>
         if ErrorsIs err ErrNotFound then Ret (Inl (Returns_ErrNotFound (''transfer '' @ i)))
         else Ret (Inl err)
     | Inr t \<Rightarrow>
         bind (parse_or_nil (tr_AccountID t)) (\<lambda>accountID.
         bind (parse_or_nil (tr_FromAccountID t)) (\<lambda>omnibusID.
         bind (parse_or_nil (tr_CorrespondentID t)) (\<lambda>corrID.
           Ret (Inr \<lparr>rt_ID = tr_ID t, rt_AccountID = accountID, rt_OmnibusID = omnibusID,
                     rt_CorrespondentID = corrID, rt_Amount = tr_Amount t, rt_State = tr_State t\<rparr>)))))"

definition Adapter_GetReturnedCheckFee :: "uuid \<Rightarrow> (go_error + float64) prog" where
  "Adapter_GetReturnedCheckFee corr =
     bind (Correspondents_GetByID corr) (\<lambda>r. Ret (map_sum id (\<lambda>c. ReturnedCheck (Fees (co_RulesConfig c))) r))"

definition Adapter_GetFeeAccountID :: "(go_error + uuid) prog" where
  "Adapter_GetFeeAccountID =
     bind (GetByCode ''FEE-APEX'') (\<lambda>r. Ret (map_sum (EWrap ''resolve FEE-APEX account'') a_id r))"

text \<open>\<open>NewReturnHandler\<close>: the wiring.\<close>

definition returnDeps :: ReturnDeps where
  "returnDeps =
     \<lparr>rd_GetTransfer = Adapter_GetTransfer, rd_UpdateState = UpdateState, rd_WriteEvent = WriteEvent,
      rd_Notify = Notify, rd_GetReturnedCheckFee = Adapter_GetReturnedCheckFee,
      rd_GetFeeAccountID = Adapter_GetFeeAccountID, rd_SetAccountStatus = SetStatus,
      rd_CreateNotification = CreateNotification, rd_Ledger = ledgerService\<rparr>"

lemma returnDeps_simps [simp]:
  "rd_GetTransfer returnDeps = Adapter_GetTransfer" "rd_UpdateState returnDeps = UpdateState"
  "rd_WriteEvent returnDeps = WriteEvent" "rd_Notify returnDeps = Notify"
  "rd_GetReturnedCheckFee returnDeps = Adapter_GetReturnedCheckFee"
  "rd_GetFeeAccountID returnDeps = Adapter_GetFeeAccountID"
  "rd_SetAccountStatus returnDeps = SetStatus" "rd_CreateNotification returnDeps = CreateNotification"
  "rd_Ledger returnDeps = ledgerService"
  by (simp_all add: returnDeps_def)

section \<open>The flow\<close>

definition reasonCodeToMessage :: "string \<Rightarrow> string" where
  "reasonCodeToMessage code =
     (if code = ''R01'' then ''Insufficient funds''
      else if code = ''R02'' then ''Account closed''
      else if code = ''R08'' then ''Payment stopped''
      else if code = ''NCI'' then ''Non-cash item''
      else if code = '''' then ''Unspecified''
      else ''Return reason code '' @ code)"

definition return_message :: "float64 \<Rightarrow> string \<Rightarrow> float64 \<Rightarrow> string" where
  "return_message amount code fee =
     ''Your deposit of $'' @ fmt2 amount @ '' was returned. Reason: '' @ reasonCodeToMessage code
     @ ''. A returned check fee of $'' @ fmt2 fee @ '' has been charged.''"

text \<open>Step 14: an account with a negative balance is flagged.\<close>

definition flag_negative :: "ReturnDeps \<Rightarrow> uuid \<Rightarrow> go_error option prog" where
  "flag_negative d acct =
     bind (ls_GetBalance (rd_Ledger d) acct) (\<lambda>r. case r of
       Inl err \<Rightarrow> Ret None
     | Inr balStr \<Rightarrow>
         (case ParseFloat balStr of
            None \<Rightarrow> Ret None
          | Some bal \<Rightarrow>
              if f_lt bal (Fin 0) then ignoring (rd_SetAccountStatus d acct ''COLLECTIONS'') (Ret None)
              else Ret None))"

text \<open>Steps 10 to 14, after the transition; every failure is ignored.\<close>

definition after_return ::
  "ReturnDeps \<Rightarrow> ReturnInput \<Rightarrow> RTransfer \<Rightarrow> uuid \<Rightarrow> float64 \<Rightarrow> go_error option prog" where
  "after_return d inp t transferUUID fee =
     (let i = in_TransferID inp in
      ignoring (rd_WriteEvent d i ''state_changed'' ''system''
          [(''from_state'', JStr (state_text (rt_State t))), (''to_state'', JStr ''Returned''),
           (''trigger'', JStr ''settlement_bank_return'')])
      (ignoring (rd_WriteEvent d i ''return_processed'' ''system''
          [(''reason_code'', JStr (in_ReasonCode inp)), (''fee_amount'', JNum fee),
           (''reversal_amount'', JNum (rt_Amount t))])
      (ignoring (rd_Notify d i
          [(''transfer_id'', JStr i), (''from_state'', JStr (state_text (rt_State t))),
           (''to_state'', JStr ''Returned'')])
      (ignoring (rd_CreateNotification d (rt_AccountID t) transferUUID ''RETURN_RECEIVED''
          (return_message (rt_Amount t) (in_ReasonCode inp) fee))
      (flag_negative d (rt_AccountID t))))))"

text \<open>Step 9: the transition; step 8: the fee; step 7: the reversal.\<close>

definition finish_return ::
  "ReturnDeps \<Rightarrow> ReturnInput \<Rightarrow> RTransfer \<Rightarrow> float64 \<Rightarrow> uuid \<Rightarrow> go_error option prog" where
  "finish_return d inp t fee transferUUID =
     bind (rd_UpdateState d (in_TransferID inp) (rt_State t) Returned) (\<lambda>err. case err of
       Some er \<Rightarrow> Ret (Some (EWrap (''returns: transition '' @ state_text (rt_State t) @ arrow @ ''Returned'') er))
     | None \<Rightarrow> after_return d inp t transferUUID fee)"

definition post_fee ::
  "ReturnDeps \<Rightarrow> ReturnInput \<Rightarrow> RTransfer \<Rightarrow> float64 \<Rightarrow> uuid \<Rightarrow> uuid \<Rightarrow> go_error option prog" where
  "post_fee d inp t fee feeAccountID transferUUID =
     bind (ls_PostDoubleEntry (rd_Ledger d) (rt_AccountID t) feeAccountID (fmt2 fee)
             ''RETURNED_CHECK_FEE'' transferUUID) (\<lambda>err. case err of
       Some er \<Rightarrow> Ret (Some (EWrap ''returns: post fee ledger entry'' er))
     | None \<Rightarrow> finish_return d inp t fee transferUUID)"

definition post_return ::
  "ReturnDeps \<Rightarrow> ReturnInput \<Rightarrow> RTransfer \<Rightarrow> float64 \<Rightarrow> uuid \<Rightarrow> go_error option prog" where
  "post_return d inp t fee feeAccountID =
     bind (MustParse (in_TransferID inp)) (\<lambda>transferUUID.
     bind (ls_PostDoubleEntry (rd_Ledger d) (rt_AccountID t) (rt_OmnibusID t) (fmt2 (rt_Amount t))
             ''REVERSAL'' transferUUID) (\<lambda>err. case err of
       Some er \<Rightarrow> Ret (Some (EWrap ''returns: post reversal ledger entry'' er))
     | None \<Rightarrow> post_fee d inp t fee feeAccountID transferUUID))"

text \<open>Steps 4 to 6 and the rest, for a returnable transfer.\<close>

definition return_transfer :: "ReturnDeps \<Rightarrow> ReturnInput \<Rightarrow> RTransfer \<Rightarrow> go_error option prog" where
  "return_transfer d inp t =
     ignoring (rd_WriteEvent d (in_TransferID inp) ''return_received'' ''settlement_bank''
         [(''reason_code'', JStr (in_ReasonCode inp))])
     (bind (rd_GetReturnedCheckFee d (rt_CorrespondentID t)) (\<lambda>r. case r of
        Inl er \<Rightarrow> Ret (Some (EWrap ''returns: get correspondent fee'' er))
      | Inr fee \<Rightarrow>
          bind (rd_GetFeeAccountID d) (\<lambda>r. case r of
            Inl er \<Rightarrow> Ret (Some (EWrap ''returns: get fee account'' er))
          | Inr feeAccountID \<Rightarrow> post_return d inp t fee feeAccountID)))"

definition ProcessReturn :: "ReturnDeps \<Rightarrow> ReturnInput \<Rightarrow> go_error option prog" where
  "ProcessReturn d inp =
     (let i = in_TransferID inp in
      bind (rd_GetTransfer d i) (\<lambda>r. case r of
        Inl er \<Rightarrow> Ret (Some (EWrap ''returns: get transfer'' er))
      | Inr t \<Rightarrow>
          if rt_State t = Returned then Ret None
          else if rt_State t \<noteq> FundsPosted \<and> rt_State t \<noteq> Completed
          then Ret (Some (ErrInvalidReturnState i (rt_State t)))
          else return_transfer d inp t))"

section \<open>Under concurrency\<close>

lemma lawful_adapters:
  "guarantees (lawful T) (Adapter_GetTransfer i)"
  "guarantees (lawful T) (Adapter_GetReturnedCheckFee c)"
  "guarantees (lawful T) Adapter_GetFeeAccountID"
  unfolding Adapter_GetTransfer_def Adapter_GetReturnedCheckFee_def Adapter_GetFeeAccountID_def parse_or_nil_def
  by (auto intro!: guarantees_bind lawful.queries lawful.quiet split: sum.splits)

lemma lawful_after_return: "guarantees (lawful T) (after_return returnDeps inp t u fee)"
proof -
  have "guarantees (lawful T) (flag_negative returnDeps a)" for a
    unfolding flag_negative_def
    by (auto intro!: guarantees_bind guarantees_ignoring lawful_ledger_service lawful_other_writes
        split: sum.splits option.splits)
  then show ?thesis
    unfolding after_return_def Let_def
    by (auto intro!: guarantees_ignoring lawful_WriteEvent lawful_Notify lawful_other_writes)
qed

text \<open>What the return handler learns from the transfer it loads.\<close>

definition return_known :: "env \<Rightarrow> string \<Rightarrow> RTransfer \<Rightarrow> db \<Rightarrow> bool" where
  "return_known e i t d \<longleftrightarrow> parsed_owned e i (rt_AccountID t) d"

lemma stable_return_known: "stable (money_step e) (return_known e i t)"
  unfolding return_known_def [abs_def] by (rule stable_parsed_owned)

lemma rg_parse_or_nil:
  assumes "stable (money_step e) K"
  shows "rg e (money_step e) (parse_or_nil s) K
    (\<lambda>u d. K d \<and> u = (case uuid_parse e s of None \<Rightarrow> nil_uuid | Some v \<Rightarrow> v))"
proof -
  have "rg e (money_step e) (uuid_Parse s) K (\<lambda>r d. K d \<and> uuid_parse e s = r)"
    unfolding uuid_Parse_def
    by (rule rg_atomic) (auto intro: stable_conj assms simp: money_step_refl)
  then show ?thesis unfolding parse_or_nil_def by (rule rg_bind) auto
qed

lemma rg_Adapter_GetTransfer:
  "rg e (money_step e) (Adapter_GetTransfer i) (wf_ids e)
     (\<lambda>r d. wf_ids e d \<and> (\<forall>t. r = Inr t \<longrightarrow> return_known e i t d))"
proof -
  define Q :: "go_error + Transfer \<Rightarrow> db \<Rightarrow> bool"
    where "Q = (\<lambda>r d. wf_ids e d \<and> (\<forall>t u. r = Inr t \<longrightarrow> uuid_parse e i = Some u \<longrightarrow>
      owned u (tr_AccountID t) d \<and> canonical e (tr_AccountID t)))"
  have st: "stable (money_step e) (Q r)" for r :: "go_error + Transfer"
    unfolding Q_def by (intro stable_conj stable_wf_ids stable_all stable_imp stable_owned stable_True)
  have get: "rg e (money_step e) (GetByID i) (wf_ids e) Q"
    unfolding GetByID_def
  proof (rule rg_bind [where M = "\<lambda>r d. wf_ids e d \<and> (\<forall>row u. r = Inr (Some row) \<longrightarrow> uuid_parse e i = Some u \<longrightarrow>
      owned u (t_account_id row) d \<and> canonical e (t_account_id row))"])
    show "rg e (money_step e) (sql (GetByID_stmt i)) (wf_ids e) (\<lambda>r d. wf_ids e d \<and>
        (\<forall>row u. r = Inr (Some row) \<longrightarrow> uuid_parse e i = Some u \<longrightarrow>
      owned u (t_account_id row) d \<and> canonical e (t_account_id row)))"
    proof (rule rg_sql, goal_cases)
      case (1 n d r d')
      then show ?case by (auto simp: GetByID_stmt_def money_step_refl owned_def wf_ids_def)
    qed (auto intro!: stable_conj stable_wf_ids stable_all stable_imp stable_owned stable_True)
  qed (auto simp: Q_def scanTransferFull_def split: sum.splits option.splits)
  have "rg e (money_step e) (case r of
       Inl err \<Rightarrow> if ErrorsIs err ErrNotFound then Ret (Inl (Returns_ErrNotFound (''transfer '' @ i)))
         else Ret (Inl err)
     | Inr t \<Rightarrow>
         bind (parse_or_nil (tr_AccountID t)) (\<lambda>accountID.
         bind (parse_or_nil (tr_FromAccountID t)) (\<lambda>omnibusID.
         bind (parse_or_nil (tr_CorrespondentID t)) (\<lambda>corrID.
           Ret (Inr \<lparr>rt_ID = tr_ID t, rt_AccountID = accountID, rt_OmnibusID = omnibusID,
                     rt_CorrespondentID = corrID, rt_Amount = tr_Amount t, rt_State = tr_State t\<rparr>)))))
     (Q r) (\<lambda>r d. wf_ids e d \<and> (\<forall>t. r = Inr t \<longrightarrow> return_known e i t d))" for r
  proof (cases r)
    case (Inr t)
    show ?thesis
      unfolding Inr sum.case
      by (rule rg_bind [OF rg_parse_or_nil [OF st]], rule rg_bind [OF rg_parse_or_nil],
          intro stable_conj st stable_True, rule rg_bind [OF rg_parse_or_nil],
          intro stable_conj st stable_True)
         (auto simp: Q_def return_known_def parsed_owned_def canonical_def split: option.splits)
  qed (auto simp: Q_def)
  then show ?thesis unfolding Adapter_GetTransfer_def by (rule rg_bind [OF get])
qed

definition returned_known :: "env \<Rightarrow> string \<Rightarrow> uuid \<Rightarrow> db \<Rightarrow> bool" where
  "returned_known e i a d \<longleftrightarrow> parsed_owned e i a d \<and>
     (\<forall>u. uuid_parse e i = Some u \<longrightarrow>
        has_entry d u EntryTypeReversal a SideDebit \<and> has_entry d u EntryTypeFee a SideDebit)"

lemma stable_returned_known: "stable (money_step e) (returned_known e i a)"
  unfolding returned_known_def
  by (intro stable_conj stable_parsed_owned stable_all stable_imp stable_has_entry)

lemma rg_to_Returned:
  assumes "from = FundsPosted \<or> from = Completed"
  shows "rg e (money_step e) (UpdateState i from Returned) (returned_known e i a) (\<lambda>_. returned_known e i a)"
proof (rule rg_UpdateState [OF _ stable_returned_known])
  fix u r d
  assume k: "returned_known e i a d" "uuid_parse e i = Some u" and r: "transfer_of d u = Some r" "t_state r = from"
    and b: "backed d"
  have "backed_state d r from" using b r by (auto simp: backed_def)
  with k r assms show "backed_state d r Returned"
    using row_of_key [OF r(1)] by (auto simp: returned_known_def parsed_owned_def owned_def)
qed (use assms in \<open>auto simp: returned_known_def parsed_owned_def\<close>)

lemma return_memos:
  "MemoToEntryType ''REVERSAL'' = Some EntryTypeReversal"
  "MemoToEntryType ''RETURNED_CHECK_FEE'' = Some EntryTypeFee"
  by (simp_all add: MemoToEntryType_def)

lemma rg_finish_return:
  assumes "rt_State t = FundsPosted \<or> rt_State t = Completed"
  shows "rg e (money_step e) (finish_return returnDeps inp t fee u)
     (returned_known e (in_TransferID inp) (rt_AccountID t)) (\<lambda>_ _. True)"
  unfolding finish_return_def returnDeps_simps
  by (rule rg_bind [OF rg_to_Returned [OF assms]])
     (auto intro!: rg_post [OF rg_quiet [OF lawful_after_return stable_returned_known]] split: option.splits)

lemma rg_post_fee:
  assumes "rt_State t = FundsPosted \<or> rt_State t = Completed"
  shows "rg e (money_step e) (post_fee returnDeps inp t fee feeAccountID u)
     (\<lambda>d. (return_known e (in_TransferID inp) t d \<and> uuid_parse e (in_TransferID inp) = Some u) \<and>
        has_entry d u EntryTypeReversal (rt_AccountID t) SideDebit) (\<lambda>_ _. True)"
  unfolding post_fee_def returnDeps_simps orchDeps_simps
proof (rule rg_bind [OF rg_PostDoubleEntry [OF return_memos(2)]], goal_cases)
  case (2 err)
  show ?case
    by (cases err) (auto intro!: rg_pre [OF rg_finish_return [OF assms]] simp: returned_known_def return_known_def)
qed (simp_all add: stable_conj stable_return_known stable_has_entry)

lemma rg_post_return:
  assumes "rt_State t = FundsPosted \<or> rt_State t = Completed"
  shows "rg e (money_step e) (post_return returnDeps inp t fee feeAccountID)
     (return_known e (in_TransferID inp) t) (\<lambda>_ _. True)"
  unfolding post_return_def returnDeps_simps orchDeps_simps
proof (rule rg_bind [OF rg_MustParse [OF stable_return_known]], 
    rule rg_bind [OF rg_PostDoubleEntry [OF return_memos(1)]], goal_cases)
  case (2 u err)
  show ?case
    by (cases err) (auto intro!: rg_pre [OF rg_post_fee [OF assms]])
qed (simp_all add: stable_conj stable_return_known)

lemma rg_return_transfer:
  assumes "rt_State t = FundsPosted \<or> rt_State t = Completed"
  shows "rg e (money_step e) (return_transfer returnDeps inp t) (return_known e (in_TransferID inp) t)
     (\<lambda>_ _. True)"
  unfolding return_transfer_def returnDeps_simps
  by (rule rg_ignoring_quiet [OF lawful_WriteEvent stable_return_known])
     (auto intro!: rg_bind_quiet [OF _ stable_return_known] lawful_adapters rg_post_return [OF assms]
       split: sum.splits)

lemma rg_ProcessReturn:
  "rg e (money_step e) (ProcessReturn returnDeps inp) (wf_ids e) (\<lambda>_ _. True)"
  unfolding ProcessReturn_def Let_def returnDeps_simps
proof (rule rg_bind [OF rg_Adapter_GetTransfer], goal_cases)
  case (1 r)
  show ?case
  proof (cases r)
    case (Inr t)
    then show ?thesis by (auto intro!: rg_pre [OF rg_return_transfer])
  qed simp
qed

end
