(* ===== verification/Cutoff.thy ===== *)
theory Cutoff
  imports Types
begin

text \<open>
  \<open>internal/settlement/cutoff.go\<close>: the 6:30 PM Central Time cutoff, federal holidays and business days.
  An instant is a number of nanoseconds since the Unix epoch; the zone America/Chicago is a parameter
  \<open>off\<close>, the seconds east of UTC at a Unix second, and \<open>chicago off\<close> states what the code relies on. A
  local calendar day is its number of days since 1970-01-01, and its date is found by counting from
  2025-01-01, so that \<open>time.Date\<close> on the date of a local day is a function of the day's number.
\<close>

section \<open>The calendar\<close>

type_synonym date = "int \<times> nat \<times> nat"

definition leap_year :: "int \<Rightarrow> bool" where
  "leap_year y \<longleftrightarrow> y mod 4 = 0 \<and> (y mod 100 \<noteq> 0 \<or> y mod 400 = 0)"

definition month_days :: "int \<Rightarrow> nat \<Rightarrow> nat" where
  "month_days y m =
     (if m = 2 then (if leap_year y then 29 else 28)
      else if m = 4 \<or> m = 6 \<or> m = 9 \<or> m = 11 then 30 else 31)"

fun next_date :: "date \<Rightarrow> date" where
  "next_date (y, m, d) =
     (if d < month_days y m then (y, m, d + 1)
      else if m < 12 then (y, m + 1, 1) else (y + 1, 1, 1))"

fun prev_date :: "date \<Rightarrow> date" where
  "prev_date (y, m, d) =
     (if 1 < d then (y, m, d - 1)
      else if 1 < m then (y, m - 1, month_days y (m - 1)) else (y - 1, 12, 31))"

fun valid_date :: "date \<Rightarrow> bool" where
  "valid_date (y, m, d) \<longleftrightarrow> 1 \<le> m \<and> m \<le> 12 \<and> 1 \<le> d \<and> d \<le> month_days y m"

fun iterate :: "('a \<Rightarrow> 'a) \<Rightarrow> nat \<Rightarrow> 'a \<Rightarrow> 'a" where
  "iterate f 0 x = x"
| "iterate f (Suc n) x = f (iterate f n x)"

text \<open>Day 20089 is 1 January 2025.\<close>

definition civil :: "day \<Rightarrow> date" where
  "civil n =
     (if 20089 \<le> n then iterate next_date (nat (n - 20089)) (2025, 1, 1)
      else iterate prev_date (nat (20089 - n)) (2025, 1, 1))"

text \<open>\<open>time.Weekday\<close>: Sunday is 0; 1 January 1970 was a Thursday.\<close>

definition weekday :: "day \<Rightarrow> int" where
  "weekday n = (n + 4) mod 7"

lemma month_days_bounds: "28 \<le> month_days y m" "month_days y m \<le> 31"
  by (auto simp: month_days_def)

lemma next_prev_date: "valid_date x \<Longrightarrow> next_date (prev_date x) = x"
proof (cases x)
  case (fields y m d)
  assume v: "valid_date x"
  have "month_days y' 12 = 31" for y' by (simp add: month_days_def)
  moreover have "1 < m \<Longrightarrow> m - 1 < 12" using v fields by auto
  ultimately show ?thesis
    using v fields month_days_bounds [of y "m - 1"] by (auto simp: le_Suc_eq)
qed

lemma valid_prev_date: "valid_date x \<Longrightarrow> valid_date (prev_date x)"
proof (cases x)
  case (fields y m d)
  assume v: "valid_date x"
  have "month_days (y - 1) 12 = 31" by (simp add: month_days_def)
  moreover have "1 \<le> month_days y (m - 1)" using month_days_bounds [of y "m - 1"] by simp
  ultimately show ?thesis using v fields by auto
qed

lemma valid_next_date: "valid_date x \<Longrightarrow> valid_date (next_date x)"
proof (cases x)
  case (fields y m d)
  assume "valid_date x"
  with fields show ?thesis using month_days_bounds [of y "m + 1"] month_days_bounds [of "y + 1" 1] by auto
qed

lemma valid_iterate:
  "(\<And>x. valid_date x \<Longrightarrow> valid_date (f x)) \<Longrightarrow> valid_date x \<Longrightarrow> valid_date (iterate f n x)"
  by (induction n) auto

lemma valid_civil: "valid_date (civil n)"
proof -
  have "valid_date (2025, 1, 1)" by (simp add: month_days_def)
  then show ?thesis
    unfolding civil_def using valid_iterate [OF valid_next_date] valid_iterate [OF valid_prev_date] by auto
qed

lemma civil_Suc: "civil (n + 1) = next_date (civil n)"
proof (cases "20089 \<le> n")
  case True
  then have "nat (n + 1 - 20089) = Suc (nat (n - 20089))" by simp
  with True show ?thesis by (simp add: civil_def)
next
  case False
  then have k: "nat (20089 - n) = Suc (nat (20089 - (n + 1)))" by simp
  have "civil (n + 1) = iterate prev_date (nat (20089 - (n + 1))) (2025, 1, 1)"
    using False by (cases "n + 1 = 20089") (simp_all add: civil_def)
  moreover have "valid_date (iterate prev_date (nat (20089 - (n + 1))) (2025, 1, 1))"
    by (rule valid_iterate [OF valid_prev_date]) (simp_all add: month_days_def)
  ultimately show ?thesis
    using False k by (simp add: civil_def [of n] next_prev_date del: next_date.simps)
qed

section \<open>Instants in the zone\<close>

definition ns :: int where
  "ns = 10 ^ 9"

definition local_sec :: "(int \<Rightarrow> int) \<Rightarrow> instant \<Rightarrow> int" where
  "local_sec off t = t div ns + off (t div ns)"

definition local_day :: "(int \<Rightarrow> int) \<Rightarrow> instant \<Rightarrow> day" where
  "local_day off t = local_sec off t div 86400"

text \<open>\<open>time.Date\<close> in the zone: the Unix second of a local second, as Go resolves it (the offset in force
  at the local second read as UTC gives a first guess, the offset in force at that guess the result).\<close>

definition zone_unix :: "(int \<Rightarrow> int) \<Rightarrow> int \<Rightarrow> int" where
  "zone_unix off l = l - off (l - off l)"

definition go_Date :: "(int \<Rightarrow> int) \<Rightarrow> day \<Rightarrow> int \<Rightarrow> instant" where
  "go_Date off n s = zone_unix off (n * 86400 + s) * ns"

text \<open>\<open>AddDate(0, 0, 1)\<close>: the same local time and nanosecond on the next day.\<close>

definition AddDay :: "(int \<Rightarrow> int) \<Rightarrow> instant \<Rightarrow> instant" where
  "AddDay off t = zone_unix off (local_sec off t + 86400) * ns + t mod ns"

section \<open>Business days\<close>

definition explicitHolidays :: "date list" where
  "explicitHolidays =
     [(2025, 1, 1), (2025, 1, 20), (2025, 2, 17), (2025, 5, 26), (2025, 6, 19), (2025, 7, 4),
      (2025, 9, 1), (2025, 10, 13), (2025, 11, 11), (2025, 11, 27), (2025, 12, 25),
      (2026, 1, 1), (2026, 1, 19), (2026, 2, 16), (2026, 5, 25), (2026, 6, 19), (2026, 7, 3),
      (2026, 9, 7), (2026, 10, 12), (2026, 11, 11), (2026, 11, 26), (2026, 12, 25)]"

text \<open>\<open>isFederalHoliday\<close> on a date and its weekday, the conditions in the order of the code.\<close>

fun isFederalHoliday :: "date \<Rightarrow> int \<Rightarrow> bool" where
  "isFederalHoliday (y, m, d) wd \<longleftrightarrow>
     m = 1 \<and> d = 1 \<or>
     m = 1 \<and> d = 2 \<and> wd = 1 \<or>
     m = 12 \<and> d = 31 \<and> wd = 5 \<or>
     m = 1 \<and> wd = 1 \<and> 15 \<le> d \<and> d \<le> 21 \<or>
     m = 2 \<and> wd = 1 \<and> 15 \<le> d \<and> d \<le> 21 \<or>
     m = 5 \<and> wd = 1 \<and> 25 \<le> d \<or>
     m = 6 \<and> d = 19 \<or>
     m = 6 \<and> d = 20 \<and> wd = 1 \<or>
     m = 6 \<and> d = 18 \<and> wd = 5 \<or>
     m = 7 \<and> d = 4 \<or>
     m = 7 \<and> d = 5 \<and> wd = 1 \<or>
     m = 7 \<and> d = 3 \<and> wd = 5 \<or>
     m = 9 \<and> wd = 1 \<and> d \<le> 7 \<or>
     m = 10 \<and> wd = 1 \<and> 8 \<le> d \<and> d \<le> 14 \<or>
     m = 11 \<and> d = 11 \<or>
     m = 11 \<and> d = 12 \<and> wd = 1 \<or>
     m = 11 \<and> d = 10 \<and> wd = 5 \<or>
     m = 11 \<and> wd = 4 \<and> 22 \<le> d \<and> d \<le> 28 \<or>
     m = 12 \<and> d = 25 \<or>
     m = 12 \<and> d = 26 \<and> wd = 1 \<or>
     m = 12 \<and> d = 24 \<and> wd = 5 \<or>
     (y, m, d) \<in> set explicitHolidays"

definition business_day :: "day \<Rightarrow> bool" where
  "business_day n \<longleftrightarrow>
     (if weekday n = 6 \<or> weekday n = 0 then False else \<not> isFederalHoliday (civil n) (weekday n))"

definition IsBusinessDay :: "(int \<Rightarrow> int) \<Rightarrow> instant \<Rightarrow> bool" where
  "IsBusinessDay off t = business_day (local_day off t)"

text \<open>The loop of \<open>NextBusinessDay\<close>; \<open>None\<close> is a loop that never ends.\<close>

partial_function (option) skip_to_business :: "(int \<Rightarrow> int) \<Rightarrow> instant \<Rightarrow> instant option" where
  "skip_to_business off t =
     (if IsBusinessDay off t then Some t else skip_to_business off (AddDay off t))"

definition NextBusinessDay :: "(int \<Rightarrow> int) \<Rightarrow> instant \<Rightarrow> instant option" where
  "NextBusinessDay off t =
     map_option (\<lambda>n. go_Date off (local_day off n) 0) (skip_to_business off (AddDay off t))"

section \<open>Cutoffs\<close>

definition cutoff_second :: int where
  "cutoff_second = 18 * 3600 + 30 * 60"

definition CutoffForDate :: "(int \<Rightarrow> int) \<Rightarrow> instant \<Rightarrow> instant" where
  "CutoffForDate off date = go_Date off (local_day off date) cutoff_second"

definition CurrentCutoff :: "(int \<Rightarrow> int) \<Rightarrow> instant \<Rightarrow> instant option" where
  "CurrentCutoff off now =
     (if now < CutoffForDate off now then Some (CutoffForDate off now)
      else map_option (CutoffForDate off) (NextBusinessDay off now))"

definition BatchCutoffDate :: "(int \<Rightarrow> int) \<Rightarrow> instant \<Rightarrow> instant option" where
  "BatchCutoffDate off submittedAt =
     (if submittedAt < CutoffForDate off submittedAt
      then (if IsBusinessDay off submittedAt then Some (go_Date off (local_day off submittedAt) 0)
            else NextBusinessDay off submittedAt)
      else NextBusinessDay off submittedAt)"

section \<open>The zone America/Chicago\<close>

text \<open>Central Time is 6 or 5 hours west of UTC, and its changes happen between 7:00 and 8:00 UTC.\<close>

definition chicago :: "(int \<Rightarrow> int) \<Rightarrow> bool" where
  "chicago off \<longleftrightarrow>
     (\<forall>u. off u = -21600 \<or> off u = -18000) \<and>
     (\<forall>n u v. n * 86400 + 28800 \<le> u \<longrightarrow> u < n * 86400 + 111600 \<longrightarrow>
        n * 86400 + 28800 \<le> v \<longrightarrow> v < n * 86400 + 111600 \<longrightarrow> off u = off v)"

lemma day_bounds: "x div 86400 * 86400 \<le> x" "x < x div 86400 * 86400 + 86400" for x :: int
proof -
  have "x = x div 86400 * 86400 + x mod 86400" by (rule div_mult_mod_eq [symmetric])
  moreover have "0 \<le> x mod 86400" "x mod 86400 < 86400" by simp_all
  ultimately show "x div 86400 * 86400 \<le> x" "x < x div 86400 * 86400 + 86400" by linarith+
qed

lemma day_eq:
  assumes "n * 86400 \<le> x" "x < n * 86400 + 86400"
  shows "x div 86400 = (n :: int)"
proof -
  have "x div 86400 < n + 1" "n < x div 86400 + 1"
    using assms day_bounds [of x] by linarith+
  then show ?thesis by simp
qed

lemma chicago_offset: "chicago off \<Longrightarrow> off u = -21600 \<or> off u = -18000"
  by (simp add: chicago_def)

lemma chicago_window:
  "chicago off \<Longrightarrow> n * 86400 + 28800 \<le> u \<Longrightarrow> u < n * 86400 + 111600 \<Longrightarrow>
   n * 86400 + 28800 \<le> v \<Longrightarrow> v < n * 86400 + 111600 \<Longrightarrow> off u = off v"
  unfolding chicago_def by blast

text \<open>Two instants at most an hour apart with different offsets are near a change, at night.\<close>

lemma change_at_night:
  assumes z: "chicago off" and "off u \<noteq> off v" "\<bar>u - v\<bar> \<le> 3600"
  obtains n where "n * 86400 + 21600 \<le> u" "u < n * 86400 + 32400"
proof -
  define n where "n = (u - 28800) div 86400"
  have n: "n * 86400 + 28800 \<le> u" "u < n * 86400 + 115200"
    using day_bounds [of "u - 28800"] by (simp_all add: n_def)
  show thesis
  proof (cases "u < n * 86400 + 32400")
    case True
    with n show thesis by (intro that [of n]) simp_all
  next
    case u: False
    have "n * 86400 + 108000 \<le> u"
    proof (rule ccontr)
      assume "\<not> n * 86400 + 108000 \<le> u"
      with u assms(3) have "off u = off v" by (intro chicago_window [OF z, of n]) linarith+
      with assms(2) show False by simp
    qed
    with n show thesis by (intro that [of "n + 1"]) simp_all
  qed
qed

lemma zone_unix_day:
  assumes z: "chicago off"
  shows "(zone_unix off l + off (zone_unix off l)) div 86400 = l div 86400"
proof -
  define g where "g = l - off l"
  define u where "u = l - off g"
  have u: "zone_unix off l = u" by (simp add: zone_unix_def u_def g_def)
  show ?thesis
  proof (cases "off u = off g")
    case True
    then show ?thesis by (simp add: u u_def)
  next
    case False
    have "\<bar>u - g\<bar> \<le> 3600"
      using chicago_offset [OF z, of l] chicago_offset [OF z, of g] by (auto simp: u_def g_def)
    with z False obtain n where n: "n * 86400 + 21600 \<le> u" "u < n * 86400 + 32400"
      by (rule change_at_night)
    have "n * 86400 \<le> u + off u" "u + off u < n * 86400 + 86400" "n * 86400 \<le> l" "l < n * 86400 + 86400"
      using n chicago_offset [OF z, of u] chicago_offset [OF z, of g] by (auto simp: u_def)
    then have "(u + off u) div 86400 = n" "l div 86400 = n" by (simp_all only: day_eq)
    then show ?thesis by (simp add: u)
  qed
qed

lemma zone_unix_exact:
  assumes z: "chicago off" and "off (l - off l) = off (l - off (l - off l))"
  shows "zone_unix off l + off (zone_unix off l) = l"
  using assms(2) by (simp add: zone_unix_def)

text \<open>Midnight and 18:30 exist once on every day.\<close>

lemma zone_unix_fixed_times:
  assumes z: "chicago off" and s: "s = 0 \<or> 10800 \<le> s \<and> s < 86400"
  shows "zone_unix off (n * 86400 + s) + off (zone_unix off (n * 86400 + s)) = n * 86400 + s"
proof -
  define l where "l = n * 86400 + s"
  have range: "\<exists>m. m * 86400 + 28800 \<le> l - o1 \<and> l - o1 < m * 86400 + 111600 \<and>
      m * 86400 + 28800 \<le> l - o2 \<and> l - o2 < m * 86400 + 111600"
    if "o1 = -21600 \<or> o1 = -18000" "o2 = -21600 \<or> o2 = -18000" for o1 o2
  proof (cases "s = 0")
    case True
    with that show ?thesis by (intro exI [of _ "n - 1"]) (auto simp: l_def)
  next
    case False
    with that s show ?thesis by (intro exI [of _ n]) (auto simp: l_def)
  qed
  obtain m where "m * 86400 + 28800 \<le> l - off l" "l - off l < m * 86400 + 111600"
    "m * 86400 + 28800 \<le> l - off (l - off l)" "l - off (l - off l) < m * 86400 + 111600"
    using range [OF chicago_offset [OF z] chicago_offset [OF z], of l "l - off l"] by blast
  then have "off (l - off l) = off (l - off (l - off l))" by (rule chicago_window [OF z])
  with z show ?thesis unfolding l_def by (rule zone_unix_exact)
qed

lemma ns_div [simp]: "x * ns div ns = x" "(x * ns + t mod ns) div ns = x"
  by (simp_all add: ns_def)

lemma local_sec_go_Date:
  "chicago off \<Longrightarrow> s = 0 \<or> 10800 \<le> s \<and> s < 86400 \<Longrightarrow> local_sec off (go_Date off n s) = n * 86400 + s"
  using zone_unix_fixed_times [of off s n] by (simp add: local_sec_def go_Date_def)

lemma local_day_go_Date:
  assumes "chicago off" "s = 0 \<or> 10800 \<le> s \<and> s < 86400"
  shows "local_day off (go_Date off n s) = n"
proof -
  have "(n * 86400 + s) div 86400 = n" using assms(2) by (intro day_eq) auto
  then show ?thesis by (simp add: local_day_def local_sec_go_Date assms)
qed

lemma local_day_AddDay: "chicago off \<Longrightarrow> local_day off (AddDay off t) = local_day off t + 1"
  using zone_unix_day [of off "local_sec off t + 86400"]
  unfolding local_day_def AddDay_def local_sec_def by simp

section \<open>There is always a next business day\<close>

lemma midweek_holiday:
  assumes "isFederalHoliday (y, m, d) wd" "wd = 2 \<or> wd = 3"
  shows "(m, d) \<in> {(1, 1), (6, 19), (7, 4), (11, 11), (12, 25)} \<or> (y, m, d) \<in> set explicitHolidays"
proof -
  have "wd \<noteq> 1" "wd \<noteq> 4" "wd \<noteq> 5" using assms(2) by auto
  with assms(1) have "m = 1 \<and> d = 1 \<or> m = 6 \<and> d = 19 \<or> m = 7 \<and> d = 4 \<or> m = 11 \<and> d = 11 \<or>
      m = 12 \<and> d = 25 \<or> (y, m, d) \<in> set explicitHolidays"
    by simp
  then show ?thesis by (elim disjE conjE) simp_all
qed

lemma explicit_not_three:
  "list_all (\<lambda>x. \<not> (isFederalHoliday (next_date x) 3 \<and> isFederalHoliday (next_date (next_date x)) 4))
     explicitHolidays"
  by code_simp

lemma no_three_holidays:
  "\<not> (isFederalHoliday x 2 \<and> isFederalHoliday (next_date x) 3 \<and> isFederalHoliday (next_date (next_date x)) 4)"
proof
  assume h: "isFederalHoliday x 2 \<and> isFederalHoliday (next_date x) 3 \<and>
    isFederalHoliday (next_date (next_date x)) 4"
  obtain y m d where x: "x = (y, m, d)" by (cases x)
  have "(m, d) \<in> {(1, 1), (6, 19), (7, 4), (11, 11), (12, 25)} \<or> x \<in> set explicitHolidays"
    using midweek_holiday [of y m d 2] h x by simp
  then show False
  proof
    assume "x \<in> set explicitHolidays"
    with explicit_not_three h show False by (auto simp: list_all_iff simp del: isFederalHoliday.simps next_date.simps)
  next
    assume md: "(m, d) \<in> {(1, 1), (6, 19), (7, 4), (11, 11), (12, 25)}"
    then have "next_date x = (y, m, Suc d)" by (auto simp: x month_days_def)
    with h have "isFederalHoliday (y, m, Suc d) 3" by simp
    then have "(m, Suc d) \<in> {(1, 1), (6, 19), (7, 4), (11, 11), (12, 25)} \<or> (y, m, Suc d) \<in> set explicitHolidays"
      by (rule midweek_holiday) simp
    with md show False by (auto simp: explicitHolidays_def)
  qed
qed

lemma business_day_within:
  obtains k where "k \<le> 8" "business_day (n + int k)"
proof -
  define j where "j = (5 - n) mod 7"
  have j: "0 \<le> j" "j \<le> 6" "(n + j + 4) mod 7 = 2" "(n + j + 1 + 4) mod 7 = 3" "(n + j + 1 + 1 + 4) mod 7 = 4"
    unfolding j_def by presburger+
  define m where "m = n + j"
  have w: "weekday m = 2" "weekday (m + 1) = 3" "weekday (m + 1 + 1) = 4"
    using j by (simp_all add: m_def weekday_def)
  have "business_day m \<or> business_day (m + 1) \<or> business_day (m + 1 + 1)"
    using no_three_holidays [of "civil m"] unfolding business_day_def w civil_Suc by simp
  moreover have "business_day (n + int (nat i))" if "business_day (n + i)" "0 \<le> i" for i
    using that by simp
  ultimately show thesis
    using that [of "nat j"] that [of "nat (j + 1)"] that [of "nat (j + 2)"] j(1,2)
    by (auto simp: m_def add.assoc)
qed

definition next_business :: "day \<Rightarrow> day \<Rightarrow> bool" where
  "next_business n m \<longleftrightarrow> n \<le> m \<and> business_day m \<and> (\<forall>j. n \<le> j \<longrightarrow> j < m \<longrightarrow> \<not> business_day j)"

lemma next_business_unique: "next_business n m \<Longrightarrow> next_business n m' \<Longrightarrow> m = m'"
  unfolding next_business_def by (metis linorder_neqE)

lemma next_business_step:
  assumes "next_business (n + 1) m" "\<not> business_day n"
  shows "next_business n m"
  unfolding next_business_def
proof (intro conjI allI impI)
  show "n \<le> m" "business_day m" using assms(1) by (auto simp: next_business_def)
  fix j assume "n \<le> j" "j < m"
  with assms show "\<not> business_day j" by (cases "j = n") (auto simp: next_business_def)
qed

lemma skip_to_business_day:
  assumes "chicago off"
  shows "business_day (local_day off t + int k) \<Longrightarrow>
    \<exists>t'. skip_to_business off t = Some t' \<and> next_business (local_day off t) (local_day off t')"
proof (induction k arbitrary: t)
  case 0
  then show ?case
    by (subst skip_to_business.simps) (simp add: IsBusinessDay_def next_business_def)
next
  case (Suc k)
  show ?case
  proof (cases "business_day (local_day off t)")
    case True
    then show ?thesis
      by (subst skip_to_business.simps) (simp add: IsBusinessDay_def next_business_def)
  next
    case False
    have "business_day (local_day off (AddDay off t) + int k)"
      using Suc.prems by (simp add: local_day_AddDay assms algebra_simps)
    from Suc.IH [OF this] obtain t' where t': "skip_to_business off (AddDay off t) = Some t'"
      "next_business (local_day off t + 1) (local_day off t')"
      by (auto simp: local_day_AddDay assms)
    have "next_business (local_day off t) (local_day off t')"
      using t'(2) False by (rule next_business_step)
    with t'(1) False show ?thesis
      by (subst skip_to_business.simps) (simp add: IsBusinessDay_def)
  qed
qed

lemma NextBusinessDay_day:
  assumes "chicago off"
  obtains m where "NextBusinessDay off t = Some (go_Date off m 0)" "next_business (local_day off t + 1) m"
proof -
  obtain k where "business_day (local_day off (AddDay off t) + int k)" using business_day_within by blast
  from skip_to_business_day [OF assms this] obtain t' where
    "skip_to_business off (AddDay off t) = Some t'" "next_business (local_day off t + 1) (local_day off t')"
    by (auto simp: local_day_AddDay assms)
  then show thesis by (intro that) (simp_all add: NextBusinessDay_def)
qed

section \<open>Cutoffs in local time\<close>

lemma before_cutoff:
  assumes z: "chicago off"
  shows "t < CutoffForDate off t \<longleftrightarrow> local_sec off t < local_day off t * 86400 + cutoff_second"
proof -
  define s where "s = t div ns"
  define n where "n = local_day off t"
  define u where "u = zone_unix off (n * 86400 + cutoff_second)"
  have u: "u + off u = n * 86400 + cutoff_second"
    unfolding u_def by (rule zone_unix_fixed_times [OF z]) (simp add: cutoff_second_def)
  have lt: "t < u * ns \<longleftrightarrow> s < u"
  proof -
    define f where "f = t mod ns"
    have "t = s * ns + f" "0 \<le> f" "f < ns" by (simp_all add: s_def f_def ns_def)
    then show ?thesis by (simp add: ns_def) linarith
  qed
  have n: "n * 86400 \<le> s + off s" "s + off s < n * 86400 + 86400"
    using day_bounds [of "local_sec off t"] by (simp_all add: n_def local_day_def local_sec_def s_def)
  have "s < u \<longleftrightarrow> s + off s < n * 86400 + cutoff_second"
  proof (cases "off s = off u")
    case True
    show ?thesis by (rule iffI) (use u True in linarith)+
  next
    case False
    have "s < n * 86400 + 28800"
    proof (rule ccontr)
      assume "\<not> s < n * 86400 + 28800"
      then have "off s = off u"
        using n u chicago_offset [OF z, of s] chicago_offset [OF z, of u]
        by (intro chicago_window [OF z, of n]) (auto simp: cutoff_second_def)
      with False show False by simp
    qed
    then show ?thesis
      using u chicago_offset [OF z, of s] chicago_offset [OF z, of u] by (auto simp: cutoff_second_def)
  qed
  then show ?thesis
    unfolding CutoffForDate_def go_Date_def n_def [symmetric] u_def [symmetric] lt
    by (simp add: local_sec_def s_def)
qed

lemma local_day_mono:
  assumes z: "chicago off" and "t \<le> t'"
  shows "local_day off t \<le> local_day off t'"
proof (rule ccontr)
  define s s' where "s = t div ns" and "s' = t' div ns"
  have le: "s \<le> s'" using assms(2) by (simp add: s_def s'_def ns_def zdiv_mono1)
  assume "\<not> local_day off t \<le> local_day off t'"
  then have less: "(s' + off s') div 86400 < (s + off s) div 86400"
    by (simp add: local_day_def local_sec_def s_def s'_def)
  then have d: "s' + off s' < (s + off s) div 86400 * 86400" "(s + off s) div 86400 * 86400 \<le> s + off s"
    using day_bounds [of "s' + off s'"] day_bounds [of "s + off s"] by linarith+
  with le have ne: "off s \<noteq> off s'" and near: "\<bar>s - s'\<bar> \<le> 3600"
    using chicago_offset [OF z, of s] chicago_offset [OF z, of s'] by auto
  obtain n where n: "n * 86400 + 21600 \<le> s" "s < n * 86400 + 32400"
    using z ne near by (rule change_at_night)
  have "(s + off s) div 86400 = n"
    using n chicago_offset [OF z, of s] by (intro day_eq) auto
  moreover have "n * 86400 \<le> s' + off s'" using n le chicago_offset [OF z, of s'] by auto
  ultimately show False using d by simp
qed

text \<open>The business day a deposit belongs to, from its local clock.\<close>

definition first_day :: "(int \<Rightarrow> int) \<Rightarrow> instant \<Rightarrow> day" where
  "first_day off t =
     (if local_sec off t < local_day off t * 86400 + cutoff_second then local_day off t else local_day off t + 1)"

lemma BatchCutoffDate_day:
  assumes z: "chicago off"
  obtains m where "BatchCutoffDate off t = Some (go_Date off m 0)" "next_business (first_day off t) m"
proof (cases "t < CutoffForDate off t \<and> business_day (local_day off t)")
  case True
  then show thesis
    using before_cutoff [OF z, of t]
    by (intro that [of "local_day off t"])
       (simp_all add: BatchCutoffDate_def IsBusinessDay_def first_day_def next_business_def)
next
  case False
  obtain m where m: "NextBusinessDay off t = Some (go_Date off m 0)" "next_business (local_day off t + 1) m"
    using z by (rule NextBusinessDay_day)
  have "next_business (first_day off t) m"
    using False m(2) before_cutoff [OF z, of t] next_business_step [OF m(2)] by (auto simp: first_day_def)
  with False m(1) show thesis
    by (intro that [of m]) (auto simp: BatchCutoffDate_def IsBusinessDay_def)
qed

lemma first_day_mono:
  assumes z: "chicago off" and le: "t \<le> t'"
  shows "first_day off t \<le> first_day off t'"
proof -
  have d: "local_day off t \<le> local_day off t'" using assms by (rule local_day_mono)
  show ?thesis
  proof (cases "local_day off t = local_day off t'")
    case True
    then have "CutoffForDate off t = CutoffForDate off t'" by (simp add: CutoffForDate_def)
    with le have "t' < CutoffForDate off t' \<Longrightarrow> t < CutoffForDate off t" by simp
    with True show ?thesis using before_cutoff [OF z] by (auto simp: first_day_def)
  next
    case False
    with d show ?thesis by (auto simp: first_day_def)
  qed
qed

lemma next_business_mono:
  assumes "next_business n m" "next_business n' m'" "n \<le> n'"
  shows "m \<le> m'"
proof (rule ccontr)
  assume "\<not> m \<le> m'"
  with assms have "\<not> business_day m'" by (auto simp: next_business_def)
  with assms(2) show False by (simp add: next_business_def)
qed

lemma go_Date_less:
  assumes z: "chicago off" and t: "local_day off t < n" and s: "s = 0 \<or> 10800 \<le> s \<and> s < 86400"
  shows "t < go_Date off n s"
proof (rule ccontr)
  assume "\<not> t < go_Date off n s"
  then have "local_day off (go_Date off n s) \<le> local_day off t" by (intro local_day_mono [OF z]) simp
  with t show False by (simp add: local_day_go_Date [OF z s])
qed

text \<open>Central Time in 2026 is an instance of the zone.\<close>

definition ct_2026 :: "int \<Rightarrow> int" where
  "ct_2026 u = (if 20520 * 86400 + 28800 \<le> u \<and> u < 20758 * 86400 + 25200 then -18000 else -21600)"

lemma window_boundary:
  fixes n k u :: int
  assumes "n * 86400 + 28800 \<le> u" "u < n * 86400 + 111600"
  shows "k * 86400 + 28800 \<le> u \<longleftrightarrow> k \<le> n" "u < k * 86400 + 25200 \<longleftrightarrow> n < k"
proof -
  show "k * 86400 + 28800 \<le> u \<longleftrightarrow> k \<le> n" by (rule iffI) (use assms in linarith)+
  show "u < k * 86400 + 25200 \<longleftrightarrow> n < k" by (rule iffI) (use assms in linarith)+
qed

lemma chicago_ct_2026: "chicago ct_2026"
  unfolding chicago_def
proof (intro conjI allI impI)
  show "ct_2026 u = - 21600 \<or> ct_2026 u = - 18000" for u by (simp add: ct_2026_def)
  have ct: "ct_2026 u = (if 20520 \<le> n \<and> n < 20758 then -18000 else -21600)"
    if "n * 86400 + 28800 \<le> u" "u < n * 86400 + 111600" for n u
    unfolding ct_2026_def window_boundary [OF that] ..
  fix n u v :: int
  assume "n * 86400 + 28800 \<le> u" "u < n * 86400 + 111600" "n * 86400 + 28800 \<le> v" "v < n * 86400 + 111600"
  then show "ct_2026 u = ct_2026 v" by (simp only: ct)
qed

end
