(* ===== verification/Settlement.thy ===== *)
theory Settlement
  imports Returns Cutoff
begin

text \<open>
  \<open>internal/settlement/engine.go\<close>: batches of the FundsPosted transfers before the cutoff, one file and
  one batch per correspondent, and the acknowledgment that completes the transfers of a batch.
\<close>

section \<open>The engine\<close>

text \<open>\<open>se_range\<close> is the order in which Go ranges over the keys of the map of groups.\<close>

record SEngine =
  se_ListFundsPostedBefore :: "instant \<Rightarrow> (go_error + STransfer list) prog"
  se_CreateBatch :: "string \<Rightarrow> day \<Rightarrow> string \<Rightarrow> nat \<Rightarrow> float64 \<Rightarrow> (go_error + uuid) prog"
  se_UpdateBatchStatus :: "uuid \<Rightarrow> batch_status \<Rightarrow> instant option \<Rightarrow> go_error option prog"
  se_SetSettlementBatch :: "string \<Rightarrow> uuid \<Rightarrow> instant option \<Rightarrow> go_error option prog"
  se_GetBatch :: "uuid \<Rightarrow> (go_error + Batch) prog"
  se_UpdateState :: "string \<Rightarrow> TransferState \<Rightarrow> TransferState \<Rightarrow> go_error option prog"
  se_WriteEvent :: event_writer
  se_Notifier :: "notifier option"
  se_DataDir :: string
  se_range :: "string list \<Rightarrow> string list"

record BatchSummary =
  bs_BatchID :: string
  bs_CorrespondentID :: string
  bs_RecordCount :: nat
  bs_TotalAmount :: float64
  bs_FileRef :: string

record TriggerResult =
  tg_BatchCount :: nat
  tg_TotalChecks :: nat
  tg_TotalAmount :: float64
  tg_CutoffTime :: instant
  tg_Batches :: "BatchSummary list"

definition settlementEngine :: "(string list \<Rightarrow> string list) \<Rightarrow> SEngine" where
  "settlementEngine rng =
     \<lparr>se_ListFundsPostedBefore = ListFundsPostedBefore, se_CreateBatch = CreateBatch,
      se_UpdateBatchStatus = UpdateBatchStatus, se_SetSettlementBatch = SetSettlementBatch,
      se_GetBatch = GetBatch, se_UpdateState = UpdateState, se_WriteEvent = WriteEvent,
      se_Notifier = Some Notify, se_DataDir = '''', se_range = rng\<rparr>"

lemma settlementEngine_simps [simp]:
  "se_ListFundsPostedBefore (settlementEngine rng) = ListFundsPostedBefore"
  "se_CreateBatch (settlementEngine rng) = CreateBatch"
  "se_UpdateBatchStatus (settlementEngine rng) = UpdateBatchStatus"
  "se_SetSettlementBatch (settlementEngine rng) = SetSettlementBatch"
  "se_GetBatch (settlementEngine rng) = GetBatch" "se_UpdateState (settlementEngine rng) = UpdateState"
  "se_WriteEvent (settlementEngine rng) = WriteEvent" "se_Notifier (settlementEngine rng) = Some Notify"
  "se_DataDir (settlementEngine rng) = ''''" "se_range (settlementEngine rng) = rng"
  by (simp_all add: settlementEngine_def)

section \<open>Files\<close>

definition CTLocation :: "(int \<Rightarrow> int) prog" where
  "CTLocation = atomic (\<lambda>e w. (zone_offset e, w))"

definition MkdirAll :: "string \<Rightarrow> go_error option prog" where
  "MkdirAll dir = atomic (\<lambda>e w.
     (if fault e (w_ticks w) = NoFault then None else Some (EDriver ''mkdir failed''), tick w))"

text \<open>\<open>Format("2006-01-02")\<close>, for years of four digits.\<close>

fun date_text :: "date \<Rightarrow> string" where
  "date_text (y, m, d) =
     (let n = nat y in two_digits (n div 100 mod 100) @ two_digits (n mod 100) @ ''-'' @ two_digits m
      @ ''-'' @ two_digits d)"

definition micr_entry :: "MICRData option \<Rightarrow> MICREntry" where
  "micr_entry m =
     (case m of
        None \<Rightarrow> \<lparr>me_Routing = '''', me_Account = '''', me_CheckNumber = ''''\<rparr>
      | Some v \<Rightarrow> \<lparr>me_Routing = Routing v, me_Account = Account v, me_CheckNumber = CheckNumber v\<rparr>)"

definition string_or_empty :: "string option \<Rightarrow> string" where
  "string_or_empty s = (case s of None \<Rightarrow> '''' | Some v \<Rightarrow> v)"

definition check_of :: "STransfer \<Rightarrow> Check" where
  "check_of t =
     \<lparr>ck_TransferID = st_ID t, ck_MICR = micr_entry (st_MICRData t), ck_Amount = st_Amount t,
      ck_FrontImageRef = string_or_empty (st_FrontImageRef t),
      ck_BackImageRef = string_or_empty (st_BackImageRef t)\<rparr>"

definition settlement_file :: "string \<Rightarrow> day \<Rightarrow> STransfer list \<Rightarrow> instant \<Rightarrow> SettlementFile" where
  "settlement_file corr cutoffDate ts now =
     \<lparr>sf_FileHeader = \<lparr>Sender = ''APEX'', CreatedAt = now\<rparr>,
      sf_CashLetter = \<lparr>cl_CorrespondentID = corr, cl_CutoffDate = date_text (civil cutoffDate),
        cl_Bundles = [map check_of ts], cl_TotalAmount = f_sum (map st_Amount ts),
        cl_RecordCount = length ts\<rparr>\<rparr>"

definition buildSettlementFile :: "string \<Rightarrow> day \<Rightarrow> STransfer list \<Rightarrow> SettlementFile prog" where
  "buildSettlementFile corr cutoffDate ts =
     bind time_now (\<lambda>now. Ret (settlement_file corr cutoffDate ts now))"

text \<open>\<open>json.MarshalIndent\<close> fails on a NaN or infinite amount.\<close>

definition marshal_file_ok :: "SettlementFile \<Rightarrow> bool" where
  "marshal_file_ok f \<longleftrightarrow>
     json_number_ok (cl_TotalAmount (sf_CashLetter f)) \<and>
     list_all (list_all (\<lambda>c. json_number_ok (ck_Amount c))) (cl_Bundles (sf_CashLetter f))"

definition writeSettlementFile :: "string \<Rightarrow> SettlementFile \<Rightarrow> go_error option prog" where
  "writeSettlementFile path f =
     (if \<not> marshal_file_ok f
      then Ret (Some (EWrap ''marshal settlement file'' (EMsg ''json: unsupported value'')))
      else write_file path (JsonFile f))"

section \<open>Trigger\<close>

text \<open>\<open>grouped[t.CorrespondentID] = append(grouped[t.CorrespondentID], t)\<close>, the map as an association
  list.\<close>

fun add_to_group :: "STransfer \<Rightarrow> (string \<times> STransfer list) list \<Rightarrow> (string \<times> STransfer list) list" where
  "add_to_group t [] = [(st_CorrespondentID t, [t])]"
| "add_to_group t ((k, ts) # gs) =
     (if k = st_CorrespondentID t then (k, ts @ [t]) # gs else (k, ts) # add_to_group t gs)"

definition group_transfers :: "STransfer list \<Rightarrow> (string \<times> STransfer list) list" where
  "group_transfers ts = foldl (\<lambda>gs t. add_to_group t gs) [] ts"

text \<open>The groups in the order of the range loop.\<close>

definition ranged :: "(string list \<Rightarrow> string list) \<Rightarrow> (string \<times> STransfer list) list
    \<Rightarrow> (string \<times> STransfer list) list" where
  "ranged rng gs = map (\<lambda>k. (k, case map_of gs k of None \<Rightarrow> [] | Some ts \<Rightarrow> ts)) (rng (map fst gs))"

text \<open>\<open>corrID[:8]\<close> panics on a shorter string.\<close>

definition prefix8 :: "string \<Rightarrow> string prog" where
  "prefix8 s = (if length s < 8 then Panic ''slice bounds out of range'' else Ret (take 8 s))"

fun link_transfers :: "SEngine \<Rightarrow> uuid \<Rightarrow> STransfer list \<Rightarrow> unit prog" where
  "link_transfers en b [] = Ret ()"
| "link_transfers en b (t # ts) =
     ignoring (se_SetSettlementBatch en (st_ID t) b None) (link_transfers en b ts)"

text \<open>One iteration of the loop: the file, the batch, the links, the summary.\<close>

definition settle_group ::
  "SEngine \<Rightarrow> string \<Rightarrow> day \<Rightarrow> string \<Rightarrow> STransfer list \<Rightarrow> (go_error + BatchSummary) prog" where
  "settle_group en dataDir cutoffDate corr ts =
     bind (buildSettlementFile corr cutoffDate ts) (\<lambda>f.
     bind (prefix8 corr) (\<lambda>p.
      let filePath = dataDir @ ''/settlement_'' @ p @ ''_'' @ date_text (civil cutoffDate) @ ''.json'' in
      bind (writeSettlementFile filePath f) (\<lambda>err. case err of
        Some er \<Rightarrow> Ret (Inl (EWrap ''write settlement file'' er))
      | None \<Rightarrow>
          let totalAmount = f_sum (map st_Amount ts) in
          bind (se_CreateBatch en corr cutoffDate filePath (length ts) totalAmount) (\<lambda>r. case r of
            Inl er \<Rightarrow> Ret (Inl (EWrap ''create batch'' er))
          | Inr batchID \<Rightarrow>
              bind (link_transfers en batchID ts) (\<lambda>_.
                Ret (Inr \<lparr>bs_BatchID = batchID, bs_CorrespondentID = corr, bs_RecordCount = length ts,
                          bs_TotalAmount = totalAmount, bs_FileRef = filePath\<rparr>))))))"

definition add_summary :: "TriggerResult \<Rightarrow> BatchSummary \<Rightarrow> TriggerResult" where
  "add_summary res s = res
     \<lparr>tg_Batches := tg_Batches res @ [s], tg_BatchCount := tg_BatchCount res + 1,
      tg_TotalChecks := tg_TotalChecks res + bs_RecordCount s,
      tg_TotalAmount := f_add (tg_TotalAmount res) (bs_TotalAmount s)\<rparr>"

fun settle_groups ::
  "SEngine \<Rightarrow> string \<Rightarrow> day \<Rightarrow> (string \<times> STransfer list) list \<Rightarrow> TriggerResult
     \<Rightarrow> (go_error + TriggerResult) prog" where
  "settle_groups en dataDir cutoffDate [] res = Ret (Inr res)"
| "settle_groups en dataDir cutoffDate ((corr, ts) # gs) res =
     bind (settle_group en dataDir cutoffDate corr ts) (\<lambda>r. case r of
       Inl er \<Rightarrow> Ret (Inl er)
     | Inr s \<Rightarrow> settle_groups en dataDir cutoffDate gs (add_summary res s))"

definition empty_result :: "instant \<Rightarrow> TriggerResult" where
  "empty_result cutoff =
     \<lparr>tg_BatchCount = 0, tg_TotalChecks = 0, tg_TotalAmount = Fin 0, tg_CutoffTime = cutoff, tg_Batches = []\<rparr>"

definition Trigger :: "SEngine \<Rightarrow> instant \<Rightarrow> (go_error + TriggerResult) prog" where
  "Trigger en now =
     bind CTLocation (\<lambda>off.
      let cutoff = CutoffForDate off now in
      bind (se_ListFundsPostedBefore en cutoff) (\<lambda>r. case r of
        Inl er \<Rightarrow> Ret (Inl (EWrap ''list FundsPosted transfers'' er))
      | Inr ts \<Rightarrow>
          if ts = [] then Ret (Inr (empty_result cutoff))
          else
            let dataDir = (if se_DataDir en = '''' then ''data/settlement'' else se_DataDir en) in
            bind (MkdirAll dataDir) (\<lambda>err. case err of
              Some er \<Rightarrow> Ret (Inl (EWrap ''create settlement dir'' er))
            | None \<Rightarrow>
                settle_groups en dataDir (local_day off now) (ranged (se_range en) (group_transfers ts))
                  (empty_result cutoff))))"

section \<open>Acknowledgment\<close>

text \<open>One transfer of an acknowledged batch; a failed transition skips the rest.\<close>

definition complete_transfer :: "SEngine \<Rightarrow> uuid \<Rightarrow> instant \<Rightarrow> string \<Rightarrow> unit prog" where
  "complete_transfer en batchID acknowledgedAt i =
     bind (se_UpdateState en i FundsPosted Completed) (\<lambda>err. case err of
       Some er \<Rightarrow> Ret ()
     | None \<Rightarrow>
         ignoring (se_WriteEvent en i ''state_changed'' ''system''
             [(''from_state'', JStr ''FundsPosted''), (''to_state'', JStr ''Completed'')])
         (ignoring (se_WriteEvent en i ''settlement_completed'' ''settlement_engine''
             [(''batch_id'', JStr batchID), (''acknowledged_at'', JTime acknowledgedAt)])
         (ignoring (se_SetSettlementBatch en i batchID (Some acknowledgedAt))
         (notify_best_effort (se_Notifier en) i
             [(''transfer_id'', JStr i), (''from_state'', JStr ''FundsPosted''), (''to_state'', JStr ''Completed'')]
           (Ret ())))))"

fun complete_transfers :: "SEngine \<Rightarrow> uuid \<Rightarrow> instant \<Rightarrow> string list \<Rightarrow> unit prog" where
  "complete_transfers en batchID acknowledgedAt [] = Ret ()"
| "complete_transfers en batchID acknowledgedAt (i # ids) =
     bind (complete_transfer en batchID acknowledgedAt i)
       (\<lambda>_. complete_transfers en batchID acknowledgedAt ids)"

definition AcknowledgeBatch :: "SEngine \<Rightarrow> uuid \<Rightarrow> instant \<Rightarrow> go_error option prog" where
  "AcknowledgeBatch en batchID acknowledgedAt =
     bind (se_GetBatch en batchID) (\<lambda>r. case r of
       Inl er \<Rightarrow> Ret (Some (EWrap ''get batch'' er))
     | Inr b \<Rightarrow>
         if ba_Status b = ACKNOWLEDGED then Ret None
         else bind (se_UpdateBatchStatus en batchID ACKNOWLEDGED (Some acknowledgedAt)) (\<lambda>err. case err of
           Some er \<Rightarrow> Ret (Some (EWrap ''update batch status'' er))
         | None \<Rightarrow>
             bind (complete_transfers en batchID acknowledgedAt (ba_TransferIDs b)) (\<lambda>_. Ret None)))"

end
