(* ===== verification/DepositHandler.thy ===== *)
theory DepositHandler
  imports Middleware Settlement
begin

text \<open>
  \<open>cmd/api/handlers/deposit.go\<close>: \<open>POST /deposits\<close> with its guards, the creation of the transfer, the
  stored images and the run of the deposit flow, the read-only endpoints for deposits and accounts, and
  the JSON of a transfer.
\<close>

section \<open>The JSON of a transfer\<close>

definition optional :: "string \<Rightarrow> ('a \<Rightarrow> jval) \<Rightarrow> 'a option \<Rightarrow> json" where
  "optional k f x = (case x of None \<Rightarrow> [] | Some v \<Rightarrow> [(k, f v)])"

definition error_members :: "string option \<Rightarrow> json" where
  "error_members code =
     (case code of
        None \<Rightarrow> []
      | Some c \<Rightarrow> (''error_code'', JStr c) #
          (if UserMessageForCode c \<noteq> '''' then [(''user_message'', JStr (UserMessageForCode c))] else []))"

definition micr_object :: "MICRData \<Rightarrow> jval" where
  "micr_object m =
     JObj [(''routing'', JStr (Routing m)), (''account'', JStr (Account m)),
       (''check_number'', JStr (CheckNumber m))]"

definition transferToJSON :: "Transfer \<Rightarrow> json" where
  "transferToJSON t =
     [(''id'', JStr (tr_ID t)), (''account_id'', JStr (tr_AccountID t)),
      (''from_account_id'', JStr (tr_FromAccountID t)),
      (''correspondent_id'', JStr (tr_CorrespondentID t)), (''amount'', JNum (tr_Amount t)),
      (''currency'', JStr (tr_Currency t)), (''type'', JStr (tr_Type t)), (''sub_type'', JStr (tr_SubType t)),
      (''transfer_type'', JStr (tr_TransferType t)), (''memo'', JStr (tr_Memo t)),
      (''state'', JStr (state_text (tr_State t))), (''submitted_at'', JTime (tr_SubmittedAt t)),
      (''created_at'', JTime (tr_CreatedAt t)), (''updated_at'', JTime (tr_UpdatedAt t))]
     @ optional ''review_reason'' JStr (tr_ReviewReason t)
     @ error_members (tr_ErrorCode t)
     @ optional ''contribution_type'' JStr (tr_ContributionType t)
     @ optional ''vendor_transaction_id'' JStr (tr_VendorTransactionID t)
     @ optional ''confidence_score'' JNum (tr_ConfidenceScore t)
     @ optional ''micr_data'' micr_object (tr_MICRData t)
     @ optional ''front_image_ref'' JStr (tr_FrontImageRef t)
     @ optional ''back_image_ref'' JStr (tr_BackImageRef t)"

section \<open>POST /deposits\<close>

record depositRequest =
  dr_AccountCode :: string
  dr_Amount :: float64
  dr_Scenario :: string

text \<open>A multipart form: \<open>fm_Amount\<close> is what \<open>fmt.Sscanf(amt, "%f", ...)\<close> reads (\<open>None\<close>: an error), the
  images are the uploaded contents.\<close>

record deposit_form =
  fm_AccountCode :: string
  fm_Amount :: "float64 option"
  fm_Scenario :: string
  fm_FrontImage :: "string option"
  fm_BackImage :: "string option"

text \<open>The parts of the HTTP request that the handler reads; \<open>None\<close> is a body that does not parse.\<close>

record deposit_http =
  dh_ContentType :: string
  dh_Form :: "deposit_form option"
  dh_Json :: "depositRequest option"
  dh_XScenario :: string

definition is_multipart :: "deposit_http \<Rightarrow> bool" where
  "is_multipart h \<longleftrightarrow> HasPrefix (dh_ContentType h) ''multipart/''"

text \<open>The request or the text of the 400 answer.\<close>

definition decode_deposit :: "deposit_http \<Rightarrow> string + depositRequest" where
  "decode_deposit h =
     (if is_multipart h then
        (case dh_Form h of
           None \<Rightarrow> Inl ''invalid multipart form''
         | Some f \<Rightarrow> (case fm_Amount f of
               None \<Rightarrow> Inl ''invalid amount''
             | Some a \<Rightarrow> Inr \<lparr>dr_AccountCode = fm_AccountCode f, dr_Amount = a, dr_Scenario = fm_Scenario f\<rparr>))
      else (case dh_Json h of None \<Rightarrow> Inl ''invalid JSON body'' | Some r \<Rightarrow> Inr r))"

text \<open>The checks before any database access. A NaN amount is not \<open><= 0\<close>.\<close>

definition check_deposit :: "depositRequest \<Rightarrow> string option" where
  "check_deposit r =
     (if f_le (dr_Amount r) (Fin 0) then Some ''amount must be greater than 0''
      else if dr_AccountCode r = '''' then Some ''account_code is required''
      else None)"

text \<open>One uploaded image: its path, or the empty string when there is none or it cannot be created.\<close>

definition save_image :: "string \<Rightarrow> string \<Rightarrow> string option \<Rightarrow> string prog" where
  "save_image i side content =
     (case content of
        None \<Rightarrow> Ret ''''
      | Some c \<Rightarrow>
          let path = ''data/images/'' @ i @ ''/'' @ side @ ''.jpg'' in
          bind (write_file path (ImageFile c)) (\<lambda>err. Ret (case err of None \<Rightarrow> path | Some _ \<Rightarrow> '''')))"

definition save_images :: "string \<Rightarrow> deposit_http \<Rightarrow> (string \<times> string) prog" where
  "save_images i h =
     (case (is_multipart h, dh_Form h) of
        (True, Some f) \<Rightarrow>
          ignoring (MkdirAll (''data/images/'' @ i))
          (bind (save_image i ''front'' (fm_FrontImage f)) (\<lambda>front.
           bind (save_image i ''back'' (fm_BackImage f)) (\<lambda>back.
             if front \<noteq> '''' \<or> back \<noteq> ''''
             then ignoring (SetImageRefs i front back) (Ret (front, back))
             else Ret (front, back))))
      | _ \<Rightarrow> Ret ('''', ''''))"

definition transfer_detail ::
  "Transfer \<Rightarrow> account_row \<Rightarrow> uuid \<Rightarrow> Correspondent \<Rightarrow> depositRequest \<Rightarrow> string \<Rightarrow> string \<times> string
     \<Rightarrow> TransferDetail" where
  "transfer_detail t acct corrID corr req xscenario refs =
     \<lparr>td_TransferID = tr_ID t, td_AccountID = a_id acct, td_CorrespondentID = corrID,
      td_Amount = dr_Amount req, td_AccountType = a_type acct, td_AccountStatus = a_status acct,
      td_ContributionType = '''', td_RulesConfig = co_RulesConfig corr,
      td_FrontImageRef = fst refs, td_BackImageRef = snd refs,
      td_Scenario = (if dr_Scenario req = '''' then xscenario else dr_Scenario req)\<rparr>"

text \<open>After the transfer has been created.\<close>

definition run_deposit ::
  "deposit_http \<Rightarrow> depositRequest \<Rightarrow> account_row \<Rightarrow> uuid \<Rightarrow> Correspondent \<Rightarrow> Transfer \<Rightarrow> response prog" where
  "run_deposit h req acct corrID corr t =
     ignoring (WriteEvent (tr_ID t) ''submitted'' ''system''
         [(''amount'', JNum (dr_Amount req)), (''account_code'', JStr (dr_AccountCode req))])
     (bind (save_images (tr_ID t) h) (\<lambda>refs.
      bind (ProcessDeposit orchDeps (transfer_detail t acct corrID corr req (dh_XScenario h) refs)) (\<lambda>_.
      bind (GetByID (tr_ID t)) (\<lambda>r. Ret (case r of
          Inl _ \<Rightarrow> error_json 500 ''internal error''
        | Inr updated \<Rightarrow> writeJSON 201 (JObj (transferToJSON updated)))))))"

definition create_transfer ::
  "deposit_http \<Rightarrow> depositRequest \<Rightarrow> account_row \<Rightarrow> uuid \<Rightarrow> response prog" where
  "create_transfer h req acct corrID =
     bind (Correspondents_GetByID corrID) (\<lambda>r. case r of
       Inl _ \<Rightarrow> Ret (error_json 500 ''internal error'')
     | Inr corr \<Rightarrow>
         bind (GetOmnibusForCorrespondent corrID) (\<lambda>r. case r of
           Inl _ \<Rightarrow> Ret (error_json 500 ''internal error'')
         | Inr omnibusID \<Rightarrow>
             bind (Create \<lparr>ci_AccountID = a_id acct, ci_FromAccountID = omnibusID,
                     ci_CorrespondentID = corrID, ci_Amount = dr_Amount req\<rparr>) (\<lambda>r. case r of
               Inl _ \<Rightarrow> Ret (error_json 500 ''failed to create transfer'')
             | Inr t \<Rightarrow> run_deposit h req acct corrID corr t)))"

definition CreateDeposit :: "deposit_http \<Rightarrow> response prog" where
  "CreateDeposit h =
     (case decode_deposit h of
        Inl msg \<Rightarrow> Ret (error_json 400 msg)
      | Inr req \<Rightarrow>
        (case check_deposit req of
           Some msg \<Rightarrow> Ret (error_json 400 msg)
         | None \<Rightarrow>
             bind (GetByCode (dr_AccountCode req)) (\<lambda>r. case r of
               Inl _ \<Rightarrow> Ret (error_json 404 ''account not found'')
             | Inr acct \<Rightarrow>
                 (case a_correspondent_id acct of
                    None \<Rightarrow> Ret (error_json 400 ''cannot deposit to this account type'')
                  | Some corrID \<Rightarrow> create_transfer h req acct corrID))))"

section \<open>The read-only endpoints\<close>

definition transfers_json :: "go_error + Transfer list \<Rightarrow> response" where
  "transfers_json r =
     (case r of
        Inl _ \<Rightarrow> error_json 500 ''internal error''
      | Inr ts \<Rightarrow> writeJSON 200 (JArr (map (\<lambda>t. JObj (transferToJSON t)) ts)))"

definition ListDeposits :: "string \<Rightarrow> response prog" where
  "ListDeposits accountID =
     bind (if accountID \<noteq> '''' then ListByAccountID accountID else ListRecent 50)
       (\<lambda>r. Ret (transfers_json r))"

definition ListAccounts :: "response prog" where
  "ListAccounts =
     bind ListInvestorAccounts (\<lambda>r. Ret (case r of
         Inl _ \<Rightarrow> error_json 500 ''internal error''
       | Inr accts \<Rightarrow> writeJSON 200 (JArr (map (\<lambda>a. JObj
           ([(''id'', JStr (a_id a)), (''code'', JStr (a_code a)), (''type'', JStr (a_type a))]
            @ optional ''correspondent_id'' JStr (a_correspondent_id a))) accts))))"

definition GetAccount :: "string \<Rightarrow> response prog" where
  "GetAccount code =
     (if code = '''' then Ret (error_json 400 ''missing account code'')
      else bind (GetByCode code) (\<lambda>r. case r of
        Inl _ \<Rightarrow> Ret (error_json 404 ''account not found'')
      | Inr acct \<Rightarrow>
          bind (ls_GetBalance (dp_Ledger orchDeps) (a_id acct)) (\<lambda>b. Ret (writeJSON 200 (JObj
            ([(''id'', JStr (a_id acct)), (''code'', JStr (a_code acct)), (''type'', JStr (a_type acct)),
              (''status'', JStr (a_status acct))]
             @ optional ''correspondent_id'' JStr (a_correspondent_id acct)
             @ (case b of Inl _ \<Rightarrow> [] | Inr bal \<Rightarrow> [(''balance'', JStr bal)])))))))"

definition GetDeposit :: "string \<Rightarrow> response prog" where
  "GetDeposit i =
     (if i = '''' then Ret (error_json 400 ''missing transfer id'')
      else bind (GetByID i) (\<lambda>r. Ret (case r of
          Inl _ \<Rightarrow> error_json 404 ''transfer not found''
        | Inr t \<Rightarrow> writeJSON 200 (JObj (transferToJSON t)))))"

definition event_json :: "event_row \<Rightarrow> jval" where
  "event_json v =
     JObj [(''id'', JStr (ev_id v)), (''transfer_id'', JStr (ev_transfer_id v)), (''step'', JStr (ev_step v)),
       (''actor'', JStr (ev_actor v)), (''data'', JObj (ev_data v)), (''created_at'', JTime (ev_created_at v))]"

text \<open>A nil slice of events is encoded as \<open>null\<close>.\<close>

definition json_slice :: "jval list \<Rightarrow> jval" where
  "json_slice vs = (if vs = [] then JNull else JArr vs)"

definition GetDepositEvents :: "string \<Rightarrow> response prog" where
  "GetDepositEvents i =
     (if i = '''' then Ret (error_json 400 ''missing transfer id'')
      else bind (GetEvents i) (\<lambda>r. Ret (case r of
          Inl _ \<Rightarrow> error_json 500 ''internal error''
        | Inr evs \<Rightarrow> writeJSON 200 (json_slice (map event_json evs)))))"

text \<open>\<open>GET /deposits/{id}/images/{side}\<close>: only a missing file is a 404; \<open>http.ServeFile\<close> answers another
  failure with 500.\<close>

definition GetDepositImage :: "string \<Rightarrow> string \<Rightarrow> response prog" where
  "GetDepositImage i side =
     (if side \<noteq> ''front'' \<and> side \<noteq> ''back''
      then Ret (error_json 400 (''side must be '' @ [CHR 0x27] @ ''front'' @ [CHR 0x27] @ '' or '' @ [CHR 0x27] @ ''back'' @ [CHR 0x27]))
      else bind (read_file (''data/images/'' @ i @ ''/'' @ side @ ''.jpg'')) (\<lambda>r. Ret (case r of
          Inl err \<Rightarrow> (if err = EDriver ''no such file'' then error_json 404 ''image not found''
                      else http_Error ''500 Internal Server Error'' 500)
        | Inr (ImageFile c) \<Rightarrow> \<lparr>rs_Status = 200, rs_Body = FileBody c, rs_Replay = False\<rparr>
        | Inr (JsonFile f) \<Rightarrow> error_json 404 ''image not found'')))"

end
