(* ===== verification/ReturnFlow.thy ===== *)
theory ReturnFlow
  imports Returns
begin

text \<open>
  The outcome of \<open>ProcessReturn\<close> with the production wiring, without faults: what it posts, what it
  leaves behind on every branch, and when the account is flagged.
\<close>

section \<open>Balances as Go reads them\<close>

lemma of_cents_negative:
  assumes "\<bar>c\<bar> \<le> 10 ^ 14"
  shows "f_lt (of_cents c) (Fin 0) \<longleftrightarrow> c < 0"
proof -
  obtain y where y: "of_cents c = Fin y" "\<bar>y - of_int c / 100\<bar> \<le> \<bar>of_int c / 100\<bar> / 2 ^ 53"
    using assms by (rule of_cents_error)
  define x where "x = (of_int c / 100 :: rat)"
  have "\<bar>x\<bar> / 2 ^ 53 \<le> \<bar>x\<bar> / 2" by (simp add: field_simps)
  with y(2) have e: "\<bar>y - x\<bar> \<le> \<bar>x\<bar> / 2" by (simp add: x_def)
  have "y < 0 \<longleftrightarrow> x < 0"
  proof (cases "x = 0")
    case False
    with e show ?thesis by (auto simp: abs_if split: if_splits)
  qed (use e in simp)
  then show ?thesis by (simp add: y(1) x_def divide_less_0_iff)
qed

lemma ParseFloat_sum_text:
  assumes "nan_free rows" "rows \<noteq> []"
  shows "ParseFloat (sum_text rows) = Some (of_cents (ledger_total rows))"
  using assms by (simp add: sum_text_cents ParseFloat_cents_text)

section \<open>Loading\<close>

lemma run_parse_or_nil:
  "canonical e s \<Longrightarrow> run (parse_or_nil s) e w = (Done s, w)"
  by (simp add: parse_or_nil_def run_simps canonical_def)

text \<open>The transfer as the adapter loads it, and what it looks up.\<close>

definition loaded :: "transfer_row \<Rightarrow> RTransfer" where
  "loaded r = \<lparr>rt_ID = t_id r, rt_AccountID = t_account_id r, rt_OmnibusID = t_from_account_id r,
     rt_CorrespondentID = t_correspondent_id r, rt_Amount = numeric_float (t_amount r), rt_State = t_state r\<rparr>"

lemma loaded_simps [simp]:
  "rt_AccountID (loaded r) = t_account_id r" "rt_OmnibusID (loaded r) = t_from_account_id r"
  "rt_CorrespondentID (loaded r) = t_correspondent_id r" "rt_Amount (loaded r) = numeric_float (t_amount r)"
  "rt_State (loaded r) = t_state r"
  by (simp_all add: loaded_def)

definition fee_of :: "db \<Rightarrow> uuid \<Rightarrow> float64 option" where
  "fee_of d corr = (case row_of c_id corr (correspondents d) of
       None \<Rightarrow> None
     | Some co \<Rightarrow> map_option (\<lambda>rules. ReturnedCheck (Fees rules)) (c_rules_config co))"

definition fee_account :: "db \<Rightarrow> uuid option" where
  "fee_account d = map_option a_id (row_of a_code ''FEE-APEX'' (accounts d))"

lemma run_Adapter_GetTransfer:
  assumes "fault_free e" "canonical e i" "transfer_of (w_db w) i = Some r"
    "canonical e (t_account_id r)" "canonical e (t_from_account_id r)" "canonical e (t_correspondent_id r)"
  shows "run (Adapter_GetTransfer i) e w = (Done (Inr (loaded r)), (tick w)\<lparr>w_db := w_db w\<rparr>)"
  by (simp add: Adapter_GetTransfer_def run_bind run_GetByID assms scanTransferFull_def run_parse_or_nil loaded_def)

lemma returns_lookups:
  assumes "fault_free e"
  shows "returns (Adapter_GetReturnedCheckFee corr) e w (\<lambda>r w'. w_db w' = w_db w \<and>
      (case fee_of (w_db w) corr of Some fee \<Rightarrow> r = Inr fee | None \<Rightarrow> \<exists>er. r = Inl er))"
    and "returns Adapter_GetFeeAccountID e w (\<lambda>r w'. w_db w' = w_db w \<and>
      (case fee_account (w_db w) of Some a \<Rightarrow> r = Inr a | None \<Rightarrow> \<exists>er. r = Inl er))"
  by (auto simp: Adapter_GetReturnedCheckFee_def Correspondents_GetByID_def Adapter_GetFeeAccountID_def
      GetByCode_def returns_bind returns_sql [OF assms] run_simps fee_of_def fee_account_def scanAccount_def
      split: option.splits)

text \<open>A return of a returnable transfer comes down to its postings, with the fee and the fee account found.\<close>

lemma returns_ProcessReturn:
  assumes e: "fault_free e" and r: "transfer_of (w_db w) i = Some r" "t_state r = FundsPosted \<or> t_state r = Completed"
    and ids: "canonical e i" "canonical e (t_account_id r)" "canonical e (t_from_account_id r)"
      "canonical e (t_correspondent_id r)"
    and post: "\<And>w1 fee acct. flow i (t_state r) (t_error_code r) (t_review_reason r) [] (w_db w) (w_db w1) \<Longrightarrow>
      fee_of (w_db w) (t_correspondent_id r) = Some fee \<Longrightarrow> fee_account (w_db w) = Some acct \<Longrightarrow>
      returns (post_return returnDeps \<lparr>in_TransferID = i, in_ReasonCode = code\<rparr> (loaded r) fee acct) e w1 Q"
    and failed: "\<And>w1 er. flow i (t_state r) (t_error_code r) (t_review_reason r) [] (w_db w) (w_db w1) \<Longrightarrow>
      fee_of (w_db w) (t_correspondent_id r) = None \<or> fee_account (w_db w) = None \<Longrightarrow> Q (Some er) w1"
  shows "returns (ProcessReturn returnDeps \<lparr>in_TransferID = i, in_ReasonCode = code\<rparr>) e w Q"
proof -
  let ?inp = "\<lparr>in_TransferID = i, in_ReasonCode = code\<rparr>"
  let ?going = "\<lambda>w1. flow i (t_state r) (t_error_code r) (t_review_reason r) [] (w_db w) (w_db w1)"
  have acct: "returns (bind Adapter_GetFeeAccountID (\<lambda>r'. case r' of
      Inl er \<Rightarrow> Ret (Some (EWrap ''returns: get fee account'' er))
    | Inr feeAccountID \<Rightarrow> post_return returnDeps ?inp (loaded r) fee feeAccountID)) e w1 Q"
    if w1: "?going w1" and fee: "fee_of (w_db w) (t_correspondent_id r) = Some fee" for w1 fee
  proof (rule returns_bindI [OF returns_lookups(2) [OF e]], goal_cases)
    case (1 res w2)
    moreover have "fee_account (w_db w1) = fee_account (w_db w)"
      using w1 by (auto elim!: flowE simp: fee_account_def)
    ultimately show ?case
      using w1 fee post [of w2] failed [of w2] by (cases "fee_account (w_db w)") auto
  qed
  have "returns (return_transfer returnDeps ?inp (loaded r)) e w1 Q" if w1: "?going w1" for w1
    unfolding return_transfer_def returnDeps_simps ReturnInput.select_convs loaded_simps
  proof (rule event_then [OF e ids(1) w1], rule returns_bindI [OF returns_lookups(1) [OF e]], goal_cases)
    case (1 w2 res w3)
    moreover have "fee_of (w_db w2) (t_correspondent_id r) = fee_of (w_db w) (t_correspondent_id r)"
      using 1(1) by (auto elim!: flowE simp: fee_of_def)
    ultimately show ?case
      using acct [of w3] failed [of w3] by (cases "fee_of (w_db w) (t_correspondent_id r)") auto
  qed
  from this [of "(tick w)\<lparr>w_db := w_db w\<rparr>"] show ?thesis
    using r(2) flow_start [OF r(1)]
    by (auto simp: ProcessReturn_def Let_def returns_def run_bind run_Adapter_GetTransfer [OF e ids(1) r(1) ids(2-4)])
qed

section \<open>A complete return\<close>

text \<open>When a return goes through: the amounts are positive cents, the accounts and the rules exist, ids
  are canonical and fresh, and the transfer has no reversal and no fee yet.\<close>

definition returnable :: "env \<Rightarrow> transfer_row \<Rightarrow> uuid \<Rightarrow> int \<Rightarrow> int \<Rightarrow> db \<Rightarrow> bool" where
  "returnable e r feeAcct c f d \<longleftrightarrow>
     t_amount r = Num c \<and> 0 < c \<and> c < 10 ^ 12 \<and> 0 < f \<and> f < 10 ^ 12 \<and>
     canonical e (t_id r) \<and> canonical e (t_account_id r) \<and> canonical e (t_from_account_id r) \<and>
     canonical e (t_correspondent_id r) \<and>
     (\<exists>co rules. row_of c_id (t_correspondent_id r) (correspondents d) = Some co \<and>
        c_rules_config co = Some rules \<and> ReturnedCheck (Fees rules) = of_cents f) \<and>
     (\<exists>a. row_of a_code ''FEE-APEX'' (accounts d) = Some a \<and> a_id a = feeAcct) \<and>
     account_of d (t_account_id r) \<noteq> None \<and> account_of d (t_from_account_id r) \<noteq> None \<and>
     account_of d feeAcct \<noteq> None \<and>
     t_account_id r \<noteq> t_from_account_id r \<and> t_account_id r \<noteq> feeAcct \<and>
     fresh_window e \<and>
     (\<forall>n. fresh_uuid e n \<notin> l_id ` set (ledger_entries d)) \<and>
     (\<forall>l \<in> set (ledger_entries d). l_transfer_id l = t_id r \<longrightarrow> l_entry_type l = EntryTypeProvisionalCredit) \<and>
     nan_free (ledger_entries d) \<and> \<bar>balance (ledger_entries d) (t_account_id r)\<bar> \<le> 10 ^ 13"

definition reversal_and_fee :: "transfer_row \<Rightarrow> uuid \<Rightarrow> int \<Rightarrow> int \<Rightarrow> ledger_row list \<Rightarrow> bool" where
  "reversal_and_fee r feeAcct c f new \<longleftrightarrow>
     (\<exists>rev fee. new = rev @ fee \<and>
        posting EntryTypeReversal (Num c) (t_account_id r) (t_from_account_id r) ''REVERSAL'' (t_id r) rev \<and>
        posting EntryTypeFee (Num f) (t_account_id r) feeAcct ''RETURNED_CHECK_FEE'' (t_id r) fee)"

lemma posting_posted_rows: "posting et (Num c) dr cr memo i (posted_rows e n et dr cr c memo i)"
  by (simp add: posting_def posted_rows_eq ledger_pair_def)

lemma posted_rows_simps:
  "l_id ` set (posted_rows e n et dr cr c memo i) = {fresh_uuid e (n + 1), fresh_uuid e (n + 2)}"
  "entry_key ` set (posted_rows e n et dr cr c memo i) = {(i, et, dr, SideDebit), (i, et, cr, SideCredit)}"
  "nan_free (posted_rows e n et dr cr c memo i)"
  by (simp_all add: posted_rows_eq entry_key_def)

lemma flow_balance:
  assumes "reversal_and_fee r feeAcct c f new" "t_account_id r \<noteq> t_from_account_id r" "t_account_id r \<noteq> feeAcct"
  shows "balance new (t_account_id r) = - (c + f)" "nan_free new" "new \<noteq> []"
  using assms
  by (auto simp: reversal_and_fee_def balance_append posting_balance)
     (auto simp: posting_def ledger_pair_def)

text \<open>What a complete return leaves: the four entries, the state, the investor's notification, and the
  status of the account when its balance is negative.\<close>

definition complete_return ::
  "transfer_row \<Rightarrow> string \<Rightarrow> uuid \<Rightarrow> int \<Rightarrow> int \<Rightarrow> db \<Rightarrow> db \<Rightarrow> bool" where
  "complete_return r code feeAcct c f d0 d \<longleftrightarrow>
     (\<exists>ec rr new. flow (t_id r) Returned ec rr new d0 (d\<lparr>accounts := accounts d0\<rparr>) \<and>
        reversal_and_fee r feeAcct c f new) \<and>
     list_ex (\<lambda>n. n_account_id n = t_account_id r \<and> n_transfer_id n = Some (t_id r) \<and>
        n_type n = ''RETURN_RECEIVED'' \<and>
        n_message n = return_message (of_cents c) code (of_cents f)) (notifications d) \<and>
     accounts d = (if balance (ledger_entries d0) (t_account_id r) < c + f
        then upd_row a_id (t_account_id r) (\<lambda>a. a\<lparr>a_status := ''COLLECTIONS''\<rparr>) (accounts d0)
        else accounts d0)"

lemma run_flag_negative:
  assumes "fault_free e" "nan_free (ledger_entries (w_db w))" "\<bar>balance (ledger_entries (w_db w)) a\<bar> \<le> 10 ^ 14"
    "filter (\<lambda>l. l_account_id l = a) (ledger_entries (w_db w)) \<noteq> []"
  shows "returns (flag_negative returnDeps a) e w (\<lambda>err w'. err = None \<and>
     w_db w' = (if balance (ledger_entries (w_db w)) a < 0
        then (w_db w)\<lparr>accounts := upd_row a_id a (\<lambda>a. a\<lparr>a_status := ''COLLECTIONS''\<rparr>) (accounts (w_db w))\<rparr>
        else w_db w))"
proof -
  let ?rows = "filter (\<lambda>l. l_account_id l = a) (ledger_entries (w_db w))"
  have "run (GetBalance a) e w = (Done (Inr (sum_text ?rows)), (tick w)\<lparr>w_db := w_db w\<rparr>)"
    by (simp add: GetBalance_def Store_GetBalance_def run_simps assms(1) GetBalance_stmt_def)
  moreover have "ParseFloat (sum_text ?rows) = Some (of_cents (balance (ledger_entries (w_db w)) a))"
    using assms(2,4) by (simp add: ParseFloat_sum_text nan_free_filter balance_total)
  moreover have "f_lt (of_cents (balance (ledger_entries (w_db w)) a)) (Fin 0) \<longleftrightarrow>
      balance (ledger_entries (w_db w)) a < 0"
    using assms(3) by (rule of_cents_negative)
  ultimately show ?thesis
    by (simp add: returns_def flag_negative_def run_simps assms(1) ignoring_def SetStatus_def)
qed

text \<open>The end of a return: the notification and the flag of the account.\<close>

lemma complete_returnI:
  assumes flow: "flow (t_id r) Returned ec rr new d0 d'" and new: "reversal_and_fee r feeAcct c f new"
    and n: "n_account_id n = t_account_id r" "n_transfer_id n = Some (t_id r)" "n_type n = ''RETURN_RECEIVED''"
      "n_message n = return_message (of_cents c) code (of_cents f)"
    and d3: "d3 = (let d2 = d'\<lparr>notifications := notifications d' @ [n]\<rparr>
      in if balance (ledger_entries d0) (t_account_id r) - (c + f) < 0
        then d2\<lparr>accounts := upd_row a_id (t_account_id r) (\<lambda>a. a\<lparr>a_status := ''COLLECTIONS''\<rparr>) (accounts d2)\<rparr>
        else d2)"
  shows "complete_return r code feeAcct c f d0 d3"
proof -
  from flow have acc: "accounts d' = accounts d0" by (rule flowE)
  then have "d'\<lparr>notifications := x, accounts := accounts d0\<rparr> = d'\<lparr>notifications := x\<rparr>" for x
    by (cases d') simp
  then have "flow (t_id r) Returned ec rr new d0 (d3\<lparr>accounts := accounts d0\<rparr>)"
    using flow by (simp add: d3 Let_def)
  then have "\<exists>ec rr new. flow (t_id r) Returned ec rr new d0 (d3\<lparr>accounts := accounts d0\<rparr>) \<and>
      reversal_and_fee r feeAcct c f new"
    using new by blast
  then show ?thesis unfolding complete_return_def by (simp add: d3 acc n Let_def)
qed

lemma notify_and_flag:
  assumes e: "fault_free e" and ok: "returnable e r feeAcct c f d0" "transfer_of d0 (t_id r) \<noteq> None"
    and new: "reversal_and_fee r feeAcct c f new"
    and flow: "flow (t_id r) Returned ec rr new d0 (w_db w)"
  shows "returns (ignoring (CreateNotification (t_account_id r) (t_id r) ''RETURN_RECEIVED''
      (return_message (of_cents c) code (of_cents f))) (flag_negative returnDeps (t_account_id r))) e w
    (\<lambda>err w'. err = None \<and> complete_return r code feeAcct c f d0 (w_db w'))"
proof -
  let ?a = "t_account_id r"
  have bal: "balance new ?a = - (c + f)" "nan_free new"
    using flow_balance [OF new] ok(1) by (auto simp: returnable_def)
  have mem: "\<exists>l \<in> set new. l_account_id l = ?a"
    using new by (auto simp: reversal_and_fee_def posting_def)
  from flow obtain r' where d': "transfer_of (w_db w) (t_id r) = Some r'" "accounts (w_db w) = accounts d0"
    "ledger_entries (w_db w) = ledger_entries d0 @ new" by (rule flowE)
  define n where "n = \<lparr>n_id = fresh_uuid e (w_ticks w), n_account_id = ?a, n_transfer_id = Some (t_id r),
    n_type = ''RETURN_RECEIVED'', n_message = return_message (of_cents c) code (of_cents f),
    n_read_at = None, n_created_at = clock e (w_ticks w)\<rparr>"
  define w2 where "w2 = (tick w)\<lparr>w_db := (w_db w)\<lparr>notifications := notifications (w_db w) @ [n]\<rparr>\<rparr>"
  have run: "run (CreateNotification ?a (t_id r) ''RETURN_RECEIVED'' (return_message (of_cents c) code (of_cents f)))
      e w = (Done None, w2)"
    using ok(1) d' by (auto simp: CreateNotification_def run_simps e n_def w2_def returnable_def)
  have b: "balance (ledger_entries (w_db w2)) ?a = balance (ledger_entries d0) ?a - (c + f)"
    by (simp add: w2_def d' balance_append bal)
  have flag: "returns (flag_negative returnDeps ?a) e w2 (\<lambda>err w3. err = None \<and>
     w_db w3 = (if balance (ledger_entries (w_db w2)) ?a < 0
      then (w_db w2)\<lparr>accounts := upd_row a_id ?a (\<lambda>a. a\<lparr>a_status := ''COLLECTIONS''\<rparr>) (accounts (w_db w2))\<rparr>
      else w_db w2))"
  proof (rule run_flag_negative [OF e])
    show "nan_free (ledger_entries (w_db w2))" using ok(1) bal by (simp add: w2_def d' returnable_def)
    show "\<bar>balance (ledger_entries (w_db w2)) ?a\<bar> \<le> 10 ^ 14" using ok(1) b by (auto simp: returnable_def)
    show "filter (\<lambda>l. l_account_id l = ?a) (ledger_entries (w_db w2)) \<noteq> []"
      using mem by (auto simp: w2_def d' filter_empty_conv)
  qed
  have complete: "complete_return r code feeAcct c f d0 d3"
    if "d3 = (if balance (ledger_entries (w_db w2)) ?a < 0
      then (w_db w2)\<lparr>accounts := upd_row a_id ?a (\<lambda>a. a\<lparr>a_status := ''COLLECTIONS''\<rparr>) (accounts (w_db w2))\<rparr>
      else w_db w2)" for d3
    by (rule complete_returnI [OF flow new, of n]) (simp_all add: n_def that b, simp add: w2_def n_def)
  have "returns (flag_negative returnDeps ?a) e w2
      (\<lambda>err w3. err = None \<and> complete_return r code feeAcct c f d0 (w_db w3))"
    by (rule returns_mono [OF flag]) (use complete in blast)
  then show ?thesis by (simp add: ignoring_def returns_def run_bind run)
qed

lemma after_return_complete:
  assumes e: "fault_free e" "canonical e (t_id r)"
    and w: "flow (t_id r) Returned ec rr new d0 (w_db w)"
    and ok: "returnable e r feeAcct c f d0" "transfer_of d0 (t_id r) \<noteq> None"
    and new: "reversal_and_fee r feeAcct c f new"
    and t: "rt_AccountID t = t_account_id r" "rt_Amount t = of_cents c"
  shows "returns (after_return returnDeps \<lparr>in_TransferID = t_id r, in_ReasonCode = code\<rparr> t (t_id r) (of_cents f))
     e w (\<lambda>err w'. err = None \<and> complete_return r code feeAcct c f d0 (w_db w'))"
  unfolding after_return_def Let_def returnDeps_simps ReturnInput.select_convs t
  by (rule event_then [OF e w], erule event_then [OF e], erule notify_then [OF e(1)],
      erule notify_and_flag [OF e(1) ok new])

text \<open>The postings of a return: the entries are new, so the constraints let them in.\<close>

lemma reversal_postable:
  assumes "returnable e r feeAcct c f d0" "flow (t_id r) s ec rr [] d0 (w_db w)"
  shows "postable e w EntryTypeReversal (t_account_id r) (t_from_account_id r) c (t_id r)"
  using assms fresh_windowD [of e "w_ticks w + 1" "w_ticks w + 2"] unfolding returnable_def postable_def
  by (elim flowE) (force simp: entry_key_def)

lemma fee_postable:
  assumes ok: "returnable e r feeAcct c f d0"
    and w: "flow (t_id r) s ec rr (posted_rows e n EntryTypeReversal (t_account_id r) (t_from_account_id r) c
      ''REVERSAL'' (t_id r)) d0 (w_db w)"
    and n: "w_ticks w = n + 4"
  shows "postable e w EntryTypeFee (t_account_id r) feeAcct f (t_id r)"
proof -
  from w obtain r' where d: "transfer_of (w_db w) (t_id r) = Some r'" "accounts (w_db w) = accounts d0"
    "ledger_entries (w_db w) = ledger_entries d0 @ posted_rows e n EntryTypeReversal (t_account_id r)
      (t_from_account_id r) c ''REVERSAL'' (t_id r)" by (rule flowE)
  have win: "fresh_window e" using ok by (simp add: returnable_def)
  have fresh: "fresh_uuid e (w_ticks w + k) \<notin> l_id ` set (ledger_entries (w_db w))"
    if "k = 1 \<or> k = 2" for k
    using ok n that fresh_windowD [OF win, of "n + 1"] fresh_windowD [OF win, of "n + 2"]
    unfolding d(3) set_append image_Un posted_rows_simps(1) by (auto simp: returnable_def)
  have distinct: "fresh_uuid e (w_ticks w + 2) \<noteq> fresh_uuid e (w_ticks w + 1)"
    by (rule fresh_windowD [OF win]) simp_all
  have keys: "(t_id r, EntryTypeFee, a, sd) \<notin> entry_key ` set (ledger_entries (w_db w))" for a sd
    using ok unfolding d(3) set_append image_Un posted_rows_simps(2)
    by (auto simp: returnable_def entry_key_def)
  have f: "0 < f" "f < 10 ^ 12" "account_of d0 (t_account_id r) \<noteq> None" "account_of d0 feeAcct \<noteq> None"
    using ok unfolding returnable_def by blast+
  show ?thesis
    unfolding postable_def d(2) by (intro conjI fresh distinct keys f) (simp_all add: d(1))
qed

lemma post_return_complete:
  assumes e: "fault_free e" and ok: "returnable e r feeAcct c f d0" "transfer_of d0 (t_id r) = Some r"
    and w: "flow (t_id r) (t_state r) ec rr [] d0 (w_db w)"
  shows "returns (post_return returnDeps \<lparr>in_TransferID = t_id r, in_ReasonCode = code\<rparr> (loaded r) (of_cents f) feeAcct)
     e w (\<lambda>err w'. err = None \<and> complete_return r code feeAcct c f d0 (w_db w'))"
proof -
  have i: "canonical e (t_id r)" and c: "t_amount r = Num c" using ok(1) by (simp_all add: returnable_def)
  have fmt: "fmt2 (of_cents c) = cents_text c" "fmt2 (of_cents f) = cents_text f"
    using ok(1) by (auto simp: returnable_def intro!: fmt2_of_cents)
  let ?rev = "posted_rows e (w_ticks w) EntryTypeReversal (t_account_id r) (t_from_account_id r) c
      ''REVERSAL'' (t_id r)"
  note run1 = run_PostDoubleEntry [OF e return_memos(1) reversal_postable [OF ok(1) w]]
  define w1 where "w1 = w\<lparr>w_ticks := w_ticks w + 4,
     w_db := (w_db w)\<lparr>ledger_entries := ledger_entries (w_db w) @ ?rev\<rparr>\<rparr>"
  have w1: "flow (t_id r) (t_state r) ec rr ?rev d0 (w_db w1)"
    unfolding w1_def using flow_ledger [OF w] by simp
  let ?fee = "posted_rows e (w_ticks w1) EntryTypeFee (t_account_id r) feeAcct f ''RETURNED_CHECK_FEE'' (t_id r)"
  have "postable e w1 EntryTypeFee (t_account_id r) feeAcct f (t_id r)"
    by (rule fee_postable [OF ok(1) w1]) (simp add: w1_def)
  note run2 = run_PostDoubleEntry [OF e return_memos(2) this]
  define w2 where "w2 = w1\<lparr>w_ticks := w_ticks w1 + 4,
     w_db := (w_db w1)\<lparr>ledger_entries := ledger_entries (w_db w1) @ ?fee\<rparr>\<rparr>"
  have w2: "flow (t_id r) (t_state r) ec rr (?rev @ ?fee) d0 (w_db w2)"
    unfolding w2_def using flow_ledger_more [OF w1] by simp
  have new: "reversal_and_fee r feeAcct c f (?rev @ ?fee)"
    unfolding reversal_and_fee_def using posting_posted_rows by blast
  have "returns (finish_return returnDeps \<lparr>in_TransferID = t_id r, in_ReasonCode = code\<rparr> (loaded r) (of_cents f) (t_id r))
      e w2 (\<lambda>err w'. err = None \<and> complete_return r code feeAcct c f d0 (w_db w'))"
    unfolding finish_return_def returnDeps_simps ReturnInput.select_convs loaded_simps
    by (rule update_then [OF e i w2])
       (auto intro: after_return_complete [OF e i _ ok(1) _ new] simp: ok(2) c)
  then show ?thesis
    unfolding post_return_def post_fee_def returnDeps_simps orchDeps_simps ReturnInput.select_convs
      returns_bind [of "MustParse _"] returns_MustParse [OF i] loaded_simps c numeric_float.simps fmt
    by (simp add: returns_def run_bind run1 w1_def [symmetric] run2 w2_def [symmetric])
qed

lemma ProcessReturn_complete:
  assumes e: "fault_free e" and ok: "returnable e r feeAcct c f (w_db w)" "transfer_of (w_db w) i = Some r"
    and s: "t_state r = FundsPosted \<or> t_state r = Completed"
  shows "returns (ProcessReturn returnDeps \<lparr>in_TransferID = i, in_ReasonCode = code\<rparr>) e w
     (\<lambda>err w'. err = None \<and> complete_return r code feeAcct c f (w_db w) (w_db w'))"
proof -
  have tid: "t_id r = i" using row_of_key [OF ok(2)] .
  have ids: "canonical e i" "canonical e (t_account_id r)" "canonical e (t_from_account_id r)"
    "canonical e (t_correspondent_id r)" using ok(1) tid by (simp_all add: returnable_def)
  have "fee_of (w_db w) (t_correspondent_id r) = Some (of_cents f)" "fee_account (w_db w) = Some feeAcct"
    using ok(1) by (auto simp: returnable_def fee_of_def fee_account_def)
  then show ?thesis
    using post_return_complete [OF e ok(1)] ok(2)
    by (intro returns_ProcessReturn [OF e ok(2) s ids]) (auto simp: tid)
qed

end
