(* ===== verification/OperatorHandler.thy ===== *)
theory OperatorHandler
  imports DepositHandler ReturnFlow
begin

text \<open>
  \<open>cmd/api/handlers/operator.go\<close>, \<open>returns.go\<close> (its HTTP part), \<open>ledger.go\<close> and \<open>notifications.go\<close>: the
  operator's queue and actions, the settlement bank's return webhook, the ledger endpoints and the
  investor's notifications.
\<close>

section \<open>Operator queue\<close>

text \<open>The query parameters; the empty string is an absent one, \<open>None\<close> an amount that does not parse.\<close>

record queue_query =
  qq_MinAmount :: "float64 option"
  qq_MaxAmount :: "float64 option"
  qq_AccountID :: string
  qq_SortBy :: string

definition amount_or_zero :: "float64 option \<Rightarrow> float64" where
  "amount_or_zero x = (case x of None \<Rightarrow> Fin 0 | Some a \<Rightarrow> a)"

definition queue_filter :: "ctx \<Rightarrow> queue_query \<Rightarrow> QueueFilter" where
  "queue_filter c q =
     \<lparr>qf_CorrespondentID = CorrespondentIDFromContext c, qf_MinAmount = amount_or_zero (qq_MinAmount q),
      qf_MaxAmount = amount_or_zero (qq_MaxAmount q), qf_AccountID = qq_AccountID q,
      qf_SortBy = qq_SortBy q\<rparr>"

definition GetQueue :: "queue_query \<Rightarrow> ctx \<Rightarrow> response prog" where
  "GetQueue q c = bind (ListQueue (queue_filter c q)) (\<lambda>r. Ret (transfers_json r))"

section \<open>Operator actions\<close>

record actionRequest =
  ac_TransferID :: string
  ac_Action :: string
  ac_Reason :: string
  ac_ContributionTypeOverride :: string

definition isReviewable :: "Transfer \<Rightarrow> bool" where
  "isReviewable t \<longleftrightarrow>
     (if tr_State t = Analyzing \<and> tr_ReviewReason t \<noteq> None then True
      else if tr_State t = Validating then True
      else False)"

definition not_reviewable_msg :: "TransferState \<Rightarrow> string" where
  "not_reviewable_msg s = ''transfer in state '' @ state_text s @ '' is not reviewable''"

definition action_event :: "string \<Rightarrow> actionRequest \<Rightarrow> json" where
  "action_event operatorID req =
     [(''operator_id'', JStr operatorID), (''action'', JStr (ac_Action req))]
     @ (if ac_Reason req \<noteq> '''' then [(''reason'', JStr (ac_Reason req))] else [])
     @ (if ac_ContributionTypeOverride req \<noteq> ''''
        then [(''contribution_type_override'', JStr (ac_ContributionTypeOverride req))] else [])"

text \<open>The last part of both actions.\<close>

definition respond_updated :: "string \<Rightarrow> response prog" where
  "respond_updated i =
     bind (GetByID i) (\<lambda>r. Ret (case r of
         Inl _ \<Rightarrow> error_json 500 ''internal error''
       | Inr updated \<Rightarrow> writeJSON 200 (JObj (transferToJSON updated))))"

definition approve_post :: "Deps \<Rightarrow> string \<Rightarrow> Transfer \<Rightarrow> response prog" where
  "approve_post d i t =
     bind (MustParse (tr_FromAccountID t)) (\<lambda>omnibusID.
     bind (MustParse (tr_AccountID t)) (\<lambda>accountID.
     bind (MustParse (tr_ID t)) (\<lambda>transferUUID.
     bind (ls_PostDoubleEntry (dp_Ledger d) omnibusID accountID (fmt2 (tr_Amount t)) ''FREE'' transferUUID)
       (\<lambda>err. case err of
         Some er \<Rightarrow> Ret (error_json 500 ''ledger post failed'')
       | None \<Rightarrow>
           ignoring (dp_Events d i ''ledger_posted'' ''system''
               [(''debit_account'', JStr omnibusID), (''credit_account'', JStr accountID),
                (''amount'', JNum (tr_Amount t))])
           (bind (Transition (dp_Updater d) (dp_Events d) (dp_Notifier d) i Approved FundsPosted)
             (\<lambda>err. case err of
               Some er \<Rightarrow> Ret (error_json 500 ''transition failed'')
             | None \<Rightarrow> respond_updated i))))))"

definition approve_action :: "Deps \<Rightarrow> string \<Rightarrow> Transfer \<Rightarrow> response prog" where
  "approve_action d i t =
     bind (Transition (dp_Updater d) (dp_Events d) (dp_Notifier d) i Analyzing Approved) (\<lambda>err. case err of
       Some er \<Rightarrow> Ret (error_json 500 ''transition failed'')
     | None \<Rightarrow> approve_post d i t)"

definition reject_action :: "Deps \<Rightarrow> actionRequest \<Rightarrow> Transfer \<Rightarrow> response prog" where
  "reject_action d req t =
     (let i = ac_TransferID req;
          fromState = (if tr_State t = Validating then Validating else Analyzing) in
      ignoring (if ac_Reason req \<noteq> '''' then SetErrorCode i (ac_Reason req) else Ret None)
      (bind (Transition (dp_Updater d) (dp_Events d) (dp_Notifier d) i fromState Rejected) (\<lambda>err. case err of
        Some er \<Rightarrow> Ret (error_json 500 ''transition failed'')
      | None \<Rightarrow> respond_updated i)))"

definition perform_action :: "string \<Rightarrow> actionRequest \<Rightarrow> Transfer \<Rightarrow> response prog" where
  "perform_action operatorID req t =
     (let i = ac_TransferID req in
      ignoring (WriteEvent i ''operator_action'' operatorID (action_event operatorID req))
      (ignoring (if ac_ContributionTypeOverride req \<noteq> ''''
                 then SetContributionType i (ac_ContributionTypeOverride req) else Ret None)
       (if ac_Action req = ''APPROVE'' then approve_action orchDeps i t
        else reject_action orchDeps req t)))"

definition PostAction :: "actionRequest option \<Rightarrow> ctx \<Rightarrow> response prog" where
  "PostAction body c =
     (case body of
        None \<Rightarrow> Ret (error_json 400 ''invalid JSON body'')
      | Some req \<Rightarrow>
          if ac_TransferID req = '''' \<or> (ac_Action req \<noteq> ''APPROVE'' \<and> ac_Action req \<noteq> ''REJECT'')
          then Ret (error_json 400 ''transfer_id and action (APPROVE or REJECT) are required'')
          else bind (GetByID (ac_TransferID req)) (\<lambda>r. case r of
            Inl _ \<Rightarrow> Ret (error_json 404 ''transfer not found'')
          | Inr t \<Rightarrow>
              if CorrespondentIDFromContext c \<noteq> '''' \<and> tr_CorrespondentID t \<noteq> CorrespondentIDFromContext c
              then Ret (error_json 404 ''transfer not found'')
              else if \<not> isReviewable t then Ret (error_json 400 (not_reviewable_msg (tr_State t)))
              else perform_action (OperatorIDFromContext c) req t))"

section \<open>Return webhook\<close>

record returnRequest =
  rr_TransferID :: string
  rr_ReturnReasonCode :: string

definition not_returnable_msg :: "TransferState \<Rightarrow> string" where
  "not_returnable_msg s =
     ''transfer in state '' @ state_text s @ '' cannot be returned (expected FundsPosted or Completed)''"

definition ReturnHandler_ProcessReturn :: "returnRequest option \<Rightarrow> response prog" where
  "ReturnHandler_ProcessReturn body =
     (case body of
        None \<Rightarrow> Ret (error_json 400 ''invalid JSON body'')
      | Some req \<Rightarrow>
          let i = rr_TransferID req in
          if i = '''' then Ret (error_json 400 ''transfer_id is required'')
          else bind (uuid_Parse i) (\<lambda>u. case u of
            None \<Rightarrow> Ret (error_json 400 ''transfer_id must be a valid UUID'')
          | Some _ \<Rightarrow>
              bind (GetByID i) (\<lambda>r. case r of
                Inl err \<Rightarrow>
                  Ret (if ErrorsIs err ErrNotFound then error_json 404 ''transfer not found''
                       else error_json 500 ''internal error'')
              | Inr t \<Rightarrow>
                  bind (ProcessReturn returnDeps
                          \<lparr>in_TransferID = i, in_ReasonCode = rr_ReturnReasonCode req\<rparr>) (\<lambda>err. case err of
                    None \<Rightarrow> respond_updated i
                  | Some er \<Rightarrow> Ret (if AsInvalidReturnState er \<noteq> None
                                    then error_json 400 (not_returnable_msg (tr_State t))
                                    else error_json 500 ''internal error'')))))"

section \<open>Ledger endpoints\<close>

definition seed_accounts :: "(string \<times> string \<times> string) list" where
  "seed_accounts =
     [(''a0000000-0000-0000-0000-000000000001'', ''ALPHA-001'', ''INDIVIDUAL''),
      (''a0000000-0000-0000-0000-000000000002'', ''ALPHA-002'', ''INDIVIDUAL''),
      (''a0000000-0000-0000-0000-000000000003'', ''ALPHA-003'', ''INDIVIDUAL''),
      (''a0000000-0000-0000-0000-000000000004'', ''ALPHA-004'', ''INDIVIDUAL''),
      (''a0000000-0000-0000-0000-000000000005'', ''ALPHA-005'', ''INDIVIDUAL''),
      (''a0000000-0000-0000-0000-000000000006'', ''ALPHA-IRA'', ''IRA''),
      (''a0000000-0000-0000-0000-000000000007'', ''BETA-001'', ''INDIVIDUAL''),
      (''a0000000-0000-0000-0000-000000000008'', ''BETA-002'', ''INDIVIDUAL''),
      (''a0000000-0000-0000-0000-000000000009'', ''BETA-IRA'', ''IRA''),
      (''a0000000-0000-0000-0000-000000000010'', ''OMNIBUS-ALPHA'', ''OMNIBUS''),
      (''a0000000-0000-0000-0000-000000000011'', ''OMNIBUS-BETA'', ''OMNIBUS''),
      (''a0000000-0000-0000-0000-000000000012'', ''FEE-APEX'', ''FEE'')]"

text \<open>A failed lookup counts as \<open>"0.00"\<close>.\<close>

fun collect_balances :: "LedgerService \<Rightarrow> (string \<times> string \<times> string) list \<Rightarrow> jval list \<Rightarrow> jval list prog" where
  "collect_balances ls [] acc = Ret acc"
| "collect_balances ls ((i, code, typ) # rest) acc =
     bind (MustParse i) (\<lambda>aid.
     bind (ls_GetBalance ls aid) (\<lambda>r.
       let bal = (case r of Inl _ \<Rightarrow> ''0.00'' | Inr b \<Rightarrow> b) in
       collect_balances ls rest (acc @ [JObj [(''account_id'', JStr i), (''code'', JStr code),
         (''type'', JStr typ), (''balance'', JStr bal)]])))"

definition GetBalances :: "response prog" where
  "GetBalances = bind (collect_balances ledgerService seed_accounts []) (\<lambda>bs. Ret (writeJSON 200 (JArr bs)))"

fun side_text :: "Side \<Rightarrow> string" where
  "side_text SideDebit = ''DEBIT''"
| "side_text SideCredit = ''CREDIT''"

fun entry_type_text :: "EntryType \<Rightarrow> string" where
  "entry_type_text EntryTypeProvisionalCredit = ''PROVISIONAL_CREDIT''"
| "entry_type_text EntryTypeReversal = ''REVERSAL''"
| "entry_type_text EntryTypeFee = ''FEE''"

text \<open>The zero \<open>time.Time\<close>, 1 January of year 1, in nanoseconds since the Unix epoch.\<close>

definition zero_time :: instant where
  "zero_time = - 62135596800 * 10 ^ 9"

text \<open>\<open>ledger.LedgerEntry\<close> has no JSON tags: the members have the Go field names.\<close>

definition entry_json :: "LedgerEntry \<Rightarrow> jval" where
  "entry_json le =
     JObj [(''ID'', JStr (le_ID le)), (''MovementID'', JStr (le_MovementID le)),
       (''TransferID'', JStr (le_TransferID le)), (''AccountID'', JStr (le_AccountID le)),
       (''Side'', JStr (side_text (le_Side le))), (''Amount'', JStr (le_Amount le)),
       (''EntryType'', JStr (entry_type_text (le_EntryType le))), (''Memo'', JStr (le_Memo le)),
       (''CreatedAt'', JTime (case le_CreatedAt le of None \<Rightarrow> zero_time | Some t \<Rightarrow> t))]"

definition GetEntries_handler :: "string \<Rightarrow> response prog" where
  "GetEntries_handler transferID =
     (if transferID = '''' then Ret (error_json 400 ''transfer_id query param required'')
      else bind (uuid_Parse transferID) (\<lambda>u. case u of
        None \<Rightarrow> Ret (error_json 400 ''invalid transfer_id'')
      | Some tid \<Rightarrow>
          bind (ls_GetEntries ledgerService tid) (\<lambda>r. Ret (case r of
              Inl _ \<Rightarrow> error_json 500 ''internal error''
            | Inr es \<Rightarrow> writeJSON 200 (json_slice (map entry_json es))))))"

definition HealthLedger :: "response prog" where
  "HealthLedger =
     bind (ls_Reconcile ledgerService) (\<lambda>r. Ret (case r of
         Inl _ \<Rightarrow> error_json 500 ''reconcile failed''
       | Inr s \<Rightarrow> writeJSON 200 (JObj [(''sum'', JStr s),
           (''healthy'', JBool (s = ''0.00'' \<or> s = ''0''))])))"

section \<open>Notifications\<close>

definition notification_json :: "notification_row \<Rightarrow> jval" where
  "notification_json n =
     JObj ([(''id'', JStr (n_id n)), (''account_id'', JStr (n_account_id n))]
       @ optional ''transfer_id'' JStr (n_transfer_id n)
       @ [(''type'', JStr (n_type n)), (''message'', JStr (n_message n))]
       @ optional ''read_at'' JTime (n_read_at n)
       @ [(''created_at'', JTime (n_created_at n))])"

definition GetNotifications :: "ctx \<Rightarrow> response prog" where
  "GetNotifications c =
     (if AccountIDFromContext c = '''' then Ret (error_json 401 ''investor auth required'')
      else bind (Notifications_ListByAccountID (AccountIDFromContext c)) (\<lambda>r. Ret (case r of
          Inl _ \<Rightarrow> error_json 500 ''internal error''
        | Inr notes \<Rightarrow> writeJSON 200 (JArr (map notification_json notes)))))"

definition MarkRead :: "string \<Rightarrow> ctx \<Rightarrow> response prog" where
  "MarkRead i c =
     (if i = '''' then Ret (error_json 400 ''missing notification id'')
      else bind (Notifications_MarkRead i) (\<lambda>err. Ret (case err of
          Some _ \<Rightarrow> error_json 404 ''notification not found''
        | None \<Rightarrow> writeJSON 200 (JObj [(''status'', JStr ''ok'')]))))"

end
