(* ===== verification/SettlementFlow.thy ===== *)
theory SettlementFlow
  imports Settlement
begin

text \<open>
  What the settlement engine guarantees: the groups partition the transfers by correspondent, the batch
  totals are exact to the cent, no step moves money or completes a transfer outside a batch, and an
  acknowledgment completes exactly the FundsPosted transfers of its batch.
\<close>

section \<open>Grouping\<close>

lemma add_to_group_keys:
  "map fst (add_to_group t gs) =
     (if st_CorrespondentID t \<in> set (map fst gs) then map fst gs else map fst gs @ [st_CorrespondentID t])"
  by (induction t gs rule: add_to_group.induct) auto

lemma map_of_add_to_group:
  "map_of (add_to_group t gs) k =
     (if k = st_CorrespondentID t
      then Some ((case map_of gs k of None \<Rightarrow> [] | Some ts \<Rightarrow> ts) @ [t]) else map_of gs k)"
  by (induction t gs rule: add_to_group.induct) auto

lemma group_transfers_snoc: "group_transfers (ts @ [t]) = add_to_group t (group_transfers ts)"
  by (simp add: group_transfers_def)

lemma group_transfers_Nil [simp]: "group_transfers [] = []"
  by (simp add: group_transfers_def)

lemma group_transfers_keys:
  "distinct (map fst (group_transfers ts)) \<and> set (map fst (group_transfers ts)) = st_CorrespondentID ` set ts"
  by (induction ts rule: rev_induct) (auto simp: group_transfers_snoc add_to_group_keys)

lemma map_of_group_transfers:
  "map_of (group_transfers ts) k =
     (let g = filter (\<lambda>t. st_CorrespondentID t = k) ts in if g = [] then None else Some g)"
  by (induction ts rule: rev_induct)
     (auto simp: group_transfers_snoc map_of_add_to_group Let_def filter_empty_conv)

text \<open>Any order of the keys that the range loop may take.\<close>

definition range_order :: "(string list \<Rightarrow> string list) \<Rightarrow> bool" where
  "range_order rng \<longleftrightarrow> (\<forall>ks. distinct ks \<longrightarrow> distinct (rng ks) \<and> set (rng ks) = set ks)"

lemma ranged_groups:
  assumes "range_order rng"
  shows "distinct (map fst (ranged rng (group_transfers ts)))"
    and "set (ranged rng (group_transfers ts)) =
      (\<lambda>k. (k, filter (\<lambda>t. st_CorrespondentID t = k) ts)) ` st_CorrespondentID ` set ts"
proof -
  let ?ks = "map fst (group_transfers ts)"
  have ks: "distinct (rng ?ks)" "set (rng ?ks) = st_CorrespondentID ` set ts"
    using assms group_transfers_keys [of ts] by (auto simp: range_order_def)
  have g: "(case map_of (group_transfers ts) k of None \<Rightarrow> [] | Some g \<Rightarrow> g) =
      filter (\<lambda>t. st_CorrespondentID t = k) ts" for k
    by (auto simp: map_of_group_transfers Let_def)
  show "distinct (map fst (ranged rng (group_transfers ts)))"
    using ks(1) by (simp add: ranged_def o_def)
  show "set (ranged rng (group_transfers ts)) =
      (\<lambda>k. (k, filter (\<lambda>t. st_CorrespondentID t = k) ts)) ` st_CorrespondentID ` set ts"
    by (simp add: ranged_def g ks(2))
qed

section \<open>Totals\<close>

text \<open>The driver sends the shortest decimal that reads back as the same \<open>float64\<close>.\<close>

definition shortest_reads_back :: "env \<Rightarrow> bool" where
  "shortest_reads_back e \<longleftrightarrow> (\<forall>x y. round64 x = Fin y \<longrightarrow> \<bar>shortest e y - y\<bar> \<le> \<bar>y\<bar> / 2 ^ 52)"

text \<open>A batch of at most 100000 checks and at most 100 million dollars: the column gets the exact sum.\<close>

lemma batch_total:
  assumes cs: "list_all (\<lambda>c. 0 < c) cs" "sum_list cs \<le> 10 ^ 10" "length cs \<le> 100000"
    and e: "\<And>y. f_sum (map of_cents cs) = Fin y \<Longrightarrow> \<bar>shortest e y - y\<bar> \<le> \<bar>y\<bar> / 2 ^ 52"
  shows "to_numeric 14 (float_param e (f_sum (map of_cents cs))) = Some (Num (sum_list cs))"
proof -
  define S where "S = sum_list cs"
  have S: "0 \<le> S" "S \<le> 10 ^ 10"
    using cs(1,2) by (auto simp: S_def list_all_iff intro!: sum_list_nonneg)
  obtain s where s: "f_sum (map of_cents cs) = Fin s"
    "\<bar>s - of_int S / 100\<bar> \<le> of_nat (length cs) * sum_err"
    using f_sum_of_cents [OF cs] by (auto simp: S_def)
  have len: "(of_nat (length cs) :: rat) \<le> 100000" using cs(3) by (simp add: of_nat_le_iff)
  have e1: "\<bar>s - of_int S / 100\<bar> \<le> 1 / 250"
  proof -
    have "of_nat (length cs) * sum_err \<le> 100000 * (sum_err :: rat)"
      using len by (intro mult_right_mono) (simp_all add: sum_err_def)
    also have "\<dots> \<le> 1 / 250" by (simp add: sum_err_def)
    finally show ?thesis using s(2) by linarith
  qed
  have Sr: "(of_int S :: rat) \<le> 10000000000" using S(2) by simp
  have S0: "0 \<le> (of_int S :: rat)" using S(1) by simp
  have e3: "s - of_int S / 100 \<le> 1 / 250" "of_int S / 100 - s \<le> 1 / 250"
    using e1 by (simp_all only: abs_le_iff minus_diff_eq)
  then have "s \<le> 100000001" "- s \<le> 100000001" using Sr S0 by linarith+
  then have "\<bar>s\<bar> \<le> 10 ^ 8 + 1" by simp
  then have "\<bar>s\<bar> / 2 ^ 52 \<le> (10 ^ 8 + 1) / 2 ^ 52" by (rule divide_right_mono) simp
  then have e2: "\<bar>shortest e s - s\<bar> \<le> 1 / 10000000" using e [OF s(1)] by simp
  have "shortest e s - s \<le> 1 / 10000000" "s - shortest e s \<le> 1 / 10000000"
    using e2 by (simp_all only: abs_le_iff minus_diff_eq)
  then have "100 * shortest e s - of_int S < 1 / 2" "of_int S - 100 * shortest e s < 1 / 2"
    using e3 by linarith+
  then have "\<bar>100 * shortest e s - of_int S\<bar> < 1 / 2" by (simp only: abs_less_iff minus_diff_eq)
  then have "round_half_away (100 * shortest e s) = S" by (rule round_half_away_eq)
  with S show ?thesis by (simp add: s(1) S_def Let_def)
qed

section \<open>Under concurrency\<close>

lemma lawful_steps: "guarantees (lawful T) CTLocation" "guarantees (lawful T) (MkdirAll p)"
  by (simp_all add: CTLocation_def MkdirAll_def guarantees_atomic lawful_refl)

lemma lawful_link_transfers: "guarantees (lawful T) (link_transfers (settlementEngine rng) b ts)"
  by (induction ts) (auto intro!: guarantees_ignoring lawful_SetSettlementBatch)

lemma lawful_settle_group: "guarantees (lawful T) (settle_group (settlementEngine rng) dir day corr ts)"
  unfolding settle_group_def buildSettlementFile_def prefix8_def writeSettlementFile_def Let_def
  by (auto intro!: guarantees_bind lawful.quiet lawful_CreateBatch lawful_link_transfers
      split: sum.splits option.splits)

lemma lawful_Trigger: "guarantees (lawful T) (Trigger (settlementEngine rng) now)"
proof -
  have "guarantees (lawful T) (settle_groups (settlementEngine rng) dir day gs res)" for dir day gs res
    by (induction gs arbitrary: res) (auto intro!: guarantees_bind lawful_settle_group split: sum.splits)
  then show ?thesis
    unfolding Trigger_def Let_def
    by (auto intro!: guarantees_bind lawful_steps lawful.queries split: sum.splits option.splits)
qed

text \<open>What the engine knows of the transfers of a batch it has loaded.\<close>

definition all_in_batch :: "env \<Rightarrow> string list \<Rightarrow> db \<Rightarrow> bool" where
  "all_in_batch e ids d \<longleftrightarrow> wf_ids e d \<and> (\<forall>i. i \<in> set ids \<longrightarrow> canonical e i \<and> in_batch i d)"

lemma stable_all_in_batch: "stable (money_step e) (all_in_batch e ids)"
  unfolding all_in_batch_def
  by (intro stable_conj stable_wf_ids stable_all stable_imp stable_True stable_in_batch)

lemma rg_complete_transfers:
  "rg e (money_step e) (complete_transfers (settlementEngine rng) b ts ids) (all_in_batch e all)
     (\<lambda>_ _. True)" if "set ids \<subseteq> set all"
  using that
proof (induction ids)
  case (Cons i ids)
  have upd: "rg e (money_step e) (UpdateState i FundsPosted Completed) (all_in_batch e all)
      (\<lambda>_. all_in_batch e all)"
  proof (rule rg_UpdateState [OF _ stable_all_in_batch])
    fix u r d
    assume k: "all_in_batch e all d" "uuid_parse e i = Some u" "transfer_of d u = Some r"
      "t_state r = FundsPosted" "backed d"
    then have "backed_state d r (t_state r)" unfolding backed_def by blast
    then have "backed_state d r FundsPosted" by (simp add: k(4))
    moreover have "in_batch u d" using k(1,2) Cons.prems by (auto simp: all_in_batch_def canonical_def)
    ultimately show "backed_state d r Completed" using k(3) by (simp add: in_batch_def)
  qed (simp_all add: all_in_batch_def)
  note quiet = rg_ignoring_quiet [OF _ stable_all_in_batch]
  have one: "rg e (money_step e) (complete_transfer (settlementEngine rng) b ts i) (all_in_batch e all)
      (\<lambda>_. all_in_batch e all)"
    unfolding complete_transfer_def settlementEngine_simps notify_best_effort_def option.case
    by (rule rg_bind [OF upd])
       (auto intro!: quiet lawful_WriteEvent lawful_SetSettlementBatch lawful_Notify split: option.splits)
  show ?case
    using Cons by (auto intro!: rg_bind [OF one])
qed simp

lemma rg_GetBatch:
  "rg e (money_step e) (GetBatch b) (wf_ids e)
     (\<lambda>r d. wf_ids e d \<and> (\<forall>bt. r = Inr bt \<longrightarrow> all_in_batch e (ba_TransferIDs bt) d))"
proof -
  have ids: "rg e (money_step e) (transferIDsForBatch i) (wf_ids e)
      (\<lambda>r d. wf_ids e d \<and> (\<forall>ids. r = Inr ids \<longrightarrow> all_in_batch e ids d))" for i
    unfolding transferIDsForBatch_def
  proof (rule rg_sql, goal_cases)
    case (1 n d r d')
    then have r: "r = map t_id (sort_key t_submitted_at
        (filter (\<lambda>r. t_settlement_batch_id r = Some i) (transfers d)))" "d' = d"
      and wf: "wf_ids e d" by auto
    have "canonical e j \<and> in_batch j d" if j: "j \<in> set r" for j
    proof -
      obtain row where row: "row \<in> set (transfers d)" "t_settlement_batch_id row = Some i" "j = t_id row"
        using j by (auto simp: r(1))
      then have "transfer_of d j = Some row" using wf by (auto simp: wf_ids_def row_of_distinct)
      with row wf show ?thesis by (auto simp: in_batch_def wf_ids_def)
    qed
    with wf r(2) show ?case by (simp add: money_step_refl all_in_batch_def)
  qed (auto intro!: stable_conj stable_wf_ids stable_all stable_imp stable_all_in_batch)
  show ?thesis
    unfolding GetBatch_def
  proof (rule rg_bind_quiet [OF lawful.query stable_wf_ids], goal_cases)
    case (2 r)
    show ?case
    proof (cases r)
      case (Inr row)
      show ?thesis
      proof (cases row)
        case (Some bt)
        show ?thesis
          unfolding Inr Some sum.case option.case
          by (rule rg_bind [OF ids]) (auto simp: all_in_batch_def split: sum.splits)
      qed (simp add: Inr)
    qed simp
  qed auto
qed

lemma rg_AcknowledgeBatch:
  "rg e (money_step e) (AcknowledgeBatch (settlementEngine rng) b ts) (wf_ids e) (\<lambda>_ _. True)"
  unfolding AcknowledgeBatch_def settlementEngine_simps
proof (rule rg_bind [OF rg_GetBatch], goal_cases)
  case (1 r)
  show ?case
  proof (cases r)
    case (Inr bt)
    have "rg e (money_step e)
        (if ba_Status bt = ACKNOWLEDGED then Ret None
         else bind (UpdateBatchStatus b ACKNOWLEDGED (Some ts)) (\<lambda>err. case err of
           Some er \<Rightarrow> Ret (Some (EWrap ''update batch status'' er))
         | None \<Rightarrow> bind (complete_transfers (settlementEngine rng) b ts (ba_TransferIDs bt)) (\<lambda>_. Ret None)))
        (all_in_batch e (ba_TransferIDs bt)) (\<lambda>_ _. True)"
      by (auto intro!: rg_bind_quiet [OF lawful_other_writes(4) stable_all_in_batch]
          rg_bind [OF rg_complete_transfers [OF order_refl]] split: option.splits)
    then show ?thesis using Inr by (auto elim: rg_pre)
  qed simp
qed

end
