(* ===== verification/SettlementHandler.thy ===== *)
theory SettlementHandler
  imports OperatorHandler SettlementFlow
begin

text \<open>
  \<open>cmd/api/handlers/settlement.go\<close> and \<open>health.go\<close>: the settlement trigger, which batches, submits each
  batch to the settlement bank and acknowledges it, the status endpoints, the proxied return simulation
  and the demo batch of \<open>/health/settlement/trigger\<close>.
\<close>

section \<open>JSON\<close>

fun batch_status_text :: "batch_status \<Rightarrow> string" where
  "batch_status_text PENDING = ''PENDING''"
| "batch_status_text SUBMITTED = ''SUBMITTED''"
| "batch_status_text ACKNOWLEDGED = ''ACKNOWLEDGED''"

definition batchToJSON :: "Batch \<Rightarrow> json" where
  "batchToJSON b =
     [(''id'', JStr (ba_ID b)), (''correspondent_id'', JStr (ba_CorrespondentID b)),
      (''cutoff_date'', JStr (date_text (civil (ba_CutoffDate b)))),
      (''status'', JStr (batch_status_text (ba_Status b))), (''file_ref'', JStr (ba_FileRef b)),
      (''record_count'', JInt (int (ba_RecordCount b))), (''total_amount'', JNum (ba_TotalAmount b)),
      (''created_at'', JTime (ba_CreatedAt b)),
      (''transfer_ids'', json_slice (map JStr (ba_TransferIDs b)))]
     @ optional ''submitted_at'' JTime (ba_SubmittedAt b)
     @ optional ''acknowledged_at'' JTime (ba_AcknowledgedAt b)"

definition summary_json :: "BatchSummary \<Rightarrow> jval" where
  "summary_json s =
     JObj [(''batch_id'', JStr (bs_BatchID s)), (''correspondent_id'', JStr (bs_CorrespondentID s)),
       (''record_count'', JInt (int (bs_RecordCount s))), (''total_amount'', JNum (bs_TotalAmount s)),
       (''file_ref'', JStr (bs_FileRef s))]"

definition result_json :: "TriggerResult \<Rightarrow> jval" where
  "result_json r =
     JObj [(''batch_count'', JInt (int (tg_BatchCount r))), (''total_checks'', JInt (int (tg_TotalChecks r))),
       (''total_amount'', JNum (tg_TotalAmount r)), (''cutoff_time'', JTime (tg_CutoffTime r)),
       (''batches'', json_slice (map summary_json (tg_Batches r)))]"

section \<open>POST /settlement/trigger\<close>

definition submitToSettlementBank :: "string \<Rightarrow> stored_file \<Rightarrow> (go_error + settlementAck) prog" where
  "submitToSettlementBank batchID fileData =
     (case fileData of
        ImageFile c \<Rightarrow> Ret (Inl (EWrap ''marshal request'' (EMsg ''invalid character'')))
      | JsonFile f \<Rightarrow>
          bind (http_call (\<lambda>e n. bank e n batchID f)) (\<lambda>reply. Ret (case reply of
              HttpFail err \<Rightarrow> Inl (EWrap ''submit to settlement bank'' err)
            | HttpReply status body \<Rightarrow>
                if status \<noteq> 200 then Inl (EMsg ''settlement bank returned an error status'')
                else (case body of
                        None \<Rightarrow> Inl (EWrap ''decode acknowledgment'' (EMsg ''invalid JSON''))
                      | Some ack \<Rightarrow> Inr ack))))"

text \<open>One iteration of the loop over the batches; every failure leaves the summary as it is.\<close>

definition submit_batch :: "SEngine \<Rightarrow> BatchSummary \<Rightarrow> BatchSummary prog" where
  "submit_batch en bs =
     bind (MustParse (bs_BatchID bs)) (\<lambda>batchID.
       ignoring (se_UpdateBatchStatus en batchID SUBMITTED None)
       (bind (read_file (bs_FileRef bs)) (\<lambda>file. case file of
          Inl _ \<Rightarrow> Ret bs
        | Inr fileData \<Rightarrow>
            bind (submitToSettlementBank (bs_BatchID bs) fileData) (\<lambda>r. case r of
              Inl _ \<Rightarrow> Ret bs
            | Inr ack \<Rightarrow>
                bind time_now (\<lambda>now.
                  let ackTime = (case ack_AcknowledgedAt ack of None \<Rightarrow> now | Some t \<Rightarrow> t) in
                  bind (AcknowledgeBatch en batchID ackTime) (\<lambda>err. Ret (case err of
                      Some _ \<Rightarrow> bs
                    | None \<Rightarrow> bs\<lparr>bs_BatchID := ack_BatchID ack\<rparr>)))))))"

fun submit_batches :: "SEngine \<Rightarrow> BatchSummary list \<Rightarrow> BatchSummary list prog" where
  "submit_batches en [] = Ret []"
| "submit_batches en (s # ss) =
     bind (submit_batch en s) (\<lambda>s'. bind (submit_batches en ss) (\<lambda>ss'. Ret (s' # ss')))"

definition one_day :: int where
  "one_day = 24 * 3600 * 10 ^ 9"

definition SettlementHandler_Trigger :: "SEngine \<Rightarrow> response prog" where
  "SettlementHandler_Trigger en =
     bind time_now (\<lambda>now.
     bind (Trigger en (now + one_day)) (\<lambda>r. case r of
       Inl _ \<Rightarrow> Ret (error_json 500 ''settlement trigger failed'')
     | Inr result \<Rightarrow>
         if tg_BatchCount result = 0 then Ret (writeJSON 200 (result_json result))
         else bind (submit_batches en (tg_Batches result)) (\<lambda>ss.
           Ret (writeJSON 200 (result_json (result\<lparr>tg_Batches := ss\<rparr>))))))"

section \<open>Status and batches\<close>

definition Status :: "response prog" where
  "Status =
     bind UnbatchedFundsPostedCount (\<lambda>r. case r of
       Inl _ \<Rightarrow> Ret (error_json 500 ''internal error'')
     | Inr nUnbatched \<Rightarrow>
         bind ListBatches (\<lambda>r. Ret (case r of
             Inl _ \<Rightarrow> error_json 500 ''internal error''
           | Inr bs \<Rightarrow> writeJSON 200 (JObj
               [(''unbatched_count'', JInt (int nUnbatched)),
                (''latest_batch'', case bs of [] \<Rightarrow> JNull | b # _ \<Rightarrow> JObj (batchToJSON b)),
                (''total_batches'', JInt (int (length bs)))]))))"

definition SettlementHandler_ListBatches :: "response prog" where
  "SettlementHandler_ListBatches =
     bind ListBatches (\<lambda>r. Ret (case r of
         Inl _ \<Rightarrow> error_json 500 ''internal error''
       | Inr bs \<Rightarrow> writeJSON 200 (JArr (map (\<lambda>b. JObj (batchToJSON b)) bs))))"

section \<open>POST /admin/simulate-return\<close>

text \<open>The decoded body: transfer id and reason code. Every status of the bank is answered with 200.\<close>

definition SimulateReturn :: "(string \<times> string) option \<Rightarrow> response prog" where
  "SimulateReturn body =
     (case body of
        None \<Rightarrow> Ret (error_json 400 ''invalid JSON'')
      | Some (i, code) \<Rightarrow>
          if i = '''' then Ret (error_json 400 ''transfer_id is required'')
          else
            let reason = (if code = '''' then ''R01'' else code) in
            bind (http_call (\<lambda>e n. bank_return e n i reason)) (\<lambda>reply. Ret (case reply of
                HttpFail _ \<Rightarrow> error_json 502 ''settlement bank unavailable''
              | HttpReply status b \<Rightarrow> writeJSON 200 (case b of None \<Rightarrow> JNull | Some m \<Rightarrow> JObj m))))"

section \<open>Settlement health\<close>

text \<open>\<open>time.Now().UTC().Truncate(24 * time.Hour)\<close>: midnight UTC.\<close>

definition truncate_day :: "instant \<Rightarrow> instant" where
  "truncate_day t = t - t mod one_day"

definition info_json :: "SettlementBatchInfo \<Rightarrow> jval" where
  "info_json b =
     JObj [(''id'', JStr (bi_ID b)), (''generated_at'', JTime (bi_GeneratedAt b)),
       (''count'', JInt (int (bi_Count b))), (''status'', JStr (batch_status_text (bi_Status b)))]"

definition SettlementHealth :: "response prog" where
  "SettlementHealth =
     bind time_now (\<lambda>now.
     bind (CountUnbatched (truncate_day now)) (\<lambda>r. case r of
       Inl _ \<Rightarrow> Ret (error_json 500 ''db error'')
     | Inr pastCutoff \<Rightarrow>
         bind CountAllUnbatched (\<lambda>r. case r of
           Inl _ \<Rightarrow> Ret (error_json 500 ''db error'')
         | Inr ready \<Rightarrow>
             bind LastBatch (\<lambda>b. Ret (writeJSON 200 (JObj
               [(''healthy'', JBool (pastCutoff = 0)), (''unbatched_count'', JInt (int pastCutoff)),
                (''ready_count'', JInt (int ready)),
                (''last_batch'', case b of Inl _ \<Rightarrow> JNull | Inr i \<Rightarrow> info_json i)]))))))"

definition SettlementHealth_Trigger :: "response prog" where
  "SettlementHealth_Trigger =
     bind CreateDemoBatch (\<lambda>r. Ret (case r of
         Inl _ \<Rightarrow> error_json 500 ''failed to create batch''
       | Inr b \<Rightarrow> writeJSON 200 (info_json b)))"

end
