(* ===== verification/Server.thy ===== *)
theory Server
  imports SettlementHandler
begin

text \<open>
  What the routes of \<open>cmd/api/main.go\<close> lead to: which handler serves which request, behind which middleware; the
  patterns of the routes are in theory \<open>Routes\<close>. The SSE
  stream and the scenario list are in the theories \<open>Streams\<close> and \<open>StubServers\<close> and are not database requests.
\<close>

section \<open>Requests\<close>

text \<open>The last string of an authenticated request is its Authorization header.\<close>

datatype request =
    RqOptions
  | RqHealth
  | RqListDeposits string
  | RqCreateDeposit string deposit_http
  | RqGetDeposit string
  | RqGetDepositEvents string
  | RqGetDepositImage string string
  | RqListAccounts
  | RqGetAccount string
  | RqReturn "returnRequest option" string
  | RqLedgerBalances
  | RqLedgerEntries string
  | RqHealthLedger
  | RqHealthSettlement
  | RqHealthSettlementTrigger
  | RqOperatorQueue queue_query string
  | RqOperatorAction "actionRequest option" string
  | RqSettlementTrigger "string list \<Rightarrow> string list"
  | RqSettlementStatus
  | RqSettlementBatches
  | RqSimulateReturn "(string \<times> string) option"
  | RqNotifications string
  | RqMarkRead string string

fun serve :: "request \<Rightarrow> response prog" where
  "serve RqOptions = Ret \<lparr>rs_Status = 200, rs_Body = EmptyBody, rs_Replay = False\<rparr>"
| "serve RqHealth = Ret (writeJSON 200 (JObj [(''status'', JStr ''ok'')]))"
| "serve (RqListDeposits acct) = ListDeposits acct"
| "serve (RqCreateDeposit key h) = Idempotency key (CreateDeposit h)"
| "serve (RqGetDeposit i) = GetDeposit i"
| "serve (RqGetDepositEvents i) = GetDepositEvents i"
| "serve (RqGetDepositImage i side) = GetDepositImage i side"
| "serve RqListAccounts = ListAccounts"
| "serve (RqGetAccount code) = GetAccount code"
| "serve (RqReturn body auth) = SettlementAuth (ReturnHandler_ProcessReturn body) auth"
| "serve RqLedgerBalances = GetBalances"
| "serve (RqLedgerEntries i) = GetEntries_handler i"
| "serve RqHealthLedger = HealthLedger"
| "serve RqHealthSettlement = SettlementHealth"
| "serve RqHealthSettlementTrigger = SettlementHealth_Trigger"
| "serve (RqOperatorQueue q auth) = Auth (GetQueue q) auth"
| "serve (RqOperatorAction body auth) = Auth (PostAction body) auth"
| "serve (RqSettlementTrigger rng) = SettlementHandler_Trigger (settlementEngine rng)"
| "serve RqSettlementStatus = Status"
| "serve RqSettlementBatches = SettlementHandler_ListBatches"
| "serve (RqSimulateReturn body) = SimulateReturn body"
| "serve (RqNotifications auth) = Auth GetNotifications auth"
| "serve (RqMarkRead i auth) = Auth (MarkRead i) auth"

definition api :: "response prog set" where
  "api = range serve"

section \<open>Requests that only read\<close>

context reflexive_guarantee
begin

lemma steps: "guarantees R CTLocation" "guarantees R (MkdirAll p)"
  by (simp_all add: CTLocation_def MkdirAll_def guarantees_atomic R_refl)

lemma services:
  "guarantees R (GetBalance a)" "guarantees R (GetEntries i)" "guarantees R Reconcile"
  "guarantees R (Validate rq)" "guarantees R (Evaluate fundingEngine erq)"
proof -
  show "guarantees R (Evaluate fundingEngine erq)"
    by (rule guarantees_Evaluate) (auto simp: fundingEngine_def NewEngine_def queries)
  show "guarantees R (Validate rq)"
    unfolding Validate_def by (auto intro!: guarantees_bind quiet)
qed (unfold GetBalance_def GetEntries_def Reconcile_def; intro guarantees_bind guarantees_Ret queries)+

lemma collect_balances: "guarantees R (collect_balances ledgerService accts acc)"
  by (induction ledgerService accts acc rule: collect_balances.induct)
     (auto intro!: guarantees_bind quiet services simp: Let_def)

lemma deposit_reads:
  "guarantees R (ListDeposits a)" "guarantees R (GetDeposit i)" "guarantees R (GetDepositEvents i)"
  "guarantees R (GetDepositImage i side)" "guarantees R ListAccounts" "guarantees R (GetAccount code)"
  unfolding ListDeposits_def GetDeposit_def GetDepositEvents_def GetDepositImage_def ListAccounts_def
    GetAccount_def orchDeps_simps
  by (auto intro!: guarantees_bind queries quiet services split: sum.splits stored_file.splits)

lemma other_reads:
  "guarantees R GetBalances" "guarantees R (GetEntries_handler i)" "guarantees R HealthLedger"
  "guarantees R SettlementHealth" "guarantees R (GetQueue q c)" "guarantees R Status"
  "guarantees R SettlementHandler_ListBatches" "guarantees R (SimulateReturn body)"
  "guarantees R (GetNotifications c)"
  unfolding GetBalances_def GetEntries_handler_def HealthLedger_def SettlementHealth_def GetQueue_def
    Status_def SettlementHandler_ListBatches_def SimulateReturn_def GetNotifications_def orchDeps_simps Let_def
  by (auto intro!: guarantees_bind collect_balances quiet services queries ListBatches
      split: sum.splits option.splits)

lemma SettlementAuth: "guarantees R nxt \<Longrightarrow> guarantees R (SettlementAuth nxt auth)"
  unfolding SettlementAuth_def by (auto intro!: guarantees_bind quiet)

end

section \<open>Requests that move no money\<close>

lemma lawful_save_images: "guarantees (lawful T) (save_images i h)"
  unfolding save_images_def save_image_def Let_def
  by (auto intro!: guarantees_bind guarantees_ignoring lawful.quiet lawful_steps lawful_setters
      split: option.splits bool.splits)

lemma lawful_respond_updated: "guarantees (lawful T) (respond_updated i)"
  unfolding respond_updated_def by (intro guarantees_bind lawful.queries guarantees_Ret)

lemma lawful_small_writes:
  "guarantees (lawful T) SettlementHealth_Trigger" "guarantees (lawful T) (MarkRead i c)"
  unfolding SettlementHealth_Trigger_def MarkRead_def
  by (auto intro!: guarantees_bind lawful_CreateDemoBatch lawful_other_writes)

text \<open>The requests that reach a state money stands for.\<close>

fun moves_money :: "request \<Rightarrow> bool" where
  "moves_money (RqCreateDeposit key h) = True"
| "moves_money (RqReturn body auth) = True"
| "moves_money (RqOperatorAction body auth) = True"
| "moves_money (RqSettlementTrigger rng) = True"
| "moves_money _ = False"

lemma lawful_quiet_requests: "\<not> moves_money rq \<Longrightarrow> guarantees (lawful T) (serve rq)"
  by (cases rq) (auto intro: lawful.deposit_reads lawful.other_reads lawful_small_writes guarantees_Auth)

end
