(* ===== verification/Safety.thy ===== *)
theory Safety
  imports Server
begin

text \<open>
  Every request of the API keeps the rules of theories \<open>Lawful\<close> and \<open>Backed\<close> at each of its steps, whatever
  the other requests do between them, whatever calls fail and wherever it dies. The interpretations of
  the locales of \<open>Runtime\<close> and \<open>RelyGuarantee\<close> in theory \<open>System\<close> carry this to every reachable state of the
  running system.
\<close>

section \<open>Valid steps\<close>

lemma lawful_valid_transition:
  "guarantees (lawful valid_step) (Transition transferStore WriteEvent (Some Notify) i from to)"
  by (rule lawful_Transition) simp

lemmas lawful_flow_ops = lawful_valid_transition lawful_WriteEvent lawful_field_setters lawful_PostDoubleEntry
  lawful_Validate lawful_Evaluate lawful.quiet

lemma lawful_valid_reject: "guarantees (lawful valid_step) (reject_with orchDeps i from code)"
  by (rule lawful_reject_with) simp

lemma lawful_post_funds: "guarantees (lawful valid_step) (post_funds orchDeps td fs)"
  unfolding post_funds_def post_ledger_def finish_posting_def Let_def orchDeps_simps
  by (auto intro!: guarantees_bind guarantees_ignoring lawful_flow_ops split: option.splits)

lemma lawful_evaluate_funding: "guarantees (lawful valid_step) (evaluate_funding orchDeps td resp)"
  unfolding evaluate_funding_def Let_def orchDeps_simps
  by (auto intro!: guarantees_bind guarantees_ignoring lawful_flow_ops lawful_valid_reject lawful_post_funds
      split: sum.splits)

lemma lawful_ProcessDeposit: "guarantees (lawful valid_step) (ProcessDeposit orchDeps td)"
  unfolding ProcessDeposit_def after_vss_def Let_def orchDeps_simps
  by (auto intro!: guarantees_bind guarantees_ignoring lawful_flow_ops lawful_valid_reject
      lawful_evaluate_funding split: sum.splits option.splits)

lemma lawful_CreateDeposit: "guarantees (lawful valid_step) (CreateDeposit h)"
  unfolding CreateDeposit_def create_transfer_def run_deposit_def Let_def
  by (auto intro!: guarantees_bind guarantees_ignoring lawful.queries lawful_Create lawful_WriteEvent
      lawful_save_images lawful_ProcessDeposit lawful.queries split: sum.splits option.splits)

lemma lawful_PostAction: "guarantees (lawful valid_step) (PostAction body c)"
  unfolding PostAction_def perform_action_def approve_action_def approve_post_def reject_action_def Let_def
    orchDeps_simps
  by (auto intro!: guarantees_bind guarantees_ignoring lawful_flow_ops lawful_setters lawful.queries
      lawful_respond_updated split: sum.splits option.splits)

lemma lawful_return: "guarantees (lawful valid_step) (ReturnHandler_ProcessReturn body)"
proof -
  have "guarantees (lawful valid_step) (finish_return returnDeps inp t fee u)"
    if "rt_State t = FundsPosted \<or> rt_State t = Completed" for inp t fee u
    unfolding finish_return_def returnDeps_simps using that
    by (auto intro!: guarantees_bind lawful_UpdateState lawful_after_return split: option.splits)
  then have "guarantees (lawful valid_step) (return_transfer returnDeps inp t)"
    if "rt_State t = FundsPosted \<or> rt_State t = Completed" for inp t
    unfolding return_transfer_def post_return_def post_fee_def returnDeps_simps orchDeps_simps using that
    by (auto intro!: guarantees_bind guarantees_ignoring lawful_WriteEvent lawful_adapters lawful.quiet
        lawful_PostDoubleEntry split: sum.splits option.splits)
  then have "guarantees (lawful valid_step) (ProcessReturn returnDeps inp)" for inp
    unfolding ProcessReturn_def returnDeps_simps Let_def
    by (auto intro!: guarantees_bind lawful_adapters split: sum.splits)
  then show ?thesis
    unfolding ReturnHandler_ProcessReturn_def Let_def
    by (auto intro!: guarantees_bind lawful.quiet lawful.queries lawful_respond_updated
        split: sum.splits option.splits)
qed

lemma lawful_AcknowledgeBatch:
  "guarantees (lawful valid_step) (AcknowledgeBatch (settlementEngine rng) b ts)"
proof -
  have "guarantees (lawful valid_step) (complete_transfer (settlementEngine rng) b ts i)" for i
    unfolding complete_transfer_def notify_best_effort_def settlementEngine_simps option.case
    by (auto intro!: guarantees_bind guarantees_ignoring lawful_UpdateState lawful_WriteEvent lawful_Notify
        lawful_SetSettlementBatch split: option.splits)
  then have "guarantees (lawful valid_step) (complete_transfers (settlementEngine rng) b ts ids)" for ids
    by (induction ids) (auto intro!: guarantees_bind)
  then show ?thesis
    unfolding AcknowledgeBatch_def settlementEngine_simps
    by (auto intro!: guarantees_bind lawful.queries lawful.GetBatch lawful_other_writes split: sum.splits option.splits)
qed

lemma lawful_submitToSettlementBank: "guarantees (lawful T) (submitToSettlementBank b f)"
  unfolding submitToSettlementBank_def by (auto intro!: guarantees_bind lawful.quiet split: stored_file.splits)

lemma lawful_settlement_trigger:
  "guarantees (lawful valid_step) (SettlementHandler_Trigger (settlementEngine rng))"
proof -
  have "guarantees (lawful valid_step) (submit_batch (settlementEngine rng) bs)" for bs
    unfolding submit_batch_def settlementEngine_simps Let_def
    by (auto intro!: guarantees_bind guarantees_ignoring lawful.quiet lawful_other_writes
        lawful_submitToSettlementBank lawful_AcknowledgeBatch split: sum.splits)
  then have "guarantees (lawful valid_step) (submit_batches (settlementEngine rng) ss)" for ss
    by (induction ss) (auto intro!: guarantees_bind)
  then show ?thesis
    unfolding SettlementHandler_Trigger_def
    by (auto intro!: guarantees_bind lawful.quiet lawful_Trigger split: sum.splits)
qed

lemma lawful_Idempotency:
  "guarantees (lawful T) nxt \<Longrightarrow> guarantees (lawful T) (Idempotency key nxt)"
  unfolding Idempotency_def
  by (auto intro!: guarantees_bind lawful.queries lawful.GetBatch lawful_other_writes split: option.splits)

lemma lawful_serve: "guarantees (lawful valid_step) (serve rq)"
proof (cases "moves_money rq")
  case True
  then show ?thesis
    by (cases rq) (auto intro: lawful_Idempotency lawful_CreateDeposit lawful_SettlementAuth lawful_return
        guarantees_Auth lawful_PostAction lawful_settlement_trigger)
qed (rule lawful_quiet_requests)

section \<open>What the handlers know of their transfers\<close>

text \<open>The environment prints every UUID it parses or makes in the canonical form.\<close>

definition uuid_env :: "env \<Rightarrow> bool" where
  "uuid_env e \<longleftrightarrow> (\<forall>s u. uuid_parse e s = Some u \<longrightarrow> canonical e u) \<and> (\<forall>n. canonical e (fresh_uuid e n))"

definition fetched :: "env \<Rightarrow> string \<Rightarrow> Transfer \<Rightarrow> db \<Rightarrow> bool" where
  "fetched e i t d \<longleftrightarrow> parsed_owned e i (tr_AccountID t) d \<and> canonical e (tr_AccountID t) \<and>
     uuid_parse e i = Some (tr_ID t) \<and> canonical e (tr_ID t)"

lemma stable_fetched: "stable (money_step e) (fetched e i t)"
  unfolding fetched_def by (intro stable_conj stable_parsed_owned stable_True)

lemma rg_GetByID:
  "rg e (money_step e) (GetByID i) (wf_ids e) (\<lambda>r d. wf_ids e d \<and> (\<forall>t. r = Inr t \<longrightarrow> fetched e i t d))"
proof -
  define Q :: "go_error + transfer_row option \<Rightarrow> db \<Rightarrow> bool"
    where "Q = (\<lambda>r d. wf_ids e d \<and> (\<forall>row. r = Inr (Some row) \<longrightarrow> fetched e i (scanTransferFull row) d))"
  have st: "stable (money_step e) (Q r)" for r
    unfolding Q_def by (intro stable_conj stable_wf_ids stable_all stable_imp stable_fetched)
  have "rg e (money_step e) (sql (GetByID_stmt i)) (wf_ids e) Q"
  proof (rule rg_sql [OF _ _ stable_wf_ids st])
    fix n d r d'
    assume wf: "wf_ids e d" and r: "GetByID_stmt i e n d = Inr (r, d')"
    then obtain u where u: "uuid_parse e i = Some u" "r = transfer_of d u" "d' = d"
      by (auto simp: GetByID_stmt_def)
    have "fetched e i (scanTransferFull row) d" if "transfer_of d u = Some row" for row
      using wf u(1) that row_of_key [OF that]
      by (auto simp: fetched_def parsed_owned_def owned_def scanTransferFull_def wf_ids_def)
    with wf u show "money_step e d d' \<and> Q (Inr r) d'" by (auto simp: Q_def money_step_refl)
  qed (simp add: Q_def)
  then show ?thesis
    unfolding GetByID_def by (rule rg_bind) (auto simp: Q_def split: sum.splits option.splits)
qed

lemma rg_quiet_end:
  "guarantees (lawful quiet_step) p \<Longrightarrow> stable (money_step e) K \<Longrightarrow> rg e (money_step e) p K (\<lambda>_ _. True)"
  by (rule rg_post [OF rg_quiet]) auto

end
