(* ===== verification/Concurrent.thy ===== *)
theory Concurrent
  imports Safety
begin

text \<open>
  The requests that move money, one step at a time among other requests: each step satisfies
  \<open>money_step\<close>. The creation of a transfer, the operator's approval, the return webhook and the
  settlement trigger establish the ledger entries before the state that stands for them.
\<close>

section \<open>Operator actions\<close>

lemma rg_approve_post:
  "rg e (money_step e) (approve_post orchDeps i t) (fetched e i t) (\<lambda>_ _. True)"
proof -
  let ?a = "tr_AccountID t"
  have memo: "MemoToEntryType ''FREE'' = Some EntryTypeProvisionalCredit" by (simp add: MemoToEntryType_def)
  have respond: "rg e (money_step e) (respond_updated i) (parsed_credited e i ?a) (\<lambda>_ _. True)"
    by (rule rg_quiet_end [OF lawful_respond_updated stable_parsed_credited])
  have finish: "rg e (money_step e)
      (ignoring (WriteEvent i step actor payload)
        (bind (Transition transferStore WriteEvent (Some Notify) i Approved FundsPosted) (\<lambda>err. case err of
           Some er \<Rightarrow> Ret (error_json 500 ''transition failed'') | None \<Rightarrow> respond_updated i)))
      (parsed_credited e i ?a) (\<lambda>_ _. True)" for step actor payload
    by (rule rg_ignoring_quiet [OF lawful_WriteEvent stable_parsed_credited rg_bind [OF rg_to_FundsPosted]])
       (auto intro: respond split: option.splits)
  have st: "stable (money_step e) (\<lambda>d. (fetched e i t d \<and> uuid_parse e ?a = Some acct)
      \<and> uuid_parse e (tr_ID t) = Some u)" for acct u
    by (intro stable_conj stable_fetched stable_True)
  show ?thesis
    unfolding approve_post_def orchDeps_simps
  proof (rule rg_bind [OF rg_quiet [OF _ stable_fetched]], rule lawful.quiet,
      rule rg_bind [OF rg_MustParse [OF stable_fetched]], rule rg_bind [OF rg_MustParse], goal_cases)
    case (2 omni acct u)
    show ?case
    proof (rule rg_bind [OF rg_PostDoubleEntry [OF memo st]], goal_cases)
      case (1 err)
      show ?case
      proof (cases err)
        case None
        show ?thesis
          unfolding None option.case
          by (rule rg_pre [OF finish]) (auto simp: parsed_credited_def fetched_def canonical_def)
      qed simp
    qed
  qed (intro stable_conj stable_fetched stable_True)
qed

lemma rg_perform_action:
  "rg e (money_step e) (perform_action opid req t) (fetched e (ac_TransferID req) t) (\<lambda>_ _. True)"
proof -
  note quiet = rg_ignoring_quiet [OF _ stable_fetched] and bind_quiet = rg_bind_quiet [OF _ stable_fetched]
  have approve: "rg e (money_step e) (approve_action orchDeps i t) (fetched e i t) (\<lambda>_ _. True)" for i
    unfolding approve_action_def orchDeps_simps
    by (auto intro!: bind_quiet lawful_Transition rg_approve_post split: option.splits)
  have reject: "rg e (money_step e) (reject_action orchDeps req t) (fetched e i t) (\<lambda>_ _. True)" for i
    unfolding reject_action_def Let_def orchDeps_simps
    by (auto intro!: quiet bind_quiet lawful_setters lawful_Transition
        rg_quiet_end [OF lawful_respond_updated stable_fetched] split: option.splits)
  show ?thesis
    unfolding perform_action_def Let_def
    by (auto intro!: quiet lawful_WriteEvent lawful_setters approve reject)
qed

lemma rg_PostAction: "rg e (money_step e) (PostAction body c) (wf_ids e) (\<lambda>_ _. True)"
proof -
  have "rg e (money_step e) (case r of
            Inl _ \<Rightarrow> Ret (error_json 404 ''transfer not found'')
          | Inr t \<Rightarrow>
              if CorrespondentIDFromContext c \<noteq> '''' \<and> tr_CorrespondentID t \<noteq> CorrespondentIDFromContext c
              then Ret (error_json 404 ''transfer not found'')
              else if \<not> isReviewable t then Ret (error_json 400 (not_reviewable_msg (tr_State t)))
              else perform_action (OperatorIDFromContext c) req t)
     (\<lambda>d. wf_ids e d \<and> (\<forall>t. r = Inr t \<longrightarrow> fetched e (ac_TransferID req) t d)) (\<lambda>_ _. True)" for r req
    by (cases r) (auto intro: rg_pre [OF rg_perform_action])
  then show ?thesis
    unfolding PostAction_def by (auto intro!: rg_bind [OF rg_GetByID] split: option.splits)
qed

section \<open>Returns\<close>

lemma rg_return: "rg e (money_step e) (ReturnHandler_ProcessReturn body) (wf_ids e) (\<lambda>_ _. True)"
proof -
  have ret: "rg e (money_step e) (ProcessReturn returnDeps inp) (wf_ids e) (\<lambda>_. wf_ids e)" for inp
    using rg_frame [OF rg_ProcessReturn [of e inp] stable_wf_ids [of e]] by simp
  have resp: "rg e (money_step e) (respond_updated i) (wf_ids e) (\<lambda>_ _. True)" for i
    by (rule rg_quiet_end [OF lawful_respond_updated stable_wf_ids])
  show ?thesis
    unfolding ReturnHandler_ProcessReturn_def Let_def
    by (auto intro!: rg_bind_quiet [OF _ stable_wf_ids] lawful.quiet lawful.queries
        rg_bind [OF ret] resp split: option.splits sum.splits)
qed

section \<open>Settlement\<close>

lemma rg_settlement_trigger:
  "rg e (money_step e) (SettlementHandler_Trigger (settlementEngine rng)) (wf_ids e) (\<lambda>_ _. True)"
proof -
  note bind_quiet = rg_bind_quiet [OF _ stable_wf_ids]
  have ack: "rg e (money_step e) (AcknowledgeBatch (settlementEngine rng) b ts) (wf_ids e) (\<lambda>_. wf_ids e)" for b ts
    using rg_frame [OF rg_AcknowledgeBatch [of e rng b ts] stable_wf_ids [of e]] by simp
  have "rg e (money_step e) (case r of
          Inl _ \<Rightarrow> Ret bs
        | Inr ack \<Rightarrow>
            bind time_now (\<lambda>now.
              let ackTime = (case ack_AcknowledgedAt ack of None \<Rightarrow> now | Some t \<Rightarrow> t) in
              bind (AcknowledgeBatch (settlementEngine rng) b ackTime) (\<lambda>err. Ret (case err of
                  Some _ \<Rightarrow> bs
                | None \<Rightarrow> bs\<lparr>bs_BatchID := ack_BatchID ack\<rparr>)))) (wf_ids e) (\<lambda>_. wf_ids e)" for r bs b
    by (cases r) (auto simp: Let_def intro!: bind_quiet lawful.quiet rg_bind [OF ack])
  note sub = bind_quiet [OF lawful_submitToSettlementBank this]
  have one: "rg e (money_step e) (submit_batch (settlementEngine rng) bs) (wf_ids e) (\<lambda>_. wf_ids e)" for bs
    unfolding submit_batch_def settlementEngine_simps
  proof (rule bind_quiet [OF lawful.quiet(5)], rule rg_ignoring_quiet [OF lawful_other_writes(4) stable_wf_ids],
      rule bind_quiet [OF lawful.quiet(8)], goal_cases)
    case (1 b f)
    show ?case
    proof (cases f)
      case (Inr x)
      show ?thesis unfolding Inr sum.case by (rule sub)
    qed simp
  qed
  have "rg e (money_step e) (submit_batches (settlementEngine rng) ss) (wf_ids e) (\<lambda>_. wf_ids e)" for ss
    by (induction ss) (auto intro!: rg_bind [OF one] intro: rg_bind)
  then have "rg e (money_step e) (bind (submit_batches (settlementEngine rng) ss) (\<lambda>x. Ret (f x))) (wf_ids e)
      (\<lambda>_ _. True)" for ss and f :: "BatchSummary list \<Rightarrow> response"
    by (rule rg_bind) simp
  then show ?thesis
    unfolding SettlementHandler_Trigger_def
    by (auto intro!: bind_quiet lawful.quiet lawful_Trigger split: sum.splits)
qed

section \<open>Deposits\<close>

lemma rg_GetByCode:
  "rg e (money_step e) (GetByCode code) (wf_ids e)
     (\<lambda>r d. wf_ids e d \<and> (\<forall>a. r = Inr a \<longrightarrow> canonical e (a_id a)))"
proof -
  define Q :: "go_error + account_row option \<Rightarrow> db \<Rightarrow> bool"
    where "Q = (\<lambda>r d. wf_ids e d \<and> (\<forall>a. r = Inr (Some a) \<longrightarrow> canonical e (a_id a)))"
  have st: "stable (money_step e) (Q r)" for r
    unfolding Q_def by (intro stable_conj stable_wf_ids stable_True)
  have "rg e (money_step e) (sql (\<lambda>e n d. Inr (row_of a_code code (accounts d), d))) (wf_ids e) Q"
    by (rule rg_sql [OF _ _ stable_wf_ids st])
       (auto simp: Q_def money_step_refl wf_ids_def account_ids_def dest!: row_of_in)
  then show ?thesis
    unfolding GetByCode_def
    by (rule rg_bind) (auto simp: Q_def scanAccount_def split: sum.splits option.splits)
qed

text \<open>A created transfer belongs to the account it was created for.\<close>

lemma Create_money_step:
  assumes env: "uuid_env e" and wf: "wf_ids e d"
    and "Create_stmt ci e n d = Inr (row, d')"
  shows "money_step e d d'" "canonical e (t_id row)"
    "\<exists>a. uuid_parse e (ci_AccountID ci) = Some a \<and> t_account_id row = a \<and> owned (t_id row) a d'"
proof -
  have row: "t_id row = fresh_uuid e n" "transfer_of d (t_id row) = None" "t_state row = Requested"
    "d' = d\<lparr>transfers := transfers d @ [row]\<rparr>" "t_account_id row \<in> account_ids d"
    "uuid_parse e (ci_AccountID ci) = Some (t_account_id row)"
    using assms(3) by (auto simp: Create_stmt_def Let_def account_ids_iff split: option.splits if_splits)
  have look: "transfer_of d' i = (if i = t_id row then Some row else transfer_of d i)" for i
    using row(2) by (auto simp: row(4) db_simps split: option.splits)
  show "canonical e (t_id row)" using env by (simp add: row(1) uuid_env_def)
  have law: "lawful valid_step d d'"
  proof -
    have "t_id row \<notin> t_id ` set (transfers d)" using row(2) by (simp add: row_of_None_iff)
    moreover have "lawful_transfer valid_step (account_ids d) (transfer_of d i) (transfer_of d' i)" for i
      using row(2,3,5) by (cases "transfer_of d i") (auto simp: look)
    ultimately show ?thesis by (simp add: lawful_def row(4) exI [of _ "[]"])
  qed
  moreover have "backed d'" if "backed d"
    unfolding backed_def
  proof (intro allI impI)
    fix i r assume r: "transfer_of d' i = Some r"
    show "backed_state d' r (t_state r)"
    proof (cases "i = t_id row")
      case True
      with r have "r = row" by (simp add: look)
      then show ?thesis by (simp add: row(3))
    next
      case False
      with r that have "backed_state d r (t_state r)" by (simp add: look backed_def)
      then show ?thesis using backed_state_lawful [OF law, of r r] by simp
    qed
  qed
  moreover have "wf_ids e d'"
    unfolding wf_ids_def account_ids_lawful [OF law] look
    using wf law env row by (auto simp: wf_ids_def lawful_def uuid_env_def)
  ultimately show "money_step e d d'" by (simp add: money_step_def)
  show "\<exists>a. uuid_parse e (ci_AccountID ci) = Some a \<and> t_account_id row = a \<and> owned (t_id row) a d'"
    using row(6) by (simp add: owned_def look)
qed

definition created :: "env \<Rightarrow> uuid \<Rightarrow> Transfer \<Rightarrow> db \<Rightarrow> bool" where
  "created e a t d \<longleftrightarrow> parsed_owned e (tr_ID t) a d"

lemma stable_created: "stable (money_step e) (created e a t)"
  unfolding created_def [abs_def] by (rule stable_parsed_owned)

lemma rg_Create:
  assumes env: "uuid_env e" and acct: "canonical e (ci_AccountID ci)"
  shows "rg e (money_step e) (Create ci) (wf_ids e)
     (\<lambda>r d. wf_ids e d \<and> (\<forall>t. r = Inr t \<longrightarrow> created e (ci_AccountID ci) t d))"
proof -
  let ?Q = "\<lambda>r d. wf_ids e d \<and> (\<forall>row. r = Inr row \<longrightarrow> parsed_owned e (t_id row) (ci_AccountID ci) d)"
  have st: "stable (money_step e) (?Q r)" for r :: "go_error + transfer_row"
    by (intro stable_conj stable_wf_ids stable_all stable_imp stable_parsed_owned)
  have "rg e (money_step e) (sql (Create_stmt ci)) (wf_ids e) ?Q"
  proof (rule rg_sql [OF _ _ stable_wf_ids st])
    fix n d row d'
    assume wf: "wf_ids e d" and c: "Create_stmt ci e n d = Inr (row, d')"
    note step = Create_money_step [OF env wf c]
    have "wf_ids e d'" using step(1) wf by (simp add: money_step_def)
    then have "parsed_owned e (t_id row) (ci_AccountID ci) d'"
      using step(2,3) acct by (auto simp: parsed_owned_def canonical_def)
    with step(1) \<open>wf_ids e d'\<close> show "money_step e d d' \<and> ?Q (Inr row) d'" by simp
  qed simp
  then show ?thesis
    unfolding Create_def
  proof (rule rg_bind, goal_cases)
    case (1 r)
    show ?case by (cases r) (auto simp: created_def scanTransfer_def)
  qed
qed

lemma rg_run_deposit:
  "rg e (money_step e) (run_deposit h req acct corrID corr t) (created e (a_id acct) t) (\<lambda>_ _. True)"
proof -
  have td: "td_TransferID (transfer_detail t acct corrID corr req x refs) = tr_ID t"
    "td_AccountID (transfer_detail t acct corrID corr req x refs) = a_id acct" for x refs
    by (simp_all add: transfer_detail_def)
  have process: "rg e (money_step e)
      (ProcessDeposit orchDeps (transfer_detail t acct corrID corr req x refs)) (created e (a_id acct) t)
      (\<lambda>_. created e (a_id acct) t)" for x refs
    using rg_frame [OF rg_ProcessDeposit [of e "transfer_detail t acct corrID corr req x refs"]
        stable_created [of e "a_id acct" t]]
    by (simp add: td created_def [abs_def])
  show ?thesis
    unfolding run_deposit_def
    by (auto intro!: rg_ignoring_quiet [OF lawful_WriteEvent stable_created]
        rg_bind_quiet [OF lawful_save_images stable_created] rg_bind [OF process]
        rg_bind_quiet [OF lawful.queries(1) stable_created])
qed

lemma rg_CreateDeposit:
  assumes "uuid_env e"
  shows "rg e (money_step e) (CreateDeposit h) (wf_ids e) (\<lambda>_ _. True)"
proof -
  have make: "rg e (money_step e) (create_transfer h req acct corrID) (wf_ids e) (\<lambda>_ _. True)"
    if "canonical e (a_id acct)" for req acct corrID
  proof -
    have run: "rg e (money_step e) (case r of
             Inl _ \<Rightarrow> Ret (error_json 500 ''failed to create transfer'')
           | Inr t \<Rightarrow> run_deposit h req acct corrID corr t)
        (\<lambda>d. wf_ids e d \<and> (\<forall>t. r = Inr t \<longrightarrow> created e (a_id acct) t d)) (\<lambda>_ _. True)" for r corr
      by (cases r) (auto intro: rg_pre [OF rg_run_deposit])
    have create: "rg e (money_step e) (bind (Create \<lparr>ci_AccountID = a_id acct, ci_FromAccountID = omni,
          ci_CorrespondentID = corrID, ci_Amount = dr_Amount req\<rparr>) (\<lambda>r. case r of
             Inl _ \<Rightarrow> Ret (error_json 500 ''failed to create transfer'')
           | Inr t \<Rightarrow> run_deposit h req acct corrID corr t)) (wf_ids e) (\<lambda>_ _. True)" for omni corr
      by (rule rg_bind [OF rg_Create [OF assms]]) (use that run in simp_all)
    show ?thesis
      unfolding create_transfer_def
      by (auto intro!: rg_bind_quiet [OF lawful.queries(14) stable_wf_ids]
          rg_bind_quiet [OF lawful.queries(12) stable_wf_ids] create split: sum.splits)
  qed
  have "rg e (money_step e) (case r of
               Inl _ \<Rightarrow> Ret (error_json 404 ''account not found'')
             | Inr acct \<Rightarrow> (case a_correspondent_id acct of
                    None \<Rightarrow> Ret (error_json 400 ''cannot deposit to this account type'')
                  | Some corrID \<Rightarrow> create_transfer h req acct corrID))
      (\<lambda>d. wf_ids e d \<and> (\<forall>a. r = Inr a \<longrightarrow> canonical e (a_id a))) (\<lambda>_ _. True)" for r req
  proof (cases r)
    case (Inr acct)
    show ?thesis
    proof (cases "canonical e (a_id acct)")
      case True
      with Inr make show ?thesis by (auto intro: rg_pre split: option.splits)
    next
      case False
      then have "rg e (money_step e) p (\<lambda>d. wf_ids e d \<and> (\<forall>a. r = Inr a \<longrightarrow> canonical e (a_id a))) Q"
        for p :: "response prog" and Q
        using Inr by (cases p) (auto simp: rg_Step)
      then show ?thesis by blast
    qed
  qed simp
  then show ?thesis
    unfolding CreateDeposit_def by (auto intro!: rg_bind [OF rg_GetByCode] split: sum.splits option.splits)
qed

end
