(* ===== verification/Statements.thy ===== *)
theory Statements
  imports Server
begin

text \<open>
  The writes of the program: \<open>store_write\<close> relates the database before and after one statement of the stores
  that changes it, one rule per statement, and \<open>api_step\<close> adds the table of stored responses. Every step of
  every request is one of them or leaves the database as it was; what the statements keep, the running
  system keeps.
\<close>

section \<open>The statements\<close>

text \<open>An update that leaves the keys, the amount and the references of a transfer alone.\<close>

definition plain_fields :: "(transfer_row \<Rightarrow> transfer_row) \<Rightarrow> bool" where
  "plain_fields f \<longleftrightarrow> (\<forall>r. t_id (f r) = t_id r \<and> t_account_id (f r) = t_account_id r \<and>
     t_from_account_id (f r) = t_from_account_id r \<and> t_correspondent_id (f r) = t_correspondent_id r \<and>
     t_amount (f r) = t_amount r \<and> t_vendor_transaction_id (f r) = t_vendor_transaction_id r \<and>
     t_confidence_score (f r) = t_confidence_score r \<and>
     t_settlement_batch_id (f r) = t_settlement_batch_id r)"

inductive store_write :: "db \<Rightarrow> db \<Rightarrow> bool" where
  w_Create: "Create_stmt ci e n d = Inr (x, d') \<Longrightarrow> store_write d d'"
| w_UpdateState: "UpdateState_stmt i from to e n d = Inr (x, d') \<Longrightarrow> store_write d d'"
| w_fields: "plain_fields f \<Longrightarrow> set_transfer_stmt i f e n d = Inr (y, d') \<Longrightarrow> store_write d d'"
| w_SetVSSResults: "SetVSSResults_stmt i tx cs micr e n d = Inr (y, d') \<Longrightarrow> store_write d d'"
| w_WriteEvent: "WriteEvent_stmt i step actor payload e n d = Inr (y, d') \<Longrightarrow> store_write d d'"
| w_Notify: "Notify_stmt payload e n d = Inr (y, d') \<Longrightarrow> store_write d d'"
| w_InsertEntries: "InsertEntries_stmt les e n d = Inr (y, d') \<Longrightarrow> store_write d d'"
| w_SetStatus: "store_write d (d\<lparr>accounts := upd_row a_id a (\<lambda>r. r\<lparr>a_status := s\<rparr>) (accounts d)\<rparr>)"
| w_CreateNotification: "account_of d (n_account_id row) \<noteq> None \<Longrightarrow> n_transfer_id row = Some t \<Longrightarrow>
    transfer_of d t \<noteq> None \<Longrightarrow> store_write d (d\<lparr>notifications := notifications d @ [row]\<rparr>)"
| w_MarkRead: "MarkRead_stmt i e n d = Inr (k, d') \<Longrightarrow> store_write d d'"
| w_CreateBatch: "CreateBatch_stmt corr day ref cnt tot e n d = Inr (u, d') \<Longrightarrow> store_write d d'"
| w_UpdateBatchStatus: "UpdateBatchStatus_stmt b st at0 e n d = Inr (y, d') \<Longrightarrow> store_write d d'"
| w_SetSettlementBatch: "SetSettlementBatch_stmt i b at0 e n d = Inr (y, d') \<Longrightarrow> store_write d d'"
| w_insert_demo_batch: "insert_demo_batch corr cnt e n d = Inr (p, d') \<Longrightarrow> store_write d d'"
| w_link_unbatched: "link_unbatched_stmt b e n d = Inr (y, d') \<Longrightarrow> store_write d d'"

definition store_step :: "db \<Rightarrow> db \<Rightarrow> bool" where
  "store_step d d' \<longleftrightarrow> d' = d \<or> store_write d d'"

lemma store_stepI: "store_write d d' \<Longrightarrow> store_step d d'"
  by (simp add: store_step_def)

lemma store_step_refl [simp]: "store_step d d"
  by (simp add: store_step_def)

interpretation store: reflexive_guarantee store_step
  by unfold_locales simp

text \<open>The stores touch neither the correspondents nor the stored responses.\<close>

lemma InsertEntries_other_tables:
  "InsertEntries_stmt les e n d = Inr (y, d') \<Longrightarrow> \<exists>rows. d' = d\<lparr>ledger_entries := rows\<rparr>"
proof (induction les arbitrary: d)
  case (Cons le les)
  then show ?case by (fastforce simp: insert_entry_Inr split: sum.splits)
qed (auto intro: exI [where x = "ledger_entries d'"])

lemma store_step_other:
  assumes "store_step d d'"
  shows "idempotency_keys d' = idempotency_keys d \<and> correspondents d' = correspondents d"
proof -
  have "store_write d d' \<Longrightarrow> idempotency_keys d' = idempotency_keys d \<and> correspondents d' = correspondents d"
    by (induction rule: store_write.induct)
       (auto simp: Create_stmt_def UpdateState_stmt_def set_transfer_stmt_def SetVSSResults_stmt_def
         WriteEvent_stmt_def Notify_stmt_def MarkRead_stmt_def CreateBatch_stmt_def UpdateBatchStatus_stmt_def
         SetSettlementBatch_stmt_def insert_demo_batch_def insert_batch_def link_unbatched_stmt_def Let_def
         dest!: InsertEntries_other_tables
         split: option.split_asm if_split_asm sum.split_asm batch_status.split_asm)
  with assms show ?thesis by (auto simp: store_step_def)
qed

lemmas store_step_keys = store_step_other [THEN conjunct1]

section \<open>The stores take these steps\<close>

lemma store_transfer_writes:
  "guarantees store_step (Create ci)" "guarantees store_step (UpdateState i from to)"
  "guarantees store_step (WriteEvent i step actor payload)" "guarantees store_step (Notify i payload)"
  "guarantees store_step (SetVSSResults i tx cs micr)" "guarantees store_step (InsertEntries les)"
  unfolding Create_def UpdateState_def WriteEvent_def Notify_def SetVSSResults_def InsertEntries_def
  by (auto intro!: guarantees_bind store.sqlI store.exec_sqlI store_stepI
      intro: w_Create w_UpdateState w_WriteEvent w_Notify w_SetVSSResults w_InsertEntries)

lemma store_setters:
  "guarantees store_step (SetErrorCode i code)" "guarantees store_step (SetReviewReason i reason)"
  "guarantees store_step (SetContributionType i ct)" "guarantees store_step (SetImageRefs i fr bk)"
  unfolding SetErrorCode_def SetReviewReason_def SetContributionType_def SetImageRefs_def
  by (rule store.exec_sqlI, rule store_stepI, erule w_fields [rotated], simp add: plain_fields_def)+

lemma store_other_writes:
  "guarantees store_step (SetStatus a s)"
  "guarantees store_step (Notifications_MarkRead i)" "guarantees store_step (UpdateBatchStatus b st at0)"
  "guarantees store_step (CreateBatch corr day ref cnt tot)" "guarantees store_step (SetSettlementBatch i b at0)"
  unfolding SetStatus_def Notifications_MarkRead_def UpdateBatchStatus_def CreateBatch_def SetSettlementBatch_def
  by (auto intro!: guarantees_bind store.sqlI store.exec_sqlI store_stepI
      intro: w_SetStatus w_MarkRead w_UpdateBatchStatus w_CreateBatch w_SetSettlementBatch)

lemma store_CreateNotification: "guarantees store_step (CreateNotification acct t typ msg)"
  unfolding CreateNotification_def
  by (rule store.exec_sqlI) (auto intro!: store_stepI w_CreateNotification split: if_splits)

lemma store_CreateDemoBatch: "guarantees store_step CreateDemoBatch"
proof -
  have demo: "guarantees store_step (sql (insert_demo_batch corr k))" "guarantees store_step (exec_sql (link_unbatched_stmt b))"
    for corr k b
    by (auto intro!: store.sqlI store.exec_sqlI store_stepI intro: w_insert_demo_batch w_link_unbatched)
  then show ?thesis
    unfolding CreateDemoBatch_def
    by (intro guarantees_bind store.query)
       (auto intro!: guarantees_bind store.query demo split: sum.splits option.splits list.splits simp: Let_def)
qed

lemmas store_ops = store_transfer_writes store_setters store_other_writes store_CreateNotification
  store.queries store.GetBatch store.quiet store.services

section \<open>The requests take these steps\<close>

lemma store_flow_ops:
  "guarantees store_step (Transition transferStore WriteEvent (Some Notify) i from to)"
  "guarantees store_step (setErrorCode transferStore i code)"
  "guarantees store_step (setReviewReason transferStore i reason)"
  "guarantees store_step (setContributionType transferStore i ct)"
  "guarantees store_step (updateTransferVSSResults transferStore i resp)"
  "guarantees store_step (PostDoubleEntry dr cr amount memo i)"
  by (auto intro!: guarantees_bind guarantees_ignoring store_ops split: option.splits
      simp: Transition_def writeStateChangedEvent_def notify_best_effort_def setErrorCode_def setReviewReason_def
        setContributionType_def updateTransferVSSResults_def if_fields_def transferStore_def PostDoubleEntry_def)

lemma store_ProcessDeposit: "guarantees store_step (ProcessDeposit orchDeps td)"
  unfolding ProcessDeposit_def after_vss_def evaluate_funding_def post_funds_def post_ledger_def
    finish_posting_def reject_with_def setErrorAndReject_def Let_def orchDeps_simps
  by (auto intro!: guarantees_bind guarantees_ignoring store_flow_ops store_ops split: sum.splits option.splits)

lemma store_CreateDeposit: "guarantees store_step (CreateDeposit h)"
proof -
  have "guarantees store_step (save_images i h)" for i
    unfolding save_images_def save_image_def Let_def
    by (auto intro!: guarantees_bind guarantees_ignoring store_ops store.steps split: option.splits bool.splits)
  then show ?thesis
    unfolding CreateDeposit_def create_transfer_def run_deposit_def Let_def
    by (auto intro!: guarantees_bind guarantees_ignoring store_ops store_ProcessDeposit
        split: sum.splits option.splits)
qed

lemma store_PostAction: "guarantees store_step (PostAction body c)"
  unfolding PostAction_def perform_action_def approve_action_def approve_post_def reject_action_def
    respond_updated_def Let_def orchDeps_simps
  by (auto intro!: guarantees_bind guarantees_ignoring store_ops store_flow_ops split: sum.splits option.splits)

lemma store_return: "guarantees store_step (ReturnHandler_ProcessReturn body)"
proof -
  have reads: "guarantees store_step (Adapter_GetTransfer i)" "guarantees store_step (Adapter_GetReturnedCheckFee c)"
    "guarantees store_step Adapter_GetFeeAccountID" for i c
    unfolding Adapter_GetTransfer_def Adapter_GetReturnedCheckFee_def Adapter_GetFeeAccountID_def parse_or_nil_def
    by (auto intro!: guarantees_bind store_ops split: sum.splits)
  have "guarantees store_step (flag_negative returnDeps a)" for a
    unfolding flag_negative_def
    by (auto intro!: guarantees_bind guarantees_ignoring store_ops split: sum.splits option.splits)
  then have "guarantees store_step (finish_return returnDeps inp t fee u)" for inp t fee u
    unfolding finish_return_def after_return_def Let_def returnDeps_simps
    by (auto intro!: guarantees_bind guarantees_ignoring store_ops split: option.splits)
  then have "guarantees store_step (ProcessReturn returnDeps inp)" for inp
    unfolding ProcessReturn_def return_transfer_def post_return_def post_fee_def returnDeps_simps orchDeps_simps Let_def
    by (auto intro!: guarantees_bind guarantees_ignoring reads store_flow_ops store_ops split: sum.splits option.splits)
  then show ?thesis
    unfolding ReturnHandler_ProcessReturn_def respond_updated_def Let_def
    by (auto intro!: guarantees_bind store_ops split: sum.splits option.splits)
qed

lemma store_Trigger: "guarantees store_step (Trigger (settlementEngine rng) now)"
proof -
  have "guarantees store_step (link_transfers (settlementEngine rng) b ts)" for b ts
    by (induction ts) (auto intro!: guarantees_ignoring store_ops)
  then have "guarantees store_step (settle_group (settlementEngine rng) dir day corr ts)" for dir day corr ts
    unfolding settle_group_def buildSettlementFile_def prefix8_def writeSettlementFile_def Let_def
    by (auto intro!: guarantees_bind store_ops split: sum.splits option.splits)
  then have "guarantees store_step (settle_groups (settlementEngine rng) dir day gs res)" for dir day gs res
    by (induction gs arbitrary: res) (auto intro!: guarantees_bind split: sum.splits)
  then show ?thesis
    unfolding Trigger_def Let_def
    by (auto intro!: guarantees_bind store.steps store_ops split: sum.splits option.splits)
qed

lemma store_settlement_trigger:
  "guarantees store_step (SettlementHandler_Trigger (settlementEngine rng))"
proof -
  have "guarantees store_step (complete_transfer (settlementEngine rng) b ts i)" for b ts i
    unfolding complete_transfer_def notify_best_effort_def settlementEngine_simps option.case
    by (auto intro!: guarantees_bind guarantees_ignoring store_ops split: option.splits)
  then have "guarantees store_step (complete_transfers (settlementEngine rng) b ts ids)" for b ts ids
    by (induction ids) (auto intro!: guarantees_bind)
  then have "guarantees store_step (AcknowledgeBatch (settlementEngine rng) b ts)" for b ts
    unfolding AcknowledgeBatch_def settlementEngine_simps
    by (auto intro!: guarantees_bind store_ops split: sum.splits option.splits)
  then have "guarantees store_step (submit_batch (settlementEngine rng) bs)" for bs
    unfolding submit_batch_def submitToSettlementBank_def settlementEngine_simps Let_def
    by (auto intro!: guarantees_bind guarantees_ignoring store_ops split: sum.splits stored_file.splits)
  then have "guarantees store_step (submit_batches (settlementEngine rng) ss)" for ss
    by (induction ss) (auto intro!: guarantees_bind)
  then show ?thesis
    unfolding SettlementHandler_Trigger_def
    by (auto intro!: guarantees_bind store.quiet store_Trigger split: sum.splits)
qed

lemma store_small_writes:
  "guarantees store_step SettlementHealth_Trigger" "guarantees store_step (MarkRead i c)"
  unfolding SettlementHealth_Trigger_def MarkRead_def
  by (auto intro!: guarantees_bind store_ops store_CreateDemoBatch split: sum.splits option.splits)

section \<open>Every step of the server\<close>

inductive api_step :: "db \<Rightarrow> db \<Rightarrow> bool" where
  api_store: "store_step d d' \<Longrightarrow> api_step d d'"
| api_response: "row_of i_key (i_key row) (idempotency_keys d) = None \<Longrightarrow>
    transfer_of d (i_transfer_id row) \<noteq> None \<Longrightarrow>
    api_step d (d\<lparr>idempotency_keys := idempotency_keys d @ [row]\<rparr>)"

inductive_cases api_stepE: "api_step d d'"

interpretation api_reads: reflexive_guarantee api_step
  by unfold_locales (simp add: api_store)

lemma api_of_store: "guarantees store_step p \<Longrightarrow> guarantees api_step p"
  by (erule guarantees_mono) (rule api_store)

lemma api_Idempotency: "guarantees store_step nxt \<Longrightarrow> guarantees api_step (Idempotency key nxt)"
proof -
  assume "guarantees store_step nxt"
  then have nxt: "guarantees api_step nxt" by (rule api_of_store)
  have idem: "guarantees api_step (Idem_Store key i code m)" for i code m
    unfolding Idem_Store_def
    by (rule api_reads.exec_sqlI) (auto simp: api_store intro: api_response split: if_splits)
  show ?thesis
    unfolding Idempotency_def
    by (auto intro!: guarantees_bind api_reads.queries nxt idem split: option.splits)
qed

lemma api_serve: "guarantees api_step (serve rq)"
  by (cases rq)
     (auto intro!: api_Idempotency store_CreateDeposit api_reads.deposit_reads api_reads.other_reads
       api_reads.SettlementAuth guarantees_Auth
       intro: api_of_store store_return store_PostAction store_settlement_trigger store_small_writes)

end
