(* ===== verification/Schema.thy ===== *)
theory Schema
  imports Statements
begin

text \<open>
  The type of the database: the keys, references and checks that \<open>db/migrations\<close> declares, one definition per
  table over the ids its rows may refer to, and the proof that every statement of the program keeps them. The
  primary keys that PostgreSQL itself generates (of entries, events and notifications) are left to it.
\<close>

section \<open>The constraints of the migrations\<close>

definition correspondent_ids :: "db \<Rightarrow> uuid set" where
  "correspondent_ids d = c_id ` set (correspondents d)"

definition transfer_ids :: "db \<Rightarrow> uuid set" where
  "transfer_ids d = t_id ` set (transfers d)"

definition batch_ids :: "db \<Rightarrow> uuid set" where
  "batch_ids d = b_id ` set (settlement_batches d)"

text \<open>The range of a NUMERIC(p,2) column.\<close>

fun numeric_fits :: "nat \<Rightarrow> numeric \<Rightarrow> bool" where
  "numeric_fits p (Num c) = (\<bar>c\<bar> < 10 ^ p)"
| "numeric_fits p NumNaN = True"

definition correspondents_ok :: "correspondent_row list \<Rightarrow> bool" where
  "correspondents_ok rows \<longleftrightarrow> distinct (map c_id rows) \<and> distinct (map c_code rows)"

definition accounts_ok :: "uuid set \<Rightarrow> account_row list \<Rightarrow> bool" where
  "accounts_ok C rows \<longleftrightarrow>
     distinct (map a_id rows) \<and> distinct (map a_code rows) \<and> (\<forall>a \<in> set rows. \<forall>c. a_correspondent_id a = Some c \<longrightarrow> c \<in> C)"

definition transfer_ok :: "uuid set \<Rightarrow> uuid set \<Rightarrow> uuid set \<Rightarrow> transfer_row \<Rightarrow> bool" where
  "transfer_ok A C B r \<longleftrightarrow>
     t_account_id r \<in> A \<and> t_from_account_id r \<in> A \<and> t_correspondent_id r \<in> C \<and>
     numeric_fits 12 (t_amount r) \<and> numeric_pos (t_amount r) \<and>
     (\<forall>x. t_confidence_score r = Some x \<longrightarrow> numeric_fits 4 x) \<and>
     (\<forall>b. t_settlement_batch_id r = Some b \<longrightarrow> b \<in> B)"

text \<open>\<open>UNIQUE (account_id, vendor_transaction_id)\<close>; NULLs never clash.\<close>

definition vendor_key :: "transfer_row \<Rightarrow> (uuid \<times> string) option" where
  "vendor_key r = map_option (Pair (t_account_id r)) (t_vendor_transaction_id r)"

definition vendor_unique :: "transfer_row list \<Rightarrow> bool" where
  "vendor_unique rows \<longleftrightarrow>
     (\<forall>r \<in> set rows. \<forall>r' \<in> set rows. vendor_key r = vendor_key r' \<longrightarrow> vendor_key r \<noteq> None \<longrightarrow> t_id r = t_id r')"

definition transfers_ok :: "uuid set \<Rightarrow> uuid set \<Rightarrow> uuid set \<Rightarrow> transfer_row list \<Rightarrow> bool" where
  "transfers_ok A C B rows \<longleftrightarrow>
     distinct (map t_id rows) \<and> list_all (transfer_ok A C B) rows \<and> vendor_unique rows"

definition entries_ok :: "uuid set \<Rightarrow> uuid set \<Rightarrow> ledger_row list \<Rightarrow> bool" where
  "entries_ok T A rows \<longleftrightarrow>
     distinct (map entry_key rows) \<and>
     (\<forall>r \<in> set rows. l_transfer_id r \<in> T \<and> l_account_id r \<in> A \<and> numeric_fits 12 (l_amount r) \<and> numeric_pos (l_amount r))"

definition events_ok :: "uuid set \<Rightarrow> event_row list \<Rightarrow> bool" where
  "events_ok T rows \<longleftrightarrow> (\<forall>v \<in> set rows. ev_transfer_id v \<in> T)"

definition batches_ok :: "uuid set \<Rightarrow> batch_row list \<Rightarrow> bool" where
  "batches_ok C rows \<longleftrightarrow>
     distinct (map b_id rows) \<and>
     (\<forall>b \<in> set rows. b_correspondent_id b \<in> C \<and> (\<forall>x. b_total_amount b = Some x \<longrightarrow> numeric_fits 14 x))"

definition notifications_ok :: "uuid set \<Rightarrow> uuid set \<Rightarrow> notification_row list \<Rightarrow> bool" where
  "notifications_ok A T rows \<longleftrightarrow>
     (\<forall>n \<in> set rows. n_account_id n \<in> A \<and> (\<forall>t. n_transfer_id n = Some t \<longrightarrow> t \<in> T))"

definition responses_ok :: "uuid set \<Rightarrow> json idempotency_row list \<Rightarrow> bool" where
  "responses_ok T rows \<longleftrightarrow> distinct (map i_key rows) \<and> (\<forall>r \<in> set rows. i_transfer_id r \<in> T)"

definition schema :: "db \<Rightarrow> bool" where
  "schema d \<longleftrightarrow>
     correspondents_ok (correspondents d) \<and>
     accounts_ok (correspondent_ids d) (accounts d) \<and>
     transfers_ok (account_ids d) (correspondent_ids d) (batch_ids d) (transfers d) \<and>
     entries_ok (transfer_ids d) (account_ids d) (ledger_entries d) \<and>
     events_ok (transfer_ids d) (transfer_events d) \<and>
     batches_ok (correspondent_ids d) (settlement_batches d) \<and>
     notifications_ok (account_ids d) (transfer_ids d) (notifications d) \<and>
     responses_ok (transfer_ids d) (idempotency_keys d)"

section \<open>Growing tables\<close>

lemma id_iff:
  "transfer_of d i \<noteq> None \<longleftrightarrow> i \<in> transfer_ids d" "batch_of d i \<noteq> None \<longleftrightarrow> i \<in> batch_ids d"
  "row_of c_id i (correspondents d) \<noteq> None \<longleftrightarrow> i \<in> correspondent_ids d"
  "account_of d i \<noteq> None \<longleftrightarrow> i \<in> account_ids d"
  by (auto simp: row_of_None_iff transfer_ids_def batch_ids_def correspondent_ids_def account_ids_def)


lemma to_numeric_fits: "to_numeric p x = Some a \<Longrightarrow> numeric_fits p a"
  by (cases x) (auto simp: Let_def split: if_splits)

lemma table_mono:
  "transfers_ok A C B ts \<Longrightarrow> B \<subseteq> B' \<Longrightarrow> transfers_ok A C B' ts"
  "entries_ok T A ls \<Longrightarrow> T \<subseteq> T' \<Longrightarrow> entries_ok T' A ls"
  "events_ok T vs \<Longrightarrow> T \<subseteq> T' \<Longrightarrow> events_ok T' vs"
  "notifications_ok A T nts \<Longrightarrow> T \<subseteq> T' \<Longrightarrow> notifications_ok A T' nts"
  "responses_ok T rs \<Longrightarrow> T \<subseteq> T' \<Longrightarrow> responses_ok T' rs"
  by (auto simp: transfers_ok_def transfer_ok_def entries_ok_def events_ok_def notifications_ok_def
      responses_ok_def list_all_iff)

lemma upd_row_key_set:
  assumes "\<And>r. key (f r) = key r"
  shows "key ` set (upd_row key j f rows) = key ` set rows"
proof -
  have "map key (upd_row key j f rows) = map key rows" using assms by (rule upd_row_keys)
  then show ?thesis by (metis set_map)
qed

text \<open>An update of one transfer.\<close>

lemma transfers_ok_upd:
  assumes "transfers_ok A C B rows"
    and "\<And>r. t_id (f r) = t_id r"
    and "\<And>r. transfer_ok A C B r \<Longrightarrow> transfer_ok A C B (f r)"
    and "\<And>r r'. r \<in> set rows \<Longrightarrow> t_id r = i \<Longrightarrow> r' \<in> set rows \<Longrightarrow> t_id r' \<noteq> i \<Longrightarrow>
      vendor_key (f r) \<noteq> None \<Longrightarrow> vendor_key (f r) = vendor_key r' \<Longrightarrow> False"
  shows "transfers_ok A C B (upd_row t_id i f rows)"
proof -
  let ?g = "\<lambda>r. if t_id r = i then f r else r"
  have vu: "t_id r = t_id r'"
    if "r \<in> set rows" "r' \<in> set rows" "vendor_key r = vendor_key r'" "vendor_key r \<noteq> None" for r r'
    using assms(1) that unfolding transfers_ok_def vendor_unique_def by blast
  have "t_id (?g r) = t_id (?g r')"
    if "r \<in> set rows" "r' \<in> set rows" "vendor_key (?g r) = vendor_key (?g r')" "vendor_key (?g r) \<noteq> None" for r r'
  proof (cases "t_id r = i"; cases "t_id r' = i")
    assume i: "t_id r = i" "t_id r' \<noteq> i"
    have "vendor_key (f r) \<noteq> None" "vendor_key (f r) = vendor_key r'"
      using that i by (simp_all only: if_True if_False simp_thms)
    with assms(4) [OF that(1) i(1) that(2) i(2)] show ?thesis by blast
  next
    assume i: "t_id r \<noteq> i" "t_id r' = i"
    have "vendor_key (f r') \<noteq> None" "vendor_key (f r') = vendor_key r"
      using that i by (simp_all only: if_True if_False simp_thms)
    with assms(4) [OF that(2) i(2) that(1) i(1)] show ?thesis by blast
  next
    assume i: "t_id r \<noteq> i" "t_id r' \<noteq> i"
    then have "vendor_key r = vendor_key r'" "vendor_key r \<noteq> None" using that(3,4) by (simp_all only: if_False simp_thms)
    then have "t_id r = t_id r'" by (rule vu [OF that(1,2)])
    with i show ?thesis by (simp only: if_False)
  qed (simp add: assms(2))
  then have "vendor_unique (upd_row t_id i f rows)"
    unfolding vendor_unique_def set_upd_row by blast
  moreover have "list_all (transfer_ok A C B) (upd_row t_id i f rows)"
    using assms(1) by (auto simp: transfers_ok_def list_all_iff set_upd_row assms(3))
  ultimately show ?thesis
    using assms(1) by (simp add: transfers_ok_def upd_row_keys assms(2))
qed

lemma schema_upd_transfer:
  assumes "schema d" "\<And>r. t_id (f r) = t_id r"
    and "\<And>r. transfer_ok (account_ids d) (correspondent_ids d) (batch_ids d) r \<Longrightarrow>
      transfer_ok (account_ids d) (correspondent_ids d) (batch_ids d) (f r)"
    and "\<And>r r'. r \<in> set (transfers d) \<Longrightarrow> t_id r = i \<Longrightarrow> r' \<in> set (transfers d) \<Longrightarrow> t_id r' \<noteq> i \<Longrightarrow>
      vendor_key (f r) \<noteq> None \<Longrightarrow> vendor_key (f r) = vendor_key r' \<Longrightarrow> False"
  shows "schema (upd_transfer i f d)"
proof -
  have "map t_id (transfers (upd_transfer i f d)) = map t_id (transfers d)"
    by (simp add: upd_transfer_def upd_row_keys assms(2))
  then have ids: "transfer_ids (upd_transfer i f d) = transfer_ids d"
    by (metis transfer_ids_def set_map)
  have "transfers_ok (account_ids d) (correspondent_ids d) (batch_ids d) (upd_row t_id i f (transfers d))"
  proof (rule transfers_ok_upd)
    show "transfers_ok (account_ids d) (correspondent_ids d) (batch_ids d) (transfers d)"
      using assms(1) by (simp add: schema_def)
  qed (fact assms(2), fact assms(3), fact assms(4))
  then show ?thesis
    using assms(1) ids
    by (simp add: schema_def account_ids_def correspondent_ids_def batch_ids_def) (simp add: upd_transfer_def)
qed

section \<open>Every statement keeps the schema\<close>

lemma schema_tables:
  assumes "schema d"
  shows "accounts_ok (correspondent_ids d) (accounts d)"
    "transfers_ok (account_ids d) (correspondent_ids d) (batch_ids d) (transfers d)"
    "entries_ok (transfer_ids d) (account_ids d) (ledger_entries d)" "events_ok (transfer_ids d) (transfer_events d)"
    "batches_ok (correspondent_ids d) (settlement_batches d)"
    "notifications_ok (account_ids d) (transfer_ids d) (notifications d)"
    "responses_ok (transfer_ids d) (idempotency_keys d)"
  using assms by (simp_all add: schema_def)

lemma schema_upd_same:
  assumes "schema d" "\<And>r. t_id (f r) = t_id r" "\<And>r. vendor_key (f r) = vendor_key r"
    and "\<And>r. transfer_ok (account_ids d) (correspondent_ids d) (batch_ids d) r \<Longrightarrow>
      transfer_ok (account_ids d) (correspondent_ids d) (batch_ids d) (f r)"
  shows "schema (upd_transfer i f d)"
proof (rule schema_upd_transfer [OF assms(1,2,4)])
  fix r r' assume "r \<in> set (transfers d)" "t_id r = i" "r' \<in> set (transfers d)" "t_id r' \<noteq> i"
    "vendor_key (f r) \<noteq> None" "vendor_key (f r) = vendor_key r'"
  then show False
    using schema_tables(2) [OF assms(1)] unfolding assms(3) transfers_ok_def vendor_unique_def by metis
qed

text \<open>An update of fields that the constraints do not mention, or of the batch.\<close>

lemma schema_fields:
  assumes "set_transfer_stmt i f e n d = Inr (y, d')" "schema d"
    and "\<And>r. t_id (f r) = t_id r \<and> t_account_id (f r) = t_account_id r \<and> t_from_account_id (f r) = t_from_account_id r \<and>
      t_correspondent_id (f r) = t_correspondent_id r \<and> t_amount (f r) = t_amount r \<and>
      t_vendor_transaction_id (f r) = t_vendor_transaction_id r"
    and "\<And>r. t_settlement_batch_id (f r) = t_settlement_batch_id r \<or>
      (\<exists>b \<in> batch_ids d. t_settlement_batch_id (f r) = Some b)"
    and "\<And>r. t_confidence_score (f r) = t_confidence_score r"
  shows "schema d'"
proof -
  let ?f = "\<lambda>r. (f r)\<lparr>t_updated_at := clock e n\<rparr>"
  obtain u where d': "d' = upd_transfer u ?f d" using assms(1) by (auto simp: set_transfer_stmt_def)
  show ?thesis
    unfolding d'
  proof (rule schema_upd_same [OF assms(2)])
    fix r assume "transfer_ok (account_ids d) (correspondent_ids d) (batch_ids d) r"
    then show "transfer_ok (account_ids d) (correspondent_ids d) (batch_ids d) (?f r)"
      using assms(3-5) [of r] by (auto simp: transfer_ok_def)
  qed (simp_all add: assms(3) vendor_key_def)
qed

lemma schema_plain_fields:
  "set_transfer_stmt i f e n d = Inr (y, d') \<Longrightarrow> schema d \<Longrightarrow> plain_fields f \<Longrightarrow> schema d'"
  by (erule schema_fields) (auto simp: plain_fields_def)

lemma Create_stmt_Inr:
  "Create_stmt ci e n d = Inr (row, d') \<Longrightarrow>
   d' = d\<lparr>transfers := transfers d @ [row]\<rparr> \<and> transfer_of d (t_id row) = None \<and>
   account_of d (t_account_id row) \<noteq> None \<and> account_of d (t_from_account_id row) \<noteq> None \<and>
   row_of c_id (t_correspondent_id row) (correspondents d) \<noteq> None \<and>
   (\<exists>p. to_numeric 12 p = Some (t_amount row)) \<and> numeric_pos (t_amount row) \<and>
   t_vendor_transaction_id row = None \<and> t_confidence_score row = None \<and> t_settlement_batch_id row = None"
proof -
  assume c: "Create_stmt ci e n d = Inr (row, d')"
  then obtain amt where "to_numeric 12 (float_param e (ci_Amount ci)) = Some amt"
    by (cases "to_numeric 12 (float_param e (ci_Amount ci))") (auto simp: Create_stmt_def)
  with c show ?thesis by (auto simp: Create_stmt_def Let_def split: if_split_asm)
qed

lemma vendor_unique_snoc: "vendor_unique rows \<Longrightarrow> vendor_key x = None \<Longrightarrow> vendor_unique (rows @ [x])"
proof -
  assume vu: "vendor_unique rows" and x: "vendor_key x = None"
  have "t_id r = t_id r'" if "r \<in> set (rows @ [x])" "r' \<in> set (rows @ [x])" "vendor_key r = vendor_key r'"
    "vendor_key r \<noteq> None" for r r'
  proof -
    have "r \<noteq> x" "r' \<noteq> x" using that(3,4) x by metis+
    then have "r \<in> set rows" "r' \<in> set rows" using that(1,2) by simp_all
    with vu that(3,4) show ?thesis unfolding vendor_unique_def by metis
  qed
  then show ?thesis unfolding vendor_unique_def by metis
qed

lemma schema_Create:
  assumes "Create_stmt ci e n d = Inr (x, d')" "schema d"
  shows "schema d'"
proof -
  note c = Create_stmt_Inr [OF assms(1)]
  then have "transfer_ok (account_ids d) (correspondent_ids d) (batch_ids d) x" "t_id x \<notin> transfer_ids d"
    unfolding id_iff by (auto simp: transfer_ok_def to_numeric_fits row_of_None_iff transfer_ids_def)
  moreover have "vendor_key x = None" using c by (simp add: vendor_key_def)
  ultimately have "transfers_ok (account_ids d) (correspondent_ids d) (batch_ids d) (transfers d @ [x])"
    using schema_tables(2) [OF assms(2)] by (simp add: transfers_ok_def transfer_ids_def vendor_unique_snoc)
  moreover have "transfer_ids d \<subseteq> transfer_ids d'" using c by (auto simp: transfer_ids_def)
  ultimately show ?thesis
    using assms(2) c by (auto simp: schema_def account_ids_def correspondent_ids_def batch_ids_def intro: table_mono)
qed

lemma schema_UpdateState:
  assumes "UpdateState_stmt i from to e n d = Inr (x, d')" "schema d"
  shows "schema d'"
proof -
  have "schema (upd_transfer u (\<lambda>r. r\<lparr>t_state := to, t_updated_at := c\<rparr>) d)" for u c
    by (rule schema_upd_same [OF assms(2)]) (simp_all add: transfer_ok_def vendor_key_def)
  then show ?thesis
    using assms by (auto simp: UpdateState_stmt_def split: option.splits if_splits)
qed

lemma schema_SetVSSResults:
  assumes "SetVSSResults_stmt i tx cs micr e n d = Inr (y, d')" "schema d"
  shows "schema d'"
proof -
  let ?f = "\<lambda>x r. r\<lparr>t_vendor_transaction_id := Some tx, t_confidence_score := Some x, t_micr_data := micr,
      t_updated_at := clock e n\<rparr>"
  obtain u x where d': "d' = upd_transfer u (?f x) d" and x: "numeric_fits 4 x" and free: "\<not> vendor_tx_taken d u tx"
    using assms(1)
    by (auto simp: SetVSSResults_stmt_def set_transfer_stmt_def to_numeric_fits split: option.splits if_splits)
  show ?thesis
    unfolding d'
  proof (rule schema_upd_transfer [OF assms(2)], goal_cases)
    case (3 r r')
    have "transfer_of d u = Some r"
      using row_of_distinct [of t_id "transfers d" r] schema_tables(2) [OF assms(2)] 3(1,2)
      by (auto simp: transfers_ok_def)
    with 3 free show ?case by (cases "t_vendor_transaction_id r'") (auto simp: vendor_tx_taken_def list_ex_iff vendor_key_def)
  qed (simp_all add: transfer_ok_def x)
qed

lemma schema_InsertEntries:
  "InsertEntries_stmt les e n d = Inr (y, d') \<Longrightarrow> schema d \<Longrightarrow> schema d'"
proof (induction les arbitrary: d)
  case (Cons le les)
  then obtain d1 where 1: "insert_entry e n le d = Inr d1" "InsertEntries_stmt les e n d1 = Inr (y, d')"
    by (auto split: sum.splits)
  then obtain amt where d1: "d1 = d\<lparr>ledger_entries := ledger_entries d @ [ledger_row_of e n le amt]\<rparr>"
    and row: "entry_key (ledger_row_of e n le amt) \<notin> entry_key ` set (ledger_entries d)"
      "le_TransferID le \<in> transfer_ids d" "le_AccountID le \<in> account_ids d" "numeric_fits 12 amt" "numeric_pos amt"
    unfolding insert_entry_Inr id_iff by (blast intro: to_numeric_fits)
  have "entries_ok (transfer_ids d) (account_ids d) (ledger_entries d @ [ledger_row_of e n le amt])"
    using schema_tables(3) [OF Cons.prems(2)] row
    unfolding entries_ok_def by (auto simp: ledger_row_of_def)
  then have "schema d1"
    using Cons.prems(2) by (simp add: d1 schema_def transfer_ids_def account_ids_def correspondent_ids_def batch_ids_def)
  then show ?case by (rule Cons.IH [OF 1(2)])
qed simp

lemma schema_insert_batch:
  assumes "insert_batch row d = Inr (u, d')" "schema d" "\<And>x. b_total_amount row = Some x \<Longrightarrow> numeric_fits 14 x"
  shows "schema d'"
proof -
  have d': "d' = d\<lparr>settlement_batches := settlement_batches d @ [row]\<rparr>"
    and row: "b_correspondent_id row \<in> correspondent_ids d" "b_id row \<notin> batch_ids d"
    using assms(1) id_iff(2) [of "b_id row" d] id_iff(3) [of "b_correspondent_id row" d]
    by (auto simp: insert_batch_def split: if_splits)
  have "batches_ok (correspondent_ids d) (settlement_batches d @ [row])"
    using schema_tables(5) [OF assms(2)] row assms(3) by (auto simp: batches_ok_def batch_ids_def)
  moreover have "batch_ids d \<subseteq> batch_ids d'" by (auto simp: d' batch_ids_def)
  ultimately show ?thesis
    using assms(2)
    by (auto simp: schema_def d' account_ids_def correspondent_ids_def transfer_ids_def intro: table_mono)
qed

lemma schema_appends:
  "schema d \<Longrightarrow> transfer_of d (ev_transfer_id v) \<noteq> None \<Longrightarrow> schema (d\<lparr>transfer_events := transfer_events d @ [v]\<rparr>)"
  "schema d \<Longrightarrow> schema (d\<lparr>db_notices := db_notices d @ [p]\<rparr>)"
  "schema d \<Longrightarrow> account_of d (n_account_id row) \<noteq> None \<Longrightarrow> n_transfer_id row = Some t \<Longrightarrow> transfer_of d t \<noteq> None \<Longrightarrow>
   schema (d\<lparr>notifications := notifications d @ [row]\<rparr>)"
  "schema d \<Longrightarrow> row_of i_key (i_key rsp) (idempotency_keys d) = None \<Longrightarrow> transfer_of d (i_transfer_id rsp) \<noteq> None \<Longrightarrow>
   schema (d\<lparr>idempotency_keys := idempotency_keys d @ [rsp]\<rparr>)"
  unfolding id_iff row_of_None_iff
  by (simp_all add: schema_def transfer_ids_def account_ids_def correspondent_ids_def batch_ids_def events_ok_def
      notifications_ok_def responses_ok_def)

lemma schema_updates:
  "schema d \<Longrightarrow> schema (d\<lparr>accounts := upd_row a_id a (\<lambda>r. r\<lparr>a_status := s\<rparr>) (accounts d)\<rparr>)"
  "schema d \<Longrightarrow> schema (d\<lparr>notifications := upd_row n_id j (\<lambda>r. r\<lparr>n_read_at := t\<rparr>) (notifications d)\<rparr>)"
proof -
  have "a_id ` set (upd_row a_id a (\<lambda>r. r\<lparr>a_status := s\<rparr>) rows) = a_id ` set rows" for rows :: "account_row list"
    by (rule upd_row_key_set) simp
  moreover have "accounts_ok C rows \<Longrightarrow> accounts_ok C (upd_row a_id a (\<lambda>r. r\<lparr>a_status := s\<rparr>) rows)" for C rows
    by (auto simp: accounts_ok_def upd_row_keys upd_row_other [where g = a_code] set_upd_row)
  ultimately show "schema d \<Longrightarrow> schema (d\<lparr>accounts := upd_row a_id a (\<lambda>r. r\<lparr>a_status := s\<rparr>) (accounts d)\<rparr>)"
    by (simp add: schema_def account_ids_def transfer_ids_def correspondent_ids_def batch_ids_def)
qed (simp add: schema_def account_ids_def transfer_ids_def correspondent_ids_def batch_ids_def,
     auto simp: notifications_ok_def set_upd_row)

lemma schema_UpdateBatchStatus:
  assumes "UpdateBatchStatus_stmt b st ts e n d = Inr (y, d')" "schema d"
  shows "schema d'"
proof -
  obtain f where d': "d' = d\<lparr>settlement_batches := upd_row b_id b f (settlement_batches d)\<rparr>"
    and f: "\<And>r. b_id (f r) = b_id r" "\<And>r. b_correspondent_id (f r) = b_correspondent_id r"
      "\<And>r. b_total_amount (f r) = b_total_amount r"
    using assms(1)
    by (cases st) (force simp: UpdateBatchStatus_stmt_def Let_def)+
  have ids: "b_id ` set (upd_row b_id b f rows) = b_id ` set rows" for rows
    using f(1) by (rule upd_row_key_set)
  have "batches_ok (correspondent_ids d) (upd_row b_id b f (settlement_batches d))"
    using schema_tables(5) [OF assms(2)] by (auto simp: batches_ok_def upd_row_keys f set_upd_row)
  then show ?thesis
    using assms(2) by (simp add: d' schema_def account_ids_def transfer_ids_def correspondent_ids_def batch_ids_def ids)
qed

lemma schema_SetSettlementBatch:
  assumes "SetSettlementBatch_stmt i b ts e n d = Inr (y, d')" "schema d"
  shows "schema d'"
proof -
  obtain u where u: "uuid_parse e i = Some u" using assms(1) by (auto simp: SetSettlementBatch_stmt_def)
  obtain f where f: "set_transfer_stmt i f e n d = Inr (y, d')"
    "f = (case ts of None \<Rightarrow> (\<lambda>r. r\<lparr>t_settlement_batch_id := Some b\<rparr>)
        | Some t \<Rightarrow> (\<lambda>r. r\<lparr>t_settlement_batch_id := Some b, t_settled_at := Some t\<rparr>))"
    and refs: "transfer_of d u = None \<or> b \<in> batch_ids d"
    using assms(1) u id_iff(2) [of b d] by (auto simp: SetSettlementBatch_stmt_def split: if_splits)
  show ?thesis
  proof (cases "b \<in> batch_ids d")
    case True
    show ?thesis
      by (rule schema_fields [OF f(1) assms(2)]) (auto simp: f(2) True split: option.splits)
  next
    case False
    then have "d' = d" using f(1) refs u by (auto simp: set_transfer_stmt_def upd_transfer_def upd_row_absent)
    with assms(2) show ?thesis by simp
  qed
qed

lemma schema_link_unbatched:
  assumes "link_unbatched_stmt b e n d = Inr (y, d')" "schema d"
  shows "schema d'"
proof (cases "unbatched d = []")
  case True
  have "(if t_state r = FundsPosted \<and> t_settlement_batch_id r = None then r\<lparr>t_settlement_batch_id := Some b\<rparr> else r) = r"
    if "r \<in> set (transfers d)" for r
    using True that by (auto simp: unbatched_def filter_empty_conv)
  then have "d' = d" using assms(1) True by (simp add: link_unbatched_stmt_def map_idI)
  with assms(2) show ?thesis by simp
next
  case False
  define f where "f r = (if t_state r = FundsPosted \<and> t_settlement_batch_id r = None
      then r\<lparr>t_settlement_batch_id := Some b\<rparr> else r)" for r :: transfer_row
  have d': "d' = d\<lparr>transfers := map f (transfers d)\<rparr>" and b: "b \<in> batch_ids d"
    using assms(1) False id_iff(2) [of b d] by (auto simp: link_unbatched_stmt_def f_def split: if_splits)
  have f: "t_id (f r) = t_id r" "vendor_key (f r) = vendor_key r"
    "transfer_ok A C (batch_ids d) r \<Longrightarrow> transfer_ok A C (batch_ids d) (f r)" for r A C
    using b by (simp_all add: f_def vendor_key_def transfer_ok_def)
  have ids: "map t_id (map f rows) = map t_id rows" "t_id ` f ` set rows = t_id ` set rows" for rows
    by (simp_all add: f(1) image_image)
  have "vendor_unique (map f (transfers d))"
    using schema_tables(2) [OF assms(2)] unfolding transfers_ok_def vendor_unique_def set_map ball_simps f(1,2) by blast
  moreover have "list_all (transfer_ok A C (batch_ids d)) (map f rows)"
    if "list_all (transfer_ok A C (batch_ids d)) rows" for A C rows
    using that f(3) unfolding list_all_iff set_map ball_simps by blast
  ultimately have "transfers_ok (account_ids d) (correspondent_ids d) (batch_ids d) (map f (transfers d))"
    using schema_tables(2) [OF assms(2)] unfolding transfers_ok_def ids by simp
  then show ?thesis
    using assms(2) by (simp add: d' schema_def account_ids_def transfer_ids_def correspondent_ids_def batch_ids_def ids)
qed

lemma schema_store_write: "store_write d d' \<Longrightarrow> schema d \<Longrightarrow> schema d'"
proof (induction rule: store_write.induct)
  case (w_CreateBatch corr day ref cnt tot e n d u d')
  then show ?case
    by (auto simp: CreateBatch_stmt_def to_numeric_fits split: option.splits elim!: schema_insert_batch)
next
  case (w_insert_demo_batch corr cnt e n d p d')
  then show ?case
    by (auto simp: insert_demo_batch_def split: sum.splits elim!: schema_insert_batch)
qed (auto simp: WriteEvent_stmt_def Notify_stmt_def MarkRead_stmt_def split: if_splits
    intro: schema_appends schema_updates
    dest: schema_Create schema_UpdateState schema_plain_fields schema_SetVSSResults schema_InsertEntries
      schema_UpdateBatchStatus schema_SetSettlementBatch schema_link_unbatched)

lemma schema_api_step: "api_step d d' \<Longrightarrow> schema d \<Longrightarrow> schema d'"
  by (induction rule: api_step.induct) (auto simp: store_step_def intro: schema_store_write schema_appends)

interpretation api_schema: system_invariant schema api
  by unfold_locales (auto simp: api_def intro: guarantees_mono [OF api_serve] schema_api_step)

lemma reachable_schema: "reachable e api w0 s \<Longrightarrow> schema (w_db w0) \<Longrightarrow> schema (w_db (snd s))"
  by (rule api_schema.reachable_invariant)

end
