(* ===== verification/System.thy ===== *)
theory System
  imports Concurrent Schema
begin

text \<open>
  The running system: the locales of \<open>Runtime\<close> and \<open>RelyGuarantee\<close> interpreted on the routes of the
  server, and what they give for every reachable state and between any two states of an execution.
\<close>

section \<open>Every request\<close>

lemma rg_Idempotency:
  assumes "rg e (money_step e) nxt (wf_ids e) (\<lambda>_ _. True)"
  shows "rg e (money_step e) (Idempotency key nxt) (wf_ids e) (\<lambda>_ _. True)"
proof -
  have "rg e (money_step e) nxt (wf_ids e) (\<lambda>_. wf_ids e)"
    using rg_frame [OF assms stable_wf_ids [of e]] by simp
  then have "rg e (money_step e) (bind nxt (\<lambda>rs. case response_id (rs_Body rs) of
            None \<Rightarrow> Ret rs
          | Some (m, i) \<Rightarrow> bind (Idem_Store key i (rs_Status rs) m) (\<lambda>_. Ret rs))) (wf_ids e) (\<lambda>_ _. True)"
    by (rule rg_bind)
       (auto intro!: rg_bind_quiet [OF lawful_other_writes(5) stable_wf_ids] split: option.splits)
  then show ?thesis
    unfolding Idempotency_def
    by (auto intro!: assms rg_bind_quiet [OF lawful.queries(21) stable_wf_ids] split: option.splits)
qed

lemma rg_SettlementAuth:
  "rg e (money_step e) nxt (wf_ids e) (\<lambda>_ _. True)
   \<Longrightarrow> rg e (money_step e) (SettlementAuth nxt auth) (wf_ids e) (\<lambda>_ _. True)"
  unfolding SettlementAuth_def by (auto intro!: rg_bind_quiet [OF lawful.quiet(3) stable_wf_ids])

lemma rg_Auth:
  "(\<And>c. rg e (money_step e) (nxt c) (wf_ids e) (\<lambda>_ _. True))
   \<Longrightarrow> rg e (money_step e) (Auth nxt auth) (wf_ids e) (\<lambda>_ _. True)"
  by (auto simp: Auth_def Let_def split: option.splits)

lemma rg_serve:
  assumes "uuid_env e"
  shows "rg e (money_step e) (serve rq) (wf_ids e) (\<lambda>_ _. True)"
proof (cases "moves_money rq")
  case True
  then show ?thesis
    by (cases rq) (auto intro!: rg_Idempotency rg_CreateDeposit [OF assms] rg_SettlementAuth rg_return
        rg_Auth rg_PostAction rg_settlement_trigger)
next
  case False
  then show ?thesis by (intro rg_quiet_end lawful_quiet_requests stable_wf_ids)
qed

lemma rg_impossible: "rg e G p (\<lambda>_. False) Q"
  by (cases p) (simp_all add: rg_Step)

section \<open>The interpretations\<close>

interpretation api_steps: system_guarantee "lawful valid_step" api
  by unfold_locales (auto simp: lawful_refl api_def lawful_serve)

interpretation api_books: system_invariant paired_books api
  by unfold_locales
     (auto simp: api_def intro: guarantees_mono [OF lawful_serve] lawful_paired_books)

interpretation api_sound: system_invariant "\<lambda>d. sound_rows (ledger_entries d)" api
  by unfold_locales (auto simp: api_def lawful_def intro: guarantees_mono [OF lawful_serve])

interpretation api_money: rely_guarantee_system e "money_step e" "\<lambda>d. uuid_env e \<and> wf_ids e d" api for e
proof
  fix p :: "response prog"
  assume "p \<in> api"
  then obtain rq where p: "p = serve rq" by (auto simp: api_def)
  show "rg e (money_step e) p (\<lambda>d. uuid_env e \<and> wf_ids e d) (\<lambda>_ _. True)"
    using rg_serve [of e rq] rg_impossible by (cases "uuid_env e") (simp_all add: p)
qed (simp_all add: money_step_refl stable_conj stable_wf_ids)

section \<open>Reachable states\<close>

lemma reachable_backed:
  assumes "reachable e api w0 s" "uuid_env e" "wf_ids e (w_db w0)" "backed (w_db w0)"
  shows "backed (w_db (snd s))"
  by (rule api_money.reachable_stable [OF stable_backed _ assms(4,1)]) (simp add: assms(2,3))

lemma reachable_paired: "reachable e api w0 s \<Longrightarrow> paired_books (w_db w0) \<Longrightarrow> paired_books (w_db (snd s))"
  by (rule api_books.reachable_invariant)

lemma reachable_sound:
  "reachable e api w0 s \<Longrightarrow> sound_rows (ledger_entries (w_db w0)) \<Longrightarrow> sound_rows (ledger_entries (w_db (snd s)))"
  by (rule api_sound.reachable_invariant)

text \<open>One request served alone is one execution.\<close>

definition served :: "env \<Rightarrow> request \<Rightarrow> world \<Rightarrow> response sys" where
  "served e rq w = (case run (serve rq) e w of (r, w') \<Rightarrow> ([finished r], w'))"

lemma reachable_served: "reachable e api w (served e rq w)"
proof -
  have "reachable e api w ([] @ [serve rq], w)"
    by (rule reach_step [OF reach_start sys_arrive]) (simp add: api_def)
  then show ?thesis
    using run_is_a_schedule [of e api w "[]" "serve rq" w] by (auto simp: served_def split: prod.split)
qed

text \<open>Between two states of an execution.\<close>

definition later :: "env \<Rightarrow> response sys \<Rightarrow> response sys \<Rightarrow> bool" where
  "later e = (sys_step e api)\<^sup>*\<^sup>*"

definition leads_to :: "TransferState \<Rightarrow> TransferState \<Rightarrow> bool" where
  "leads_to = isValidTransition\<^sup>*\<^sup>*"

lemma reachable_later: "reachable e api w0 s \<Longrightarrow> later e s s' \<Longrightarrow> reachable e api w0 s'"
  unfolding later_def by (rotate_tac, induction rule: rtranclp_induct) (auto intro: reach_step)

lemma later_served: "later e ([], w) (served e rq w)"
  unfolding later_def using reachable_served [of e w rq]
proof (induction rule: reachable.induct)
  case (reach_step s s')
  then show ?case by (simp add: rtranclp.rtrancl_into_rtrancl)
qed simp

lemma same_identity_trans: "same_identity a b \<Longrightarrow> same_identity b c \<Longrightarrow> same_identity a c"
  by (auto simp: same_identity_def)

lemma later_lawful:
  assumes "reachable e api w0 s" "later e s s'"
  shows "lawful (\<lambda>s t. case s of None \<Rightarrow> True | Some s' \<Rightarrow> leads_to s' t) (w_db (snd s)) (w_db (snd s'))"
  using assms(2) unfolding later_def
proof (induction rule: rtranclp_induct)
  case base
  show ?case by (rule lawful_refl)
next
  case (step s1 s2)
  let ?T = "\<lambda>s t. case s of None \<Rightarrow> True | Some s' \<Rightarrow> leads_to s' t"
  let ?d = "w_db (snd s)" and ?d1 = "w_db (snd s1)" and ?d2 = "w_db (snd s2)"
  have "reachable e api w0 s1" using reachable_later [OF assms(1)] step.hyps(1) by (simp add: later_def)
  then have l: "lawful valid_step ?d1 ?d2" using step.hyps(2) by (rule api_steps.step_related)
  have acc: "account_ids ?d1 = account_ids ?d" using step.IH by (rule account_ids_lawful)
  have "lawful_transfer ?T (account_ids ?d) (transfer_of ?d i) (transfer_of ?d2 i)" for i
  proof -
    have "lawful_transfer ?T (account_ids ?d) (transfer_of ?d i) (transfer_of ?d1 i)"
      "lawful_transfer valid_step (account_ids ?d) (transfer_of ?d1 i) (transfer_of ?d2 i)"
      using step.IH l acc by (auto simp: lawful_def)
    then show ?thesis
      by (cases "transfer_of ?d i"; cases "transfer_of ?d1 i"; cases "transfer_of ?d2 i")
         (auto simp: leads_to_def same_identity_def intro: rtranclp.rtrancl_into_rtrancl)
  qed
  moreover have "\<exists>new. ledger_entries ?d2 = ledger_entries ?d @ new \<and> ledger_pairs new"
    using step.IH l by (force simp: lawful_def ledger_pairs_append)
  moreover have "\<exists>new. transfer_events ?d2 = transfer_events ?d @ new"
    using step.IH l by (force simp: lawful_def)
  moreover have "\<exists>new. idempotency_keys ?d2 = idempotency_keys ?d @ new"
    using step.IH l by (force simp: lawful_def)
  ultimately show ?case using step.IH l by (simp add: lawful_def)
qed

end
