(* ===== verification/Example.thy ===== *)
theory Example
  imports System
begin

text \<open>
  A concrete environment and database, from the rows of \<open>db/seed.sql\<close>: the witnesses of the properties
  run the program on them. In \<open>demo_env\<close> calls never fail, UUIDs are the texts of 36 characters, the
  Vendor Service passes every check, the settlement bank acknowledges every file, and Chicago keeps the
  clock of 2026.
\<close>

named_theorems demo_defs "the concrete data"

section \<open>Environment\<close>

definition demo_uuid :: "nat \<Rightarrow> string" where
  "demo_uuid n = ''f0000000-0000-0000-0000-0000000000'' @ two_digits (n mod 100)"

definition demo_parse :: "string \<Rightarrow> string option" where
  "demo_parse s = (if length s = 36 then Some s else None)"

definition demo_vss :: "ValidateRequest \<Rightarrow> ValidateResponse" where
  "demo_vss rq =
     \<lparr>IQAStatus = ''pass'', IQAErrorType = None,
      vs_MICRData = Some \<lparr>Routing = ''021000021'', Account = ''123456789'', CheckNumber = ''1001''\<rparr>,
      OCRAmount = vq_Amount rq, ConfidenceScore = Fin (97 / 100), DuplicateFlag = False,
      DuplicateOriginalTxID = None, TransactionID = ''vss-1'', ScenarioUsed = ''clean_pass''\<rparr>"

definition demo_bank :: "string \<Rightarrow> SettlementFile \<Rightarrow> settlementAck http_reply" where
  "demo_bank i f = HttpReply 200 (Some
     \<lparr>ack_BatchID = i, ack_Status = ''ACKNOWLEDGED'', ack_AcknowledgedAt = None\<rparr>)"

text \<open>The clock starts at noon of 1 July 2026, Central Time.\<close>

definition demo_env :: env where
  "demo_env =
     \<lparr>fault = (\<lambda>n. NoFault), clock = (\<lambda>n. (20635 * 86400 + 61200 + int n) * 10 ^ 9),
      current_date = (\<lambda>n. 20635), fresh_uuid = demo_uuid, uuid_parse = demo_parse, shortest = (\<lambda>x. x),
      collate = (\<lambda>s. of_nat (length s)), vendor = (\<lambda>n rq. HttpReply 200 (Some (demo_vss rq))),
      bank = (\<lambda>n. demo_bank), bank_return = (\<lambda>n i code. HttpReply 200 (Some [])),
      zone_offset = ct_2026, getenv = (\<lambda>s. ''secret'')\<rparr>"

lemma demo_env_simps [simp]:
  "fault demo_env n = NoFault" "fresh_uuid demo_env = demo_uuid" "uuid_parse demo_env = demo_parse"
  "shortest demo_env x = x" "vendor demo_env n rq = HttpReply 200 (Some (demo_vss rq))"
  "zone_offset demo_env = ct_2026" "getenv demo_env s = ''secret''" "bank demo_env n = demo_bank"
  by (simp_all add: demo_env_def)

lemma demo_fault_free: "fault_free demo_env"
  by (simp add: fault_free_def)

lemma demo_canonical: "canonical demo_env s \<longleftrightarrow> length s = 36"
  by (simp add: canonical_def demo_parse_def)

lemma length_demo_uuid [simp]: "length (demo_uuid n) = 36"
  by (simp add: demo_uuid_def)

lemma demo_uuid_env: "uuid_env demo_env"
  by (simp add: uuid_env_def demo_canonical) (simp add: demo_parse_def)

lemma two_digits_inject: "m < 100 \<Longrightarrow> n < 100 \<Longrightarrow> two_digits m = two_digits n \<longleftrightarrow> m = n"
  by (metis nat_value_two_digits)

lemma demo_fresh_window: "fresh_window demo_env"
  unfolding fresh_window_def
proof (intro allI impI)
  fix n k :: nat
  assume "0 < k" "k < 16"
  then have "\<not> 100 dvd (n + k) - n" by (auto dest: dvd_imp_le)
  then have "(n + k) mod 100 \<noteq> n mod 100" by (simp add: mod_eq_dvd_iff_nat)
  then show "fresh_uuid demo_env (n + k) \<noteq> fresh_uuid demo_env n"
    by (simp add: demo_uuid_def two_digits_inject)
qed

lemma demo_shortest_reads_back: "shortest_reads_back demo_env"
  by (simp add: shortest_reads_back_def)

section \<open>Seed data\<close>

definition alpha :: string where "alpha = ''c0000000-0000-0000-0000-000000000001''"
definition beta :: string where "beta = ''c0000000-0000-0000-0000-000000000002''"
definition alpha_001 :: string where "alpha_001 = ''a0000000-0000-0000-0000-000000000001''"
definition beta_001 :: string where "beta_001 = ''a0000000-0000-0000-0000-000000000007''"
definition omnibus_alpha :: string where "omnibus_alpha = ''a0000000-0000-0000-0000-000000000010''"
definition omnibus_beta :: string where "omnibus_beta = ''a0000000-0000-0000-0000-000000000011''"
definition fee_apex :: string where "fee_apex = ''a0000000-0000-0000-0000-000000000012''"

lemmas demo_ids = alpha_def beta_def alpha_001_def beta_001_def omnibus_alpha_def
  omnibus_beta_def fee_apex_def

text \<open>The ids differ, have the length of a UUID, and are not among the fresh ones.\<close>

lemma demo_ids_distinct:
  "distinct [alpha, beta, alpha_001, beta_001, omnibus_alpha, omnibus_beta, fee_apex]"
  by (simp add: demo_ids)

lemma demo_ids_length [simp]:
  "length alpha = 36" "length beta = 36" "length alpha_001 = 36" "length beta_001 = 36"
  "length omnibus_alpha = 36" "length omnibus_beta = 36" "length fee_apex = 36"
  by (simp_all add: demo_ids)

lemma demo_ids_distinct_rev:
  "distinct [fee_apex, omnibus_beta, omnibus_alpha, beta_001, alpha_001, beta, alpha]"
  by (simp add: demo_ids)

lemmas demo_neq [simp] = demo_ids_distinct [simplified] demo_ids_distinct_rev [simplified]

definition seed_rules :: RulesConfig where
  "seed_rules =
     \<lparr>DepositLimit = of_cents 500000, IneligibleAccountTypes = [], ContributionCap = of_cents 700000,
      Fees = \<lparr>ReturnedCheck = of_cents 3000, fee_Currency = ''USD''\<rparr>\<rparr>"

definition seed_correspondents :: "correspondent_row list" where
  "seed_correspondents =
     [\<lparr>c_id = alpha, c_code = ''ALPHA'', c_name = ''Alpha Brokerage'', c_rules_config = Some seed_rules\<rparr>,
      \<lparr>c_id = beta, c_code = ''BETA'', c_name = ''Beta Wealth'',
       c_rules_config = Some (seed_rules\<lparr>IneligibleAccountTypes := [''IRA'']\<rparr>)\<rparr>]"

definition seed_account :: "string \<Rightarrow> string \<Rightarrow> string option \<Rightarrow> string \<Rightarrow> account_row" where
  "seed_account i code corr typ =
     \<lparr>a_id = i, a_code = code, a_correspondent_id = corr, a_type = typ, a_status = ''ACTIVE''\<rparr>"

definition seed_accounts_rows :: "account_row list" where
  "seed_accounts_rows =
     [seed_account alpha_001 ''ALPHA-001'' (Some alpha) ''INDIVIDUAL'',
      seed_account beta_001 ''BETA-001'' (Some beta) ''INDIVIDUAL'',
      seed_account omnibus_alpha ''OMNIBUS-ALPHA'' (Some alpha) ''OMNIBUS'',
      seed_account omnibus_beta ''OMNIBUS-BETA'' (Some beta) ''OMNIBUS'',
      seed_account fee_apex ''FEE-APEX'' None ''FEE'']"

definition seed_db :: db where
  "seed_db =
     \<lparr>transfers = [], accounts = seed_accounts_rows, correspondents = seed_correspondents,
      ledger_entries = [], transfer_events = [], settlement_batches = [], notifications = [],
      idempotency_keys = [], db_notices = []\<rparr>"

lemmas seed_defs [demo_defs] = seed_rules_def seed_correspondents_def seed_account_def seed_accounts_rows_def
  seed_db_def

text \<open>A transfer of 100 dollars into ALPHA-001, and a world that holds some transfers and entries.\<close>

definition check1 :: string where "check1 = ''d0000000-0000-0000-0000-000000000001''"
definition check2 :: string where "check2 = ''d0000000-0000-0000-0000-000000000002''"

lemma check_ids [simp]:
  "length check1 = 36" "length check2 = 36" "check1 \<noteq> check2" "check2 \<noteq> check1"
  by (simp_all add: check1_def check2_def)

definition demo_transfer :: "string \<Rightarrow> TransferState \<Rightarrow> transfer_row" where
  "demo_transfer i s =
     \<lparr>t_id = i, t_account_id = alpha_001, t_from_account_id = omnibus_alpha, t_correspondent_id = alpha,
      t_amount = Num 10000, t_currency = ''USD'', t_type = ''MOVEMENT'', t_sub_type = ''DEPOSIT'',
      t_transfer_type = ''CHECK'', t_memo = ''FREE'', t_state = s, t_review_reason = None,
      t_error_code = None, t_contribution_type = None, t_vendor_transaction_id = None,
      t_confidence_score = None, t_micr_data = None, t_front_image_ref = None, t_back_image_ref = None,
      t_settlement_batch_id = None, t_settled_at = None, t_submitted_at = (20635 * 86400 + 57600) * 10 ^ 9,
      t_created_at = (20635 * 86400 + 57600) * 10 ^ 9, t_updated_at = (20635 * 86400 + 57600) * 10 ^ 9\<rparr>"

definition demo_credit :: "string \<Rightarrow> ledger_row list" where
  "demo_credit i =
     [\<lparr>l_id = ''e0000000-0000-0000-0000-000000000001'', l_movement_id = ''e0000000-0000-0000-0000-000000000000'',
       l_transfer_id = i, l_account_id = omnibus_alpha, l_side = SideDebit, l_amount = Num 10000,
       l_entry_type = EntryTypeProvisionalCredit, l_memo = ''FREE'', l_created_at = 0\<rparr>,
      \<lparr>l_id = ''e0000000-0000-0000-0000-000000000002'', l_movement_id = ''e0000000-0000-0000-0000-000000000000'',
       l_transfer_id = i, l_account_id = alpha_001, l_side = SideCredit, l_amount = Num 10000,
       l_entry_type = EntryTypeProvisionalCredit, l_memo = ''FREE'', l_created_at = 0\<rparr>]"

definition demo_world :: "transfer_row list \<Rightarrow> ledger_row list \<Rightarrow> world" where
  "demo_world ts ls = \<lparr>w_db = seed_db\<lparr>transfers := ts, ledger_entries := ls\<rparr>, w_files = [], w_ticks = 0\<rparr>"

lemmas demo_rows [demo_defs] = demo_transfer_def demo_credit_def demo_world_def

lemma demo_uuid_neq [simp]: "demo_uuid n \<noteq> CHR ''e'' # s" "demo_uuid n \<noteq> CHR ''d'' # s"
  by (simp_all add: demo_uuid_def)

lemma demo_db_simps [simp]:
  "transfers (w_db (demo_world ts ls)) = ts" "ledger_entries (w_db (demo_world ts ls)) = ls"
  "accounts (w_db (demo_world ts ls)) = seed_accounts_rows"
  "correspondents (w_db (demo_world ts ls)) = seed_correspondents"
  "settlement_batches (w_db (demo_world ts ls)) = []" "idempotency_keys (w_db (demo_world ts ls)) = []"
  "w_ticks (demo_world ts ls) = 0" "w_files (demo_world ts ls) = []"
  by (simp_all add: demo_world_def seed_db_def)

lemma demo_transfer_simps [simp]:
  "t_id (demo_transfer i s) = i" "t_account_id (demo_transfer i s) = alpha_001"
  "t_from_account_id (demo_transfer i s) = omnibus_alpha" "t_correspondent_id (demo_transfer i s) = alpha"
  "t_amount (demo_transfer i s) = Num 10000" "t_state (demo_transfer i s) = s"
  "t_settlement_batch_id (demo_transfer i s) = None" "t_review_reason (demo_transfer i s) = None"
  "t_error_code (demo_transfer i s) = None"
  by (simp_all add: demo_transfer_def)

lemma demo_accounts:
  "a_id ` set seed_accounts_rows = {alpha_001, beta_001, omnibus_alpha, omnibus_beta, fee_apex}"
  by (simp add: seed_accounts_rows_def seed_account_def)

lemma demo_account_of:
  "row_of a_id a seed_accounts_rows \<noteq> None \<longleftrightarrow> a \<in> {alpha_001, beta_001, omnibus_alpha, omnibus_beta, fee_apex}"
  using row_of_None_iff [of a_id a seed_accounts_rows] by (simp add: demo_accounts)

lemma demo_wf_ids:
  assumes "distinct (map t_id ts)" "list_all (\<lambda>r. length (t_id r) = 36 \<and> t_account_id r = alpha_001) ts"
  shows "wf_ids demo_env (w_db (demo_world ts ls))"
proof -
  have "canonical demo_env i \<and> t_account_id r = alpha_001" if "row_of t_id i ts = Some r" for i r
    using row_of_in [OF that] row_of_key [OF that] assms(2) by (auto simp: demo_canonical list_all_iff)
  with assms(1) show ?thesis by (auto simp: wf_ids_def account_ids_def demo_accounts demo_canonical)
qed

lemma demo_has_entry:
  "has_entry (w_db (demo_world ts (demo_credit i))) i EntryTypeProvisionalCredit alpha_001 SideCredit"
  by (simp add: has_entry_def demo_credit_def)

lemma demo_backed:
  assumes "s \<notin> {Completed, Returned}"
  shows "backed (w_db (demo_world [demo_transfer i s] (demo_credit i)))"
  using assms demo_has_entry by (cases s) (auto simp: backed_def db_simps split: if_splits)

lemma demo_paired: "paired_books (w_db (demo_world ts (demo_credit i)))"
  by (simp add: paired_books_def demo_credit_def ledger_pair_def)

end
