(* ===== verification/AuditTrail.thy ===== *)
theory AuditTrail
  imports System
begin

text \<open>
  The audit trail tells the truth: every \<open>state_changed\<close> event records a transition of \<open>states.go\<close>, and the
  transfer has reached the state that the event announces. \<open>audit_step\<close> is the guarantee every request
  gives; \<open>audits\<close> proves it of a program one step at a time, among other requests.
\<close>

section \<open>The invariant\<close>

text \<open>The transfer is in the state or has passed it.\<close>

definition past :: "uuid \<Rightarrow> TransferState \<Rightarrow> db \<Rightarrow> bool" where
  "past i t d \<longleftrightarrow> (\<exists>r. transfer_of d i = Some r \<and> leads_to t (t_state r))"

text \<open>What the payload of an event says: the two states of the transition.\<close>

definition announces :: "json \<Rightarrow> TransferState \<Rightarrow> TransferState \<Rightarrow> bool" where
  "announces payload from to \<longleftrightarrow>
     map_of payload ''from_state'' = Some (JStr (state_text from)) \<and>
     map_of payload ''to_state'' = Some (JStr (state_text to))"

definition truthful :: "db \<Rightarrow> event_row \<Rightarrow> bool" where
  "truthful d ev \<longleftrightarrow> (ev_step ev = ''state_changed'' \<longrightarrow>
     (\<exists>from to. announces (ev_data ev) from to \<and> isValidTransition from to \<and> past (ev_transfer_id ev) to d))"

definition audit_true :: "db \<Rightarrow> bool" where
  "audit_true d \<longleftrightarrow> (\<forall>ev \<in> set (transfer_events d). truthful d ev)"

definition audit_step :: "db \<Rightarrow> db \<Rightarrow> bool" where
  "audit_step d d' \<longleftrightarrow> lawful valid_step d d' \<and> (audit_true d \<longrightarrow> audit_true d')"

lemma past_lawful:
  assumes "lawful valid_step d d'" "past i t d"
  shows "past i t d'"
proof -
  obtain r where r: "transfer_of d i = Some r" "leads_to t (t_state r)" using assms(2) by (auto simp: past_def)
  obtain r' where "transfer_of d' i = Some r'" "t_state r' = t_state r \<or> valid_step (Some (t_state r)) (t_state r')"
    using assms(1) r(1) by (rule lawful_transfer_of)
  then show ?thesis
    using r(2) by (auto simp: past_def leads_to_def intro: rtranclp.rtrancl_into_rtrancl)
qed

lemma truthful_lawful: "lawful valid_step d d' \<Longrightarrow> truthful d ev \<Longrightarrow> truthful d' ev"
  unfolding truthful_def using past_lawful by blast

lemma audit_step_refl: "audit_step d d"
  by (simp add: audit_step_def lawful_refl)

interpretation audit: reflexive_guarantee audit_step
  by unfold_locales (rule audit_step_refl)

lemma stable_past: "stable audit_step (past i t)"
  by (auto simp: stable_def audit_step_def intro: past_lawful)

lemma stable_audit_true: "stable audit_step audit_true"
  by (auto simp: stable_def audit_step_def)

text \<open>The transfer that a text names.\<close>

definition named_past :: "env \<Rightarrow> string \<Rightarrow> TransferState \<Rightarrow> db \<Rightarrow> bool" where
  "named_past e i t d \<longleftrightarrow> (\<forall>u. uuid_parse e i = Some u \<longrightarrow> past u t d)"

lemma stable_named_past: "stable audit_step (named_past e i t)"
  unfolding stable_def named_past_def using stableD [OF stable_past] by blast

section \<open>Steps that announce nothing\<close>

definition silent :: "db \<Rightarrow> db \<Rightarrow> bool" where
  "silent d d' \<longleftrightarrow>
     (\<exists>new. transfer_events d' = transfer_events d @ new \<and> list_all (\<lambda>ev. ev_step ev \<noteq> ''state_changed'') new)"

lemma silent_same: "transfer_events d' = transfer_events d \<Longrightarrow> silent d d'"
  by (simp add: silent_def exI [of _ "[]"])

interpretation silent: reflexive_guarantee silent
  by unfold_locales (simp add: silent_same)

lemma silent_audit: "lawful valid_step d d' \<Longrightarrow> silent d d' \<Longrightarrow> audit_step d d'"
  by (auto simp: audit_step_def audit_true_def silent_def list_all_iff truthful_def intro: truthful_lawful)
     (metis past_lawful)

lemma guarantees_conj:
  "guarantees R p \<Longrightarrow> guarantees S p \<Longrightarrow> guarantees (\<lambda>d d'. R d d' \<and> S d d') p"
proof (induction p)
  case (Step f)
  have "guarantees (\<lambda>d d'. R d d' \<and> S d d') (fst (f e w))" for e w
    using Step.IH [OF rangeI rangeI, of "fst (f e w)" e w] Step.prems by (auto simp: fsts.simps guarantees_Step)
  with Step.prems show ?case by (simp add: guarantees_Step)
qed simp_all

lemma audit_of_silent:
  "guarantees (lawful valid_step) p \<Longrightarrow> guarantees silent p \<Longrightarrow> guarantees audit_step p"
  by (rule guarantees_mono [OF guarantees_conj [of "lawful valid_step" p silent]]) (auto intro: silent_audit)

lemma statement_events:
  "Create_stmt ci e n d = Inr (row, d') \<Longrightarrow> transfer_events d' = transfer_events d"
  "UpdateState_stmt i from to e n d = Inr (u, d') \<Longrightarrow> transfer_events d' = transfer_events d"
  "set_transfer_stmt i f e n d = Inr (y, d') \<Longrightarrow> transfer_events d' = transfer_events d"
  "Notify_stmt payload e n d = Inr (y, d') \<Longrightarrow> transfer_events d' = transfer_events d"
  "SetVSSResults_stmt i tx cs micr e n d = Inr (y, d') \<Longrightarrow> transfer_events d' = transfer_events d"
  "MarkRead_stmt i e n d = Inr (k, d') \<Longrightarrow> transfer_events d' = transfer_events d"
  "CreateBatch_stmt corr day ref cnt tot e n d = Inr (u', d') \<Longrightarrow> transfer_events d' = transfer_events d"
  "UpdateBatchStatus_stmt b st at0 e n d = Inr (y, d') \<Longrightarrow> transfer_events d' = transfer_events d"
  "SetSettlementBatch_stmt i b at0 e n d = Inr (y, d') \<Longrightarrow> transfer_events d' = transfer_events d"
  "insert_demo_batch corr cnt e n d = Inr (p, d') \<Longrightarrow> transfer_events d' = transfer_events d"
  "link_unbatched_stmt b e n d = Inr (y, d') \<Longrightarrow> transfer_events d' = transfer_events d"
  by (auto simp: Create_stmt_def UpdateState_stmt_def set_transfer_stmt_def SetVSSResults_stmt_def
      Notify_stmt_def MarkRead_stmt_def CreateBatch_stmt_def UpdateBatchStatus_stmt_def upd_transfer_def
      SetSettlementBatch_stmt_def insert_demo_batch_def insert_batch_def link_unbatched_stmt_def Let_def
      split: option.split_asm if_split_asm batch_status.split_asm)

lemmas silent_statements [intro] = statement_events [THEN silent_same]

lemma silent_transfer_writes:
  "guarantees silent (Create ci)" "guarantees silent (UpdateState i from to)"
  "guarantees silent (Notify i payload)" "guarantees silent (SetVSSResults i tx cs micr)"
  unfolding Create_def UpdateState_def Notify_def SetVSSResults_def
  by (auto intro!: guarantees_bind silent.sqlI silent.exec_sqlI)

lemma silent_InsertEntries: "guarantees silent (InsertEntries les)"
  unfolding InsertEntries_def
  by (auto intro!: silent.exec_sqlI silent_same dest!: InsertEntries_other_tables)

lemma silent_WriteEvent:
  "step \<noteq> ''state_changed'' \<Longrightarrow> guarantees silent (WriteEvent i step actor payload)"
  unfolding WriteEvent_def
  by (auto intro!: silent.exec_sqlI simp: WriteEvent_stmt_def silent_def split: if_split_asm)

lemma silent_setters:
  "guarantees silent (SetErrorCode i code)" "guarantees silent (SetReviewReason i reason)"
  "guarantees silent (SetContributionType i ct)" "guarantees silent (SetImageRefs i fr bk)"
  unfolding SetErrorCode_def SetReviewReason_def SetContributionType_def SetImageRefs_def
  by (rule silent.exec_sqlI, erule silent_statements)+

lemma silent_other_writes:
  "guarantees silent (SetStatus a s)" "guarantees silent (CreateNotification acct t typ msg)"
  "guarantees silent (Notifications_MarkRead i)" "guarantees silent (UpdateBatchStatus b st at0)"
  "guarantees silent (Idem_Store k i code body)"
  "guarantees silent (CreateBatch corr day ref cnt tot)" "guarantees silent (SetSettlementBatch i b at0)"
  unfolding SetStatus_def CreateNotification_def Notifications_MarkRead_def UpdateBatchStatus_def CreateBatch_def
    SetSettlementBatch_def Idem_Store_def
  by (auto intro!: guarantees_bind silent.sqlI silent.exec_sqlI simp: silent_same split: if_split_asm)

lemma silent_CreateDemoBatch: "guarantees silent CreateDemoBatch"
proof -
  have demo: "guarantees silent (sql (insert_demo_batch corr k))" "guarantees silent (exec_sql (link_unbatched_stmt b))"
    for corr k b
    by (auto intro!: silent.sqlI silent.exec_sqlI)
  then show ?thesis
    unfolding CreateDemoBatch_def
    by (intro guarantees_bind silent.query)
       (auto intro!: guarantees_bind silent.query demo split: sum.splits option.splits list.splits simp: Let_def)
qed

lemma audit_writes:
  "guarantees audit_step (Create ci)" "guarantees audit_step (Notify i payload)"
  "guarantees audit_step (SetVSSResults i tx cs micr)"
  "guarantees audit_step (SetErrorCode i code)" "guarantees audit_step (SetReviewReason i reason)"
  "guarantees audit_step (SetContributionType i ct)" "guarantees audit_step (SetImageRefs i fr bk)"
  "guarantees audit_step (SetStatus a s)" "guarantees audit_step (CreateNotification acct t typ msg)"
  "guarantees audit_step (Notifications_MarkRead i)" "guarantees audit_step (UpdateBatchStatus b st at0)"
  "guarantees audit_step (Idem_Store k i status body)"
  "guarantees audit_step (CreateBatch corr day ref cnt tot)" "guarantees audit_step (SetSettlementBatch i b at0)"
  "guarantees audit_step CreateDemoBatch"
  by (rule audit_of_silent, rule lawful_ops, (simp only: valid_step.simps)?,
      rule silent_transfer_writes silent_setters silent_other_writes silent_CreateDemoBatch)+

lemma audit_WriteEvent:
  "step \<noteq> ''state_changed'' \<Longrightarrow> guarantees audit_step (WriteEvent i step actor payload)"
  by (intro audit_of_silent lawful_WriteEvent silent_WriteEvent)

lemma audit_PostDoubleEntry: "guarantees audit_step (PostDoubleEntry dr cr amount memo i)"
proof -
  have "guarantees silent (PostDoubleEntry dr cr amount memo i)"
    unfolding PostDoubleEntry_def
    by (auto intro!: guarantees_bind silent.quiet silent_InsertEntries split: option.splits)
  then show ?thesis by (intro audit_of_silent lawful_PostDoubleEntry)
qed

section \<open>Programs that keep the trail true\<close>

definition audits :: "env \<Rightarrow> 'a prog \<Rightarrow> bool" where
  "audits e p \<longleftrightarrow> rg e audit_step p (\<lambda>_. True) (\<lambda>_ _. True)"

lemma audits_of: "guarantees audit_step p \<Longrightarrow> audits e p"
  unfolding audits_def by (erule rg_guarantees) simp_all

lemma audits_end [intro!]: "audits e (Ret a)" "audits e (Panic m)"
  by (simp_all add: audits_def)

lemma audits_bind: "audits e p \<Longrightarrow> (\<And>a. audits e (k a)) \<Longrightarrow> audits e (bind p k)"
  unfolding audits_def by (erule rg_bind)

lemma audits_ignoring: "audits e p \<Longrightarrow> audits e q \<Longrightarrow> audits e (ignoring p q)"
  unfolding ignoring_def by (rule audits_bind)

lemmas audits_reads = audit.queries [THEN audits_of] audit.GetBatch [THEN audits_of] audit.quiet [THEN audits_of]
  audit.services [THEN audits_of] audit.steps [THEN audits_of]

lemmas audits_writes = audit_writes [THEN audits_of] audit_WriteEvent [THEN audits_of]
  audit_PostDoubleEntry [THEN audits_of]

lemmas audits_intros = audits_bind audits_ignoring audits_reads audits_writes

text \<open>A successful update puts the transfer into the new state, which it then never leaves behind.\<close>

lemma rg_reaches:
  assumes "isValidTransition from to"
  shows "rg e audit_step (UpdateState i from to) (\<lambda>_. True) (\<lambda>err d. err = None \<longrightarrow> named_past e i to d)"
  unfolding UpdateState_def
proof (rule rg_bind)
  define Q :: "go_error + uuid option \<Rightarrow> db \<Rightarrow> bool"
    where "Q = (\<lambda>r d. (\<exists>u. r = Inr (Some u)) \<longrightarrow> named_past e i to d)"
  show "rg e audit_step (sql (UpdateState_stmt i from to)) (\<lambda>_. True) Q"
  proof (rule rg_statement [OF audit_step_refl])
    fix n d r d'
    assume u: "UpdateState_stmt i from to e n d = Inr (r, d')"
    have "lawful valid_step d d'"
      using assms u
      by (auto simp: UpdateState_stmt_def lawful_refl same_identity_def
          intro!: lawful_upd_transfer split: option.splits if_splits)
    then have "audit_step d d'" using u by (blast intro: silent_audit)
    moreover have "Q (Inr r) d'"
      using u
      by (auto simp: Q_def UpdateState_stmt_def named_past_def past_def transfer_of_upd_transfer leads_to_def
          split: option.splits if_splits)
    ultimately show "audit_step d d' \<and> Q (Inr r) d'" ..
  qed (auto simp: Q_def intro: stable_imp stable_named_past)
  show "rg e audit_step (Ret (case r of Inl err \<Rightarrow> Some err | Inr None \<Rightarrow> Some ErrOptimisticLock
      | Inr (Some x) \<Rightarrow> None)) (Q r) (\<lambda>err d. err = None \<longrightarrow> named_past e i to d)" for r
    by (auto simp: Q_def split: sum.splits option.splits)
qed

text \<open>An event about a state the transfer has reached keeps the trail true.\<close>

lemma rg_announce:
  assumes "isValidTransition from to" "announces payload from to"
  shows "rg e audit_step (WriteEvent i ''state_changed'' actor payload) (named_past e i to) (\<lambda>_ _. True)"
proof -
  have "rg e audit_step (sql (WriteEvent_stmt i ''state_changed'' actor payload)) (named_past e i to) (\<lambda>_ _. True)"
  proof (rule rg_statement [OF audit_step_refl _ _ stable_named_past])
    fix n d r d'
    assume k: "named_past e i to d" and w: "WriteEvent_stmt i ''state_changed'' actor payload e n d = Inr (r, d')"
    define row where "row = (\<lambda>u. \<lparr>ev_id = fresh_uuid e n, ev_transfer_id = u, ev_step = ''state_changed'',
      ev_actor = actor, ev_data = payload, ev_created_at = clock e n\<rparr>)"
    obtain u where u: "uuid_parse e i = Some u"
      and d': "d' = d\<lparr>transfer_events := transfer_events d @ [row u]\<rparr>"
      using w by (auto simp: WriteEvent_stmt_def row_def split: if_split_asm)
    have l: "lawful valid_step d d'" by (simp add: d' lawful_def exI [of _ "[]"])
    have "past u to d'" using k u past_lawful [OF l] by (simp add: named_past_def)
    then have "truthful d' (row u)" using assms by (auto simp: truthful_def row_def)
    then have "audit_true d'" if "audit_true d"
      using that truthful_lawful [OF l] by (auto simp: audit_true_def d')
    with l show "audit_step d d' \<and> True" by (simp add: audit_step_def)
  qed simp_all
  then show ?thesis
    unfolding WriteEvent_def exec_sql_def by (auto intro: rg_bind)
qed

lemma audits_announced:
  assumes "isValidTransition from to" "announces payload from to"
    and "\<And>er. audits e (fail er)" "\<And>err. audits e (rest err)"
  shows "audits e (bind (UpdateState i from to) (\<lambda>err. case err of
      Some er \<Rightarrow> fail er
    | None \<Rightarrow> bind (WriteEvent i ''state_changed'' actor payload) rest))"
  unfolding audits_def
proof (rule rg_bind [OF rg_reaches [OF assms(1)]])
  fix err
  have rest: "rg e audit_step (bind (WriteEvent i ''state_changed'' actor payload) rest) (named_past e i to) (\<lambda>_ _. True)"
    using assms(4) unfolding audits_def by (rule rg_bind [OF rg_announce [OF assms(1,2)]])
  show "rg e audit_step (case err of Some er \<Rightarrow> fail er
      | None \<Rightarrow> bind (WriteEvent i ''state_changed'' actor payload) rest)
      (\<lambda>d. err = None \<longrightarrow> named_past e i to d) (\<lambda>_ _. True)"
  proof (cases err)
    case None
    then show ?thesis using rg_pre [OF rest] by simp
  next
    case (Some er)
    then show ?thesis using rg_pre [OF assms(3) [of er, unfolded audits_def]] by simp
  qed
qed

section \<open>Every request\<close>

lemma audits_Transition:
  "audits e (Transition transferStore WriteEvent (Some Notify) i from to)"
proof (cases "isValidTransition from to")
  case True
  then have "audits e (bind (UpdateState i from to) (\<lambda>err. case err of
      Some er \<Rightarrow> Ret (fail er) | None \<Rightarrow> bind (WriteEvent i ''state_changed'' ''system''
        [(''from_state'', JStr (state_text from)), (''to_state'', JStr (state_text to)),
         (''trigger'', JStr ''orchestrator'')]) (\<lambda>err. case err of
      Some er \<Rightarrow> Ret (failed er) | None \<Rightarrow> ignoring (Notify i payload) (Ret None))))" for fail failed payload
    by (rule audits_announced) (auto intro!: audits_intros simp: announces_def split: option.splits)
  with True show ?thesis
    unfolding Transition_def writeStateChangedEvent_def notify_best_effort_def orchDeps_simps option.case by simp
qed (auto simp: Transition_def)

lemma audits_field_setters:
  "audits e (setErrorCode transferStore i code)" "audits e (setReviewReason transferStore i reason)"
  "audits e (setContributionType transferStore i ct)" "audits e (updateTransferVSSResults transferStore i resp)"
  by (auto intro!: audits_intros simp: setErrorCode_def setReviewReason_def setContributionType_def
      updateTransferVSSResults_def if_fields_def transferStore_def)

lemmas audits_ops = audits_Transition audits_field_setters audits_intros

lemma audits_ProcessDeposit: "audits e (ProcessDeposit orchDeps td)"
  unfolding ProcessDeposit_def after_vss_def evaluate_funding_def post_funds_def post_ledger_def
    finish_posting_def reject_with_def setErrorAndReject_def Let_def orchDeps_simps
  by (auto intro!: audits_ops split: sum.splits option.splits)

lemma audits_CreateDeposit: "audits e (CreateDeposit h)"
proof -
  have "audits e (save_images i h)" for i
    unfolding save_images_def save_image_def Let_def
    by (auto intro!: audits_ops split: option.splits bool.splits)
  then show ?thesis
    unfolding CreateDeposit_def create_transfer_def run_deposit_def Let_def
    by (auto intro!: audits_ops audits_ProcessDeposit split: sum.splits option.splits)
qed

lemma audits_PostAction: "audits e (PostAction body c)"
  unfolding PostAction_def perform_action_def approve_action_def approve_post_def reject_action_def
    respond_updated_def Let_def orchDeps_simps
  by (auto intro!: audits_ops split: sum.splits option.splits)

lemma audits_return: "audits e (ReturnHandler_ProcessReturn body)"
proof -
  have reads: "audits e (Adapter_GetTransfer i)" "audits e (Adapter_GetReturnedCheckFee c)"
    "audits e Adapter_GetFeeAccountID" for i c
    unfolding Adapter_GetTransfer_def Adapter_GetReturnedCheckFee_def Adapter_GetFeeAccountID_def parse_or_nil_def
    by (auto intro!: audits_ops split: sum.splits)
  have flag: "audits e (flag_negative returnDeps a)" for a
    unfolding flag_negative_def by (auto intro!: audits_ops split: sum.splits option.splits)
  have "audits e (finish_return returnDeps inp t fee u)"
    if "rt_State t = FundsPosted \<or> rt_State t = Completed" for inp t fee u
    unfolding finish_return_def after_return_def Let_def returnDeps_simps ignoring_def
    by (rule audits_announced [of "rt_State t" Returned])
       (use that in \<open>auto intro!: audits_ops flag simp: announces_def\<close>)
  then have "audits e (return_transfer returnDeps inp t)"
    if "rt_State t = FundsPosted \<or> rt_State t = Completed" for inp t
    unfolding return_transfer_def post_return_def post_fee_def returnDeps_simps orchDeps_simps using that
    by (auto intro!: audits_ops reads split: sum.splits option.splits)
  then have "audits e (ProcessReturn returnDeps inp)" for inp
    unfolding ProcessReturn_def returnDeps_simps Let_def
    by (auto intro!: audits_ops reads split: sum.splits)
  then show ?thesis
    unfolding ReturnHandler_ProcessReturn_def respond_updated_def Let_def
    by (auto intro!: audits_ops split: sum.splits option.splits)
qed

lemma audits_Trigger: "audits e (Trigger (settlementEngine rng) now)"
proof -
  have "audits e (link_transfers (settlementEngine rng) b ts)" for b ts
    by (induction ts) (auto intro!: audits_ops)
  then have "audits e (settle_group (settlementEngine rng) dir day corr ts)" for dir day corr ts
    unfolding settle_group_def buildSettlementFile_def prefix8_def writeSettlementFile_def Let_def
    by (auto intro!: audits_ops split: sum.splits option.splits)
  then have "audits e (settle_groups (settlementEngine rng) dir day gs res)" for dir day gs res
    by (induction gs arbitrary: res) (auto intro!: audits_bind split: sum.splits)
  then show ?thesis
    unfolding Trigger_def Let_def
    by (auto intro!: audits_ops split: sum.splits option.splits)
qed

lemma audits_settlement_trigger: "audits e (SettlementHandler_Trigger (settlementEngine rng))"
proof -
  have "audits e (complete_transfer (settlementEngine rng) b ts i)" for b ts i
    unfolding complete_transfer_def notify_best_effort_def settlementEngine_simps option.case ignoring_def
    by (rule audits_announced [of FundsPosted Completed]) (auto intro!: audits_ops simp: announces_def)
  then have "audits e (complete_transfers (settlementEngine rng) b ts ids)" for b ts ids
    by (induction ids) (auto intro!: audits_bind)
  then have "audits e (AcknowledgeBatch (settlementEngine rng) b ts)" for b ts
    unfolding AcknowledgeBatch_def settlementEngine_simps
    by (auto intro!: audits_ops split: sum.splits option.splits)
  then have "audits e (submit_batch (settlementEngine rng) bs)" for bs
    unfolding submit_batch_def submitToSettlementBank_def settlementEngine_simps Let_def
    by (auto intro!: audits_ops split: sum.splits stored_file.splits)
  then have "audits e (submit_batches (settlementEngine rng) ss)" for ss
    by (induction ss) (auto intro!: audits_bind)
  then show ?thesis
    unfolding SettlementHandler_Trigger_def
    by (auto intro!: audits_ops audits_Trigger split: sum.splits)
qed

lemma audits_quiet_requests: "\<not> moves_money rq \<Longrightarrow> audits e (serve rq)"
proof (rule audits_of, rule audit_of_silent)
  have small: "guarantees silent SettlementHealth_Trigger" "guarantees silent (MarkRead i c)" for i c
    unfolding SettlementHealth_Trigger_def MarkRead_def
    by (auto intro!: guarantees_bind silent_CreateDemoBatch silent_other_writes)
  show "\<not> moves_money rq \<Longrightarrow> guarantees silent (serve rq)"
    by (cases rq) (auto intro: silent.deposit_reads silent.other_reads small guarantees_Auth)
qed (rule lawful_quiet_requests)

lemma audits_serve: "audits e (serve rq)"
proof (cases "moves_money rq")
  case True
  have key: "audits e (Idempotency key (CreateDeposit h))" for key h
    unfolding Idempotency_def by (auto intro!: audits_ops audits_CreateDeposit split: option.splits)
  have bank: "audits e (SettlementAuth (ReturnHandler_ProcessReturn body) auth)" for body auth
    unfolding SettlementAuth_def by (auto intro!: audits_ops audits_return)
  have token: "audits e (Auth (PostAction body) auth)" for body auth
    by (auto simp: Auth_def Let_def intro!: audits_PostAction split: option.splits)
  show ?thesis using True key bank token by (cases rq) (auto intro: audits_settlement_trigger)
qed (rule audits_quiet_requests)

interpretation api_audit: rely_guarantee_system e audit_step "\<lambda>_. True" api for e
  by unfold_locales (auto simp: audit_step_refl api_def audits_serve [unfolded audits_def])

lemma reachable_audit:
  "reachable e api w0 s \<Longrightarrow> audit_true (w_db w0) \<Longrightarrow> audit_true (w_db (snd s))"
  by (rule api_audit.reachable_stable [OF stable_audit_true]) simp_all

end
