(* ===== verification/SystemProperties.thy ===== *)
theory SystemProperties
  imports Example AuditTrail
begin

text \<open>
  The properties of the running system: what holds of the database in every state that any interleaving
  of requests, lost replies and crashes can reach.
\<close>

section \<open>A reachable state\<close>

text \<open>The state after one \<open>GET /deposits/{id}\<close>, for the witnesses.\<close>

lemma served_GetDeposit:
  "w_db (snd (served demo_env (RqGetDeposit check1) (demo_world ts ls))) = w_db (demo_world ts ls)"
  by (simp add: served_def GetDeposit_def check1_def run_simps demo_fault_free demo_canonical split: prod.splits)

abbreviation demo_state :: "response sys" where
  "demo_state \<equiv> served demo_env (RqGetDeposit check1)
     (demo_world [demo_transfer check1 FundsPosted] (demo_credit check1))"

lemma demo_sound: "sound_rows (ledger_entries (w_db (demo_world ts (demo_credit i))))"
  by (simp add: sound_rows_def demo_credit_def entry_key_def)

lemma demo_row: "transfer_of (w_db (demo_world [demo_transfer i s] ls)) i = Some (demo_transfer i s)"
  by (simp add: db_simps)

section \<open>Money\<close>

text \<open>C1. No interleaving of requests, no failed or half-answered database call and no crash leads to a
  transfer that is FundsPosted, Completed or Returned without the ledger entries this state stands for: the
  provisional credit of the investor's account, for Completed also the link to a settlement batch, for
  Returned also the reversal and the fee, both debited from the investor.\<close>

theorem no_unbacked_money:
  assumes "reachable e api w0 s" "uuid_env e" "wf_ids e (w_db w0)" "backed (w_db w0)"
    and "transfer_of (w_db (snd s)) i = Some r"
  shows "(t_state r \<in> {FundsPosted, Completed, Returned} \<longrightarrow>
      has_entry (w_db (snd s)) i EntryTypeProvisionalCredit (t_account_id r) SideCredit) \<and>
    (t_state r = Completed \<longrightarrow> t_settlement_batch_id r \<noteq> None) \<and>
    (t_state r = Returned \<longrightarrow>
      has_entry (w_db (snd s)) i EntryTypeReversal (t_account_id r) SideDebit \<and>
      has_entry (w_db (snd s)) i EntryTypeFee (t_account_id r) SideDebit)"
proof -
  have "backed (w_db (snd s))" using assms(1-4) by (rule reachable_backed)
  then have "backed_state (w_db (snd s)) r (t_state r)" using assms(5) unfolding backed_def by blast
  moreover have "t_id r = i" using assms(5) by (rule row_of_key)
  ultimately show ?thesis by auto
qed

theorem no_unbacked_money_witness:
  "has_entry (w_db (snd demo_state)) check1 EntryTypeProvisionalCredit alpha_001 SideCredit"
proof -
  have wf: "wf_ids demo_env (w_db (demo_world [demo_transfer check1 FundsPosted] (demo_credit check1)))"
    by (rule demo_wf_ids) simp_all
  have row: "transfer_of (w_db (snd demo_state)) check1 = Some (demo_transfer check1 FundsPosted)"
    unfolding served_GetDeposit by (rule demo_row)
  show ?thesis
    using no_unbacked_money [OF reachable_served demo_uuid_env wf demo_backed row] by simp
qed

text \<open>C2. Every reachable ledger consists of pairs of one debit and one credit of the same movement and
  amount, so the balances of all accounts cancel, whatever requests were served, interleaved, failed or
  crashed.\<close>

theorem books_always_balance:
  assumes "reachable e api w0 s" "paired_books (w_db w0)"
  shows "paired_books (w_db (snd s)) \<and>
    (\<Sum>a \<in> l_account_id ` set (ledger_entries (w_db (snd s))). balance (ledger_entries (w_db (snd s))) a) = 0"
  using reachable_paired [OF assms] book.balances_cancel by simp

theorem books_always_balance_witness:
  "(\<Sum>a \<in> l_account_id ` set (ledger_entries (w_db (snd demo_state))).
     balance (ledger_entries (w_db (snd demo_state))) a) = 0"
  using books_always_balance [OF reachable_served demo_paired] by blast

text \<open>C3. In every reachable state a transfer has at most one ledger entry of each type for each account and
  side: no race and no retry credits a deposit twice, reverses it twice or charges the fee twice, and every
  amount in the ledger is positive.\<close>

theorem posted_at_most_once:
  assumes "reachable e api w0 s" "sound_rows (ledger_entries (w_db w0))"
  shows "length (filter (\<lambda>l. l_transfer_id l = i \<and> l_entry_type l = et \<and> l_account_id l = a \<and> l_side l = sd)
      (ledger_entries (w_db (snd s)))) \<le> 1 \<and>
    list_all (\<lambda>l. numeric_pos (l_amount l)) (ledger_entries (w_db (snd s)))"
proof -
  have s: "sound_rows (ledger_entries (w_db (snd s)))" using assms by (rule reachable_sound)
  then have "distinct (map entry_key (ledger_entries (w_db (snd s))))" by (simp add: sound_rows_def)
  moreover have "length (filter (\<lambda>l. entry_key l = k) rows) \<le> 1" if "distinct (map entry_key rows)" for k rows
    using that by (induction rows) (auto simp: filter_empty_conv, metis image_eqI)
  ultimately have "length (filter (\<lambda>l. entry_key l = (i, et, a, sd)) (ledger_entries (w_db (snd s)))) \<le> 1" by blast
  with s show ?thesis by (simp add: sound_rows_def entry_key_def)
qed

theorem posted_at_most_once_witness:
  "length (filter (\<lambda>l. l_transfer_id l = check1 \<and> l_entry_type l = EntryTypeProvisionalCredit \<and>
      l_account_id l = alpha_001 \<and> l_side l = SideCredit) (ledger_entries (w_db (snd demo_state)))) \<le> 1"
  using posted_at_most_once [OF reachable_served demo_sound] by blast

section \<open>The type of the database\<close>

text \<open>C4. The database stays well-typed: from a database that satisfies the keys, references, ranges and checks of
  the migrations, every reachable one satisfies them. So every row that a transfer, an entry, an event, a
  notification or a stored response refers to exists, and no account has the same vendor transaction twice.\<close>

theorem database_stays_well_typed:
  assumes "reachable e api w0 s" "schema (w_db w0)"
  shows "schema (w_db (snd s)) \<and>
    (\<forall>l \<in> set (ledger_entries (w_db (snd s))). \<exists>r a. transfer_of (w_db (snd s)) (l_transfer_id l) = Some r \<and>
       account_of (w_db (snd s)) (l_account_id l) = Some a) \<and>
    (\<forall>r \<in> set (transfers (w_db (snd s))). \<forall>b. t_settlement_batch_id r = Some b \<longrightarrow>
       (\<exists>row. batch_of (w_db (snd s)) b = Some row))"
proof -
  have s: "schema (w_db (snd s))" using assms by (rule reachable_schema)
  with schema_tables(2,3) [OF s] show ?thesis
    unfolding not_None_eq [symmetric] ex_simps id_iff
    by (auto simp: entries_ok_def transfers_ok_def transfer_ok_def list_all_iff not_None_eq [symmetric] id_iff
        simp del: not_None_eq)
qed

lemma demo_schema: "schema (w_db (demo_world [demo_transfer check1 s] (demo_credit check1)))"
  by (simp add: schema_def accounts_ok_def correspondents_ok_def transfers_ok_def transfer_ok_def vendor_unique_def entries_ok_def
      entry_key_def events_ok_def batches_ok_def notifications_ok_def responses_ok_def account_ids_def
      transfer_ids_def batch_ids_def correspondent_ids_def demo_defs)

theorem database_stays_well_typed_witness:
  "schema (w_db (snd demo_state)) \<and> (\<exists>r. transfer_of (w_db (snd demo_state)) check1 = Some r)"
proof -
  have "\<exists>l \<in> set (ledger_entries (w_db (snd demo_state))). l_transfer_id l = check1"
    unfolding served_GetDeposit by (simp add: demo_credit_def)
  then show ?thesis using database_stays_well_typed [OF reachable_served demo_schema] by metis
qed

section \<open>History\<close>

lemma leads_to_final: "leads_to s t \<Longrightarrow> s \<in> {Rejected, Returned} \<Longrightarrow> t = s"
  unfolding leads_to_def by (erule converse_rtranclpE) auto

text \<open>C5. Between any two states of an execution a transfer is never lost, its account, omnibus account,
  correspondent, amount and submission time do not change, its batch link is not removed, and its state
  moves along the transitions of \<open>states.go\<close>; a Rejected or Returned transfer stays so for ever.\<close>

theorem transfer_history:
  assumes "reachable e api w0 s" "later e s s'" "transfer_of (w_db (snd s)) i = Some r"
  shows "\<exists>r'. transfer_of (w_db (snd s')) i = Some r' \<and> same_identity r r' \<and> leads_to (t_state r) (t_state r') \<and>
    (t_state r \<in> {Rejected, Returned} \<longrightarrow> t_state r' = t_state r)"
proof -
  obtain r' where r': "transfer_of (w_db (snd s')) i = Some r'" "same_identity r r'"
    "t_state r' = t_state r \<or> leads_to (t_state r) (t_state r')"
    by (rule lawful_transfer_of [OF later_lawful [OF assms(1,2)] assms(3)]) auto
  then have l: "leads_to (t_state r) (t_state r')" by (auto simp: leads_to_def)
  moreover have "t_state r' = t_state r" if "t_state r \<in> {Rejected, Returned}"
    using l that by (rule leads_to_final)
  ultimately show ?thesis using r' by blast
qed

theorem transfer_history_witness:
  "\<exists>r'. transfer_of (w_db (snd (served demo_env (RqSettlementTrigger id)
       (demo_world [demo_transfer check1 FundsPosted] (demo_credit check1))))) check1 = Some r' \<and>
     t_amount r' = Num 10000 \<and> leads_to FundsPosted (t_state r')"
  using transfer_history [OF reach_start later_served [of demo_env
      "demo_world [demo_transfer check1 FundsPosted] (demo_credit check1)" "RqSettlementTrigger id"],
      of check1 "demo_transfer check1 FundsPosted"]
  by (auto simp: same_identity_def db_simps)

text \<open>C6. The ledger, the audit trail and the stored responses are append-only: between any two states of an
  execution the old entries, events and responses stay, in order and unchanged, and the ledger grows by
  balanced pairs only.\<close>

theorem append_only:
  assumes "reachable e api w0 s" "later e s s'"
  shows "(\<exists>new. ledger_entries (w_db (snd s')) = ledger_entries (w_db (snd s)) @ new \<and> ledger_pairs new) \<and>
    (\<exists>new. transfer_events (w_db (snd s')) = transfer_events (w_db (snd s)) @ new) \<and>
    (\<exists>new. idempotency_keys (w_db (snd s')) = idempotency_keys (w_db (snd s)) @ new)"
  using later_lawful [OF assms] by (auto simp: lawful_def)

theorem append_only_witness:
  "\<exists>new. ledger_entries (w_db (snd (served demo_env (RqSettlementTrigger id)
       (demo_world [demo_transfer check1 FundsPosted] (demo_credit check1))))) = demo_credit check1 @ new"
  using append_only [OF reach_start later_served [of demo_env
      "demo_world [demo_transfer check1 FundsPosted] (demo_credit check1)" "RqSettlementTrigger id"]] by auto

text \<open>C7. An audit trail that tells the truth at the start tells it in every reachable state, under any
  interleaving, failure or crash: each \<open>state_changed\<close> event names a transition of \<open>states.go\<close>, its transfer exists and is in the announced
  state or has left it along valid transitions, and a transfer announced as Rejected or Returned is so.\<close>

theorem audit_trail_is_true:
  assumes "reachable e api w0 s" "audit_true (w_db w0)"
    and "ev \<in> set (transfer_events (w_db (snd s)))" "ev_step ev = ''state_changed''"
  shows "\<exists>from to r. announces (ev_data ev) from to \<and> isValidTransition from to \<and>
    transfer_of (w_db (snd s)) (ev_transfer_id ev) = Some r \<and> leads_to to (t_state r) \<and>
    (to \<in> {Rejected, Returned} \<longrightarrow> t_state r = to)"
proof -
  have "truthful (w_db (snd s)) ev"
    using reachable_audit [OF assms(1,2)] assms(3) by (simp add: audit_true_def)
  then obtain "from" "to" r where r: "announces (ev_data ev) from to" "isValidTransition from to"
    "transfer_of (w_db (snd s)) (ev_transfer_id ev) = Some r" "leads_to to (t_state r)"
    using assms(4) by (auto simp: truthful_def past_def)
  moreover have "t_state r = to" if "to \<in> {Rejected, Returned}" using r(4) that by (rule leads_to_final)
  ultimately show ?thesis by blast
qed

text \<open>An operator rejects a transfer that is still in validation; the trail of that run.\<close>

definition demo_reject :: request where
  "demo_reject = RqOperatorAction (Some \<lparr>ac_TransferID = check1, ac_Action = ''REJECT'', ac_Reason = '''',
     ac_ContributionTypeOverride = ''''\<rparr>) ''Bearer operator-alpha''"

lemma demo_operator:
  "Auth nxt ''Bearer operator-alpha'' = nxt (with_token \<lparr>dt_OperatorID = ''op-alpha-001'', dt_Role = ''operator'',
     dt_CorrespondentID = alpha, dt_AccountID = ''''\<rparr> background)"
  by (simp add: Auth_def demoTokens_def alpha_def Let_def TrimPrefix_def HasPrefix_def)

lemma served_demo_reject:
  "\<exists>x ev. transfer_events (w_db (snd (served demo_env demo_reject (demo_world [demo_transfer check1 Validating] []))))
     = [x, ev] \<and> ev_transfer_id ev = check1 \<and> ev_step ev = ''state_changed'' \<and>
     map_of (ev_data ev) ''to_state'' = Some (JStr ''Rejected'')"
proof -
  have "alpha \<noteq> ''''" "check1 \<noteq> ''''" by (simp_all add: alpha_def check1_def)
  moreover have "transfer_events (w_db (demo_world ts ls)) = []" for ts ls by (simp add: demo_world_def seed_db_def)
  ultimately show ?thesis
    by (simp add: served_def demo_reject_def demo_operator PostAction_def perform_action_def reject_action_def
        demo_fault_free demo_canonical run_simps db_simps ignoring_def run_bind isReviewable_def with_token_def
        background_def Let_def scanTransferFull_def CorrespondentIDFromContext_def action_event_def Transition_def
        writeStateChangedEvent_def notify_best_effort_def respond_updated_def transferStore_def case_prod_beta)
qed

theorem audit_trail_is_true_witness:
  "\<exists>r. transfer_of (w_db (snd (served demo_env demo_reject (demo_world [demo_transfer check1 Validating] [])))) check1
     = Some r \<and> t_state r = Rejected"
proof -
  have empty: "audit_true (w_db (demo_world [demo_transfer check1 Validating] []))"
    by (simp add: audit_true_def demo_world_def seed_db_def)
  obtain x ev where ev: "transfer_events (w_db (snd (served demo_env demo_reject
      (demo_world [demo_transfer check1 Validating] [])))) = [x, ev]"
    "ev_transfer_id ev = check1" "ev_step ev = ''state_changed''"
    "map_of (ev_data ev) ''to_state'' = Some (JStr ''Rejected'')" using served_demo_reject by blast
  have rejected: "to = Rejected" if "announces (ev_data ev) from to" for "from" "to"
    using that ev(4) by (cases "to") (simp_all add: announces_def)
  have "ev \<in> set (transfer_events (w_db (snd (served demo_env demo_reject
      (demo_world [demo_transfer check1 Validating] [])))))" by (simp add: ev(1))
  from audit_trail_is_true [OF reachable_served empty this ev(3)] rejected ev(2)
  show ?thesis by (metis insertI1)
qed

text \<open>C8. \<open>GET /health/ledger\<close> reports a healthy ledger in every reachable state whose amounts are numbers,
  when its query is answered.\<close>

theorem ledger_always_healthy:
  assumes "reachable e api w0 s" "paired_books (w_db w0)" "nan_free (ledger_entries (w_db (snd s)))" "fault_free e"
  shows "\<exists>txt w'. run (serve RqHealthLedger) e (snd s) =
    (Done (writeJSON 200 (JObj [(''sum'', JStr txt), (''healthy'', JBool True)])), w')"
proof -
  have "sum_text (ledger_entries (w_db (snd s))) = (if ledger_entries (w_db (snd s)) = [] then ''0'' else ''0.00'')"
    using reachable_paired [OF assms(1,2)] assms(3) by (rule book.reconciliation_text)
  then show ?thesis
    using assms(4)
    by (auto simp: HealthLedger_def Reconcile_def Store_Reconcile_def Reconcile_stmt_def run_simps)
qed

theorem ledger_always_healthy_witness:
  "\<exists>txt w'. run (serve RqHealthLedger) demo_env (snd demo_state) =
    (Done (writeJSON 200 (JObj [(''sum'', JStr txt), (''healthy'', JBool True)])), w')"
proof (rule ledger_always_healthy [OF reachable_served demo_paired _ demo_fault_free])
  show "nan_free (ledger_entries (w_db (snd demo_state)))"
    unfolding served_GetDeposit by (simp add: demo_credit_def)
qed

end
