(* ===== verification/DepositSpec.thy ===== *)
theory DepositSpec
  imports DepositFlow
begin

text \<open>
  The contract of the deposit flow, in one function: where a deposit ends, from the answer of the Vendor
  Service, the submitted account and amount, the rules of the correspondent and the accounts. \<open>ProcessDeposit\<close>
  with the production wiring refines it.
\<close>

section \<open>The funding decision\<close>

text \<open>The omnibus account that \<open>GetOmnibusForCorrespondent\<close> resolves.\<close>

definition omnibus_of :: "uuid \<Rightarrow> account_row list \<Rightarrow> account_row option" where
  "omnibus_of corr accts = find (\<lambda>a. a_correspondent_id a = Some corr \<and> a_type a = ''OMNIBUS'') accts"

text \<open>\<open>None\<close> is the error of a correspondent without omnibus account.\<close>

definition funding_spec :: "EvaluateRequest \<Rightarrow> account_row list \<Rightarrow> FundingDecision option" where
  "funding_spec req accts =
     (if \<exists>v. rq_VSSResult req = Some v \<and> \<not> MICRReadable v
      then Some (decide DecisionFlagForReview ''VSS_MICR_READ_FAIL'')
      else if \<exists>v. rq_VSSResult req = Some v \<and> \<not> f_eq (vr_OCRAmount v) (rq_Amount req)
      then Some (decide DecisionFlagForReview ''VSS_AMOUNT_MISMATCH'')
      else if rq_AccountStatus req \<noteq> ''ACTIVE'' \<or>
        rq_AccountType req \<in> set (IneligibleAccountTypes (rq_RulesConfig req))
      then Some (decide DecisionReject ''FS_ACCOUNT_INELIGIBLE'')
      else if f_lt (DepositLimit (rq_RulesConfig req)) (rq_Amount req)
      then Some (decide DecisionReject ''FS_OVER_DEPOSIT_LIMIT'')
      else map_option (\<lambda>a. \<lparr>fd_Decision = DecisionApprove, fd_ReasonCode = '''', fd_ResolvedOmnibusID = a_id a,
                             fd_ContributionType = DefaultContributionType req\<rparr>)
        (omnibus_of (rq_CorrespondentID req) accts))"

lemma returns_Evaluate_spec:
  assumes "fault_free e"
  shows "returns (Evaluate fundingEngine req) e w (\<lambda>dec w'. w_db w' = w_db w \<and>
     (case funding_spec req (accounts (w_db w)) of Some d \<Rightarrow> dec = Inr d | None \<Rightarrow> \<exists>er. dec = Inl er))"
  by (auto simp: Evaluate_def fundingEngine_def NewEngine_def rule_defs funding_spec_def list_ex_iff
      returns_bind returns_sql [OF assms] GetOmnibusForCorrespondent_def omnibus_of_def run_simps
      split: option.splits)

section \<open>Where a deposit ends\<close>

datatype deposit_end =
    NoVerdict
  | RejectedWith string
  | NoOmnibus
  | ForReview string
  | ToPost uuid

fun vendor_answer :: "ValidateResponse http_reply \<Rightarrow> ValidateResponse option" where
  "vendor_answer (HttpReply status body) = (if status = 200 then body else None)"
| "vendor_answer (HttpFail err) = None"

definition deposit_spec ::
  "TransferDetail \<Rightarrow> ValidateResponse http_reply \<Rightarrow> account_row list \<Rightarrow> deposit_end" where
  "deposit_spec td reply accts =
     (if \<not> json_number_ok (td_Amount td) then NoVerdict
      else case vendor_answer reply of
        None \<Rightarrow> NoVerdict
      | Some resp \<Rightarrow>
          if IQAStatus resp = ''fail'' then RejectedWith (iqa_error_code (IQAErrorType resp))
          else if DuplicateFlag resp then RejectedWith ErrCodeVSSDuplicateDetected
          else if td_AccountStatus td \<noteq> ''ACTIVE'' \<or>
            td_AccountType td \<in> set (IneligibleAccountTypes (td_RulesConfig td))
          then RejectedWith ''FS_ACCOUNT_INELIGIBLE''
          else if f_lt (DepositLimit (td_RulesConfig td)) (td_Amount td)
          then RejectedWith ''FS_OVER_DEPOSIT_LIMIT''
          else (case omnibus_of (td_CorrespondentID td) accts of
              None \<Rightarrow> NoOmnibus
            | Some a \<Rightarrow>
                if vss_review_reason resp (td_Amount td) \<noteq> ''''
                then ForReview (vss_review_reason resp (td_Amount td)) else ToPost (a_id a)))"

text \<open>The state and the error a flow returns, and the database it leaves, for each end. Posting may fail at
  the ledger: the transfer then stays Approved without entries.\<close>

definition ends_as ::
  "TransferDetail \<Rightarrow> db \<Rightarrow> deposit_end \<Rightarrow> TransferState \<times> go_error option \<Rightarrow> db \<Rightarrow> bool" where
  "ends_as td d0 fin res d \<longleftrightarrow>
     (\<exists>r s err. transfer_of d0 (td_TransferID td) = Some r \<and> res = (s, err) \<and>
        (let at_state = (\<lambda>s' ec rr new. s = s' \<and> flow (td_TransferID td) s' ec rr new d0 d);
             ec0 = t_error_code r; rr0 = t_review_reason r
         in case fin of
            NoVerdict \<Rightarrow> err \<noteq> None \<and> at_state Validating ec0 rr0 []
          | RejectedWith code \<Rightarrow> err = None \<and> at_state Rejected (Some code) rr0 []
          | NoOmnibus \<Rightarrow> err \<noteq> None \<and> at_state Analyzing ec0 rr0 []
          | ForReview reason \<Rightarrow> err = None \<and> at_state Analyzing ec0 (Some reason) []
          | ToPost omni \<Rightarrow>
              err \<noteq> None \<and> at_state Approved ec0 rr0 [] \<or>
              err = None \<and> (\<exists>q amt new. at_state FundsPosted ec0 rr0 new \<and>
                numeric_in (fmt2 (td_Amount td)) = Some q \<and> to_numeric 12 q = Some amt \<and>
                posting EntryTypeProvisionalCredit amt omni (td_AccountID td) ''FREE'' (td_TransferID td) new)))"

text \<open>The flow in progress: the codes are those of the start.\<close>

definition going :: "TransferDetail \<Rightarrow> db \<Rightarrow> TransferState \<Rightarrow> ledger_row list \<Rightarrow> db \<Rightarrow> bool" where
  "going td d0 s new d \<longleftrightarrow> (\<exists>r. transfer_of d0 (td_TransferID td) = Some r \<and>
     flow (td_TransferID td) s (t_error_code r) (t_review_reason r) new d0 d)"

lemma goingE:
  assumes "going td d0 s new d"
  obtains r where "transfer_of d0 (td_TransferID td) = Some r"
    "flow (td_TransferID td) s (t_error_code r) (t_review_reason r) new d0 d"
  using assms by (auto simp: going_def)

lemma going_accounts: "going td d0 s new d \<Longrightarrow> accounts d = accounts d0"
  by (auto simp: going_def elim: flowE)

lemma going_ledger:
  assumes "going td d0 s [] d"
  shows "going td d0 s new (d\<lparr>ledger_entries := ledger_entries d @ new\<rparr>)"
  using assms flow_ledger [of "td_TransferID td"] by (auto simp: going_def)

lemma going_event:
  assumes "fault_free e" "canonical e (td_TransferID td)" "going td d0 s new (w_db w)"
    and "\<And>w'. going td d0 s new (w_db w') \<Longrightarrow> returns q e w' Q"
  shows "returns (ignoring (WriteEvent (td_TransferID td) step actor payload) q) e w Q"
  using assms(3) by (rule goingE, elim event_then [OF assms(1,2)]) (auto simp: going_def intro: assms(4))

lemma going_transition:
  assumes "fault_free e" "canonical e (td_TransferID td)" "going td d0 from new (w_db w)"
    "isValidTransition from to" and "\<And>w'. going td d0 to new (w_db w') \<Longrightarrow> returns (k None) e w' Q"
  shows "returns (bind (Transition transferStore WriteEvent (Some Notify) (td_TransferID td) from to) k) e w Q"
  using assms(3)
  by (rule goingE, elim transition_then [OF assms(1,2) _ assms(4)]) (auto simp: going_def intro: assms(5))

lemma reject_with_ends:
  assumes e: "fault_free e" "canonical e (td_TransferID td)"
    and w: "going td d0 from [] (w_db w)" "isValidTransition from Rejected"
  shows "returns (reject_with orchDeps (td_TransferID td) from code) e w
           (\<lambda>res w'. ends_as td d0 (RejectedWith code) res (w_db w'))"
  unfolding reject_with_def setErrorAndReject_def orchDeps_simps using w
  by (auto simp: returns_bind ignoring_def ends_as_def elim!: goingE
      intro!: returns_mono [OF flow_setErrorCode [OF e]] returns_mono [OF flow_Transition [OF e _ w(2)]])

lemma finish_posting_ends:
  assumes e: "fault_free e" "canonical e (td_TransferID td)"
    and w: "going td d0 Approved new (w_db w)"
    and new: "numeric_in (fmt2 (td_Amount td)) = Some q" "to_numeric 12 q = Some amt"
      "posting EntryTypeProvisionalCredit amt omni (td_AccountID td) ''FREE'' (td_TransferID td) new"
  shows "returns (finish_posting orchDeps (td_TransferID td)) e w
           (\<lambda>res w'. ends_as td d0 (ToPost omni) res (w_db w'))"
  unfolding finish_posting_def orchDeps_simps
  by (rule going_transition [OF e w]) (use new in \<open>auto simp: ends_as_def elim!: goingE\<close>)

lemma post_ledger_ends:
  assumes e: "fault_free e" "canonical e (td_TransferID td)" and w: "going td d0 Approved [] (w_db w)"
  shows "returns (post_ledger orchDeps td omni) e w (\<lambda>res w'. ends_as td d0 (ToPost omni) res (w_db w'))"
proof -
  have memo: "MemoToEntryType ''FREE'' = Some EntryTypeProvisionalCredit" by (simp add: MemoToEntryType_def)
  show ?thesis
    unfolding post_ledger_def Let_def returns_bind [of "MustParse _"] returns_MustParse [OF e(2)]
      orchDeps_simps
  proof (rule returns_bindI [OF returns_PostDoubleEntry [OF e(1) memo]], goal_cases)
    case (1 err w')
    show ?case
    proof (cases err)
      case None
      with 1 obtain q amt new where new: "numeric_in (fmt2 (td_Amount td)) = Some q" "to_numeric 12 q = Some amt"
        "posting EntryTypeProvisionalCredit amt omni (td_AccountID td) ''FREE'' (td_TransferID td) new"
        "w_db w' = (w_db w)\<lparr>ledger_entries := ledger_entries (w_db w) @ new\<rparr>" by auto
      have "going td d0 Approved new (w_db w')" unfolding new(4) using w by (rule going_ledger)
      then show ?thesis
        unfolding None option.case
        by (rule going_event [OF e]) (erule finish_posting_ends [OF e _ new(1-3)])
    next
      case (Some er)
      with 1 w show ?thesis by (auto simp: ends_as_def elim!: goingE)
    qed
  qed
qed

lemma post_funds_ends:
  assumes e: "fault_free e" "canonical e (td_TransferID td)" and w: "going td d0 Analyzing [] (w_db w)"
  shows "returns (post_funds orchDeps td fs) e w
           (\<lambda>res w'. ends_as td d0 (ToPost (fd_ResolvedOmnibusID fs)) res (w_db w'))"
proof -
  have "returns (ignoring (setContributionType transferStore (td_TransferID td) ct)
      (post_ledger orchDeps td (fd_ResolvedOmnibusID fs))) e w'
      (\<lambda>res w'. ends_as td d0 (ToPost (fd_ResolvedOmnibusID fs)) res (w_db w'))"
    if w': "going td d0 Approved [] (w_db w')" for w' ct
    using w' by (rule goingE)
      (auto intro!: returns_ignoringI [OF flow_setContributionType [OF e]] post_ledger_ends [OF e]
        simp: going_def)
  then show ?thesis
    unfolding post_funds_def Let_def orchDeps_simps
    by (intro going_transition [OF e w]) (auto intro: post_ledger_ends [OF e])
qed

lemma flag_ends:
  assumes e: "fault_free e" "canonical e (td_TransferID td)" and w: "going td d0 Analyzing [] (w_db w)"
  shows "returns (ignoring (WriteEvent (td_TransferID td) ''flagged'' ''system'' payload)
      (ignoring (setReviewReason transferStore (td_TransferID td) reason) (Ret (Analyzing, None)))) e w
      (\<lambda>res w'. ends_as td d0 (ForReview reason) res (w_db w'))"
proof (rule going_event [OF e w])
  fix w' :: world
  assume "going td d0 Analyzing [] (w_db w')"
  then show "returns (ignoring (setReviewReason transferStore (td_TransferID td) reason) (Ret (Analyzing, None))) e w'
      (\<lambda>res w'. ends_as td d0 (ForReview reason) res (w_db w'))"
    by (rule goingE) (elim review_reason_then [OF e]; simp add: ends_as_def)
qed

lemma evaluate_funding_ends:
  assumes e: "fault_free e" "canonical e (td_TransferID td)" and w: "going td d0 Analyzing [] (w_db w)"
    and resp: "json_number_ok (td_Amount td)" "IQAStatus resp \<noteq> ''fail''" "\<not> DuplicateFlag resp"
  shows "returns (evaluate_funding orchDeps td resp) e w
      (\<lambda>res w'. ends_as td d0 (deposit_spec td (HttpReply 200 (Some resp)) (accounts d0)) res (w_db w'))"
  unfolding evaluate_funding_def Let_def orchDeps_simps
proof (rule going_event [OF e w], unfold returns_bind [of "MustParse _"] returns_MustParse [OF e(2)],
    rule returns_bindI [OF returns_Evaluate_spec [OF e(1)]], goal_cases)
  case (1 w1 dec w2)
  let ?req = "\<lparr>rq_TransferID = td_TransferID td, rq_AccountID = td_AccountID td,
     rq_CorrespondentID = td_CorrespondentID td, rq_Amount = td_Amount td,
     rq_AccountType = td_AccountType td, rq_AccountStatus = td_AccountStatus td,
     rq_ContributionType = td_ContributionType td, rq_RulesConfig = td_RulesConfig td, rq_VSSResult = None\<rparr>"
  have w2: "going td d0 Analyzing [] (w_db w2)" using 1 by simp
  have dec: "case funding_spec ?req (accounts d0) of Some d \<Rightarrow> dec = Inr d | None \<Rightarrow> \<exists>er. dec = Inl er"
    using 1 going_accounts [OF 1(1)] by simp
  show ?case
  proof (cases dec)
    case (Inl er)
    with dec have "funding_spec ?req (accounts d0) = None" by (auto split: option.splits)
    then have "deposit_spec td (HttpReply 200 (Some resp)) (accounts d0) = NoOmnibus"
      using resp by (auto simp: funding_spec_def deposit_spec_def split: if_splits)
    with w2 Inl show ?thesis by (auto simp: ends_as_def elim!: goingE)
  next
    case (Inr fs)
    with dec have spec: "funding_spec ?req (accounts d0) = Some fs" by (auto split: option.splits)
    show ?thesis
      unfolding Inr sum.case
    proof (rule going_event [OF e w2], goal_cases)
      case (1 w3)
      then show ?case
        using spec resp
        by (auto simp: funding_spec_def deposit_spec_def split: if_splits
            intro!: reject_with_ends [OF e] flag_ends [OF e] post_funds_ends [OF e, THEN returns_mono])
    qed
  qed
qed

lemma after_vss_ends:
  assumes e: "fault_free e" "canonical e (td_TransferID td)" and w: "going td d0 Validating [] (w_db w)"
    and amt: "json_number_ok (td_Amount td)"
  shows "returns (after_vss orchDeps td resp) e w
      (\<lambda>res w'. ends_as td d0 (deposit_spec td (HttpReply 200 (Some resp)) (accounts d0)) res (w_db w'))"
  unfolding after_vss_def Let_def orchDeps_simps
proof (rule going_event [OF e w], elim goingE, elim vss_results_then [OF e], goal_cases)
  case (1 w1 r w2)
  then have w2: "going td d0 Validating [] (w_db w2)" by (auto simp: going_def)
  show ?case
  proof (cases "IQAStatus resp = ''fail'' \<or> DuplicateFlag resp")
    case True
    with amt show ?thesis
      by (auto simp: deposit_spec_def intro!: reject_with_ends [OF e w2])
  next
    case False
    then show ?thesis
      by (auto intro!: going_transition [OF e w2] evaluate_funding_ends [OF e _ amt])
  qed
qed

lemma run_Validate:
  assumes "json_number_ok (td_Amount td)"
  shows "vendor_answer (vendor e (w_ticks w) (vendor_request td)) = Some resp \<Longrightarrow>
      run (Validate (vendor_request td)) e w = (Done (Inr resp), tick w)"
    and "vendor_answer (vendor e (w_ticks w) (vendor_request td)) = None \<Longrightarrow>
      \<exists>er. run (Validate (vendor_request td)) e w = (Done (Inl er), tick w)"
proof -
  have "json_number_ok (vq_Amount (vendor_request td))" using assms by (simp add: vendor_request_def)
  then show "vendor_answer (vendor e (w_ticks w) (vendor_request td)) = Some resp \<Longrightarrow>
      run (Validate (vendor_request td)) e w = (Done (Inr resp), tick w)"
    and "vendor_answer (vendor e (w_ticks w) (vendor_request td)) = None \<Longrightarrow>
      \<exists>er. run (Validate (vendor_request td)) e w = (Done (Inl er), tick w)"
    by (cases "vendor e (w_ticks w) (vendor_request td)";
        simp add: Validate_def run_bind run_http_call split: option.splits if_splits)+
qed

lemma ProcessDeposit_ends:
  assumes e: "fault_free e" "canonical e (td_TransferID td)"
    and "transfer_of (w_db w) (td_TransferID td) = Some r" "t_state r = Requested"
  shows "returns (ProcessDeposit orchDeps td) e w (\<lambda>res w'.
      \<exists>n. ends_as td (w_db w) (deposit_spec td (vendor e n (vendor_request td)) (accounts (w_db w))) res (w_db w'))"
proof -
  have w: "going td (w_db w) Requested [] (w_db w)"
    using flow_start [OF assms(3)] assms(3,4) by (simp add: going_def)
  show ?thesis
    unfolding ProcessDeposit_def Let_def orchDeps_simps
  proof (rule going_transition [OF e w], simp, unfold option.case, erule going_event [OF e], goal_cases)
    case (1 w0 w1)
    let ?n = "w_ticks w1"
    show ?case
    proof (cases "json_number_ok (td_Amount td)")
      case False
      with 1 show ?thesis
        by (auto simp: Validate_def ends_as_def deposit_spec_def elim!: goingE)
    next
      case amt: True
      show ?thesis
      proof (cases "vendor_answer (vendor e ?n (vendor_request td))")
        case None
        with run_Validate(2) [OF amt] obtain er
          where "run (Validate (vendor_request td)) e w1 = (Done (Inl er), tick w1)" by blast
        with 1 None show ?thesis
          unfolding vendor_request_def [symmetric] returns_bind
          by (subst returns_def)
             (auto simp: ends_as_def deposit_spec_def amt elim!: goingE intro!: exI [of _ ?n])
      next
        case (Some resp)
        then have reply: "vendor e ?n (vendor_request td) = HttpReply 200 (Some resp)"
          by (cases "vendor e ?n (vendor_request td)") (auto split: if_splits)
        have "run (Validate (vendor_request td)) e w1 = (Done (Inr resp), tick w1)"
          using amt Some by (rule run_Validate(1))
        with 1 show ?thesis
          unfolding vendor_request_def [symmetric] returns_bind
          by (subst returns_def)
             (auto intro!: returns_mono [OF after_vss_ends [OF e _ amt, of "w_db w"]] exI [of _ ?n]
               simp: reply)
      qed
    qed
  qed
qed


text \<open>A clean deposit ends in FundsPosted with the posting of exactly its cents.\<close>

lemma clean_deposit:
  assumes "fault_free e" "canonical e (td_TransferID td)" "happy e td c (w_db w)"
    and "transfer_of (w_db w) (td_TransferID td) = Some r" "t_state r = Requested"
    and "omnibus_of (td_CorrespondentID td) (accounts (w_db w)) = Some omni"
  shows "returns (ProcessDeposit orchDeps td) e w (\<lambda>res w'. res = (FundsPosted, None) \<and> (\<exists>new.
    flow (td_TransferID td) FundsPosted (t_error_code r) (t_review_reason r) new (w_db w) (w_db w') \<and>
    posting EntryTypeProvisionalCredit (Num c) (a_id omni) (td_AccountID td) ''FREE'' (td_TransferID td) new))"
proof (rule returns_mono [OF returns_conj [OF ProcessDeposit_happy [OF assms(1-5)]
      ProcessDeposit_ends [OF assms(1,2,4,5)]]], elim conjE exE)
  fix res w' n
  assume res: "res = (FundsPosted, None)"
    and ends: "ends_as td (w_db w) (deposit_spec td (vendor e n (vendor_request td)) (accounts (w_db w))) res (w_db w')"
  have c: "0 < c" "c < 10 ^ 12" "td_Amount td = of_cents c" using assms(3) by (auto simp: happy_def)
  then have fmt: "fmt2 (td_Amount td) = cents_text c" by (auto intro: fmt2_of_cents)
  from ends obtain amt q new where
    flow: "flow (td_TransferID td) FundsPosted (t_error_code r) (t_review_reason r) new (w_db w) (w_db w')"
    and new: "numeric_in (fmt2 (td_Amount td)) = Some q" "to_numeric 12 q = Some amt"
      "posting EntryTypeProvisionalCredit amt (a_id omni) (td_AccountID td) ''FREE'' (td_TransferID td) new"
    by (cases "deposit_spec td (vendor e n (vendor_request td)) (accounts (w_db w))")
       (auto simp: res ends_as_def assms(4,6) deposit_spec_def split: if_splits option.splits)
  have "amt = Num c"
    using new(1,2) to_numeric_12 [OF c(1,2)] by (simp add: fmt numeric_in_cents_text del: to_numeric.simps)
  with res flow new(3) show "res = (FundsPosted, None) \<and> (\<exists>new.
    flow (td_TransferID td) FundsPosted (t_error_code r) (t_review_reason r) new (w_db w) (w_db w') \<and>
    posting EntryTypeProvisionalCredit (Num c) (a_id omni) (td_AccountID td) ''FREE'' (td_TransferID td) new)"
    by auto
qed

end
