(* ===== verification/DepositProperties.thy ===== *)
theory DepositProperties
  imports Example DepositSpec
begin

text \<open>
  The properties of the deposit: the state machine, the money texts, the double entry, the funding
  decision, and where \<open>ProcessDeposit\<close> ends.
\<close>

section \<open>The state machine\<close>

text \<open>C9. A transfer passes through at most seven states and never visits one twice: the lifecycles that the
  transition table allows are the ten of \<open>histories\<close>, so money is only posted after Validating, Analyzing
  and Approved, and a return only follows the posting.\<close>

theorem lifecycles_are_finite:
  assumes "lifecycle h"
  shows "h \<in> set histories \<and> distinct h \<and> length h \<le> 7 \<and>
    (hd h \<in> {FundsPosted, Completed, Returned} \<longrightarrow>
       {Requested, Validating, Analyzing, Approved, FundsPosted} \<subseteq> set h)"
proof -
  have "h \<in> set histories" using assms by (rule lifecycle_histories)
  moreover have "length h \<le> 7 \<and> (hd h \<in> {FundsPosted, Completed, Returned} \<longrightarrow>
      {Requested, Validating, Analyzing, Approved, FundsPosted} \<subseteq> set h)" if "h \<in> set histories" for h
    using that by (auto simp: histories_def)
  ultimately show ?thesis using lifecycle_distinct [OF assms] by blast
qed

theorem lifecycles_are_finite_witness:
  "[Rejected, Validating, Requested] \<in> set histories \<and> length [Rejected, Validating, Requested] \<le> 7"
proof -
  have "lifecycle [Rejected, Validating, Requested]"
    by (intro lc_step lc_start) simp_all
  from lifecycles_are_finite [OF this] show ?thesis by blast
qed

text \<open>Any fault: the statement's effect happens or not, and success is only reported when it happened.\<close>

lemma run_exec_sql_cases:
  assumes "run (exec_sql st) e w = (out, w')"
  obtains er where "out = Done (Some er)" "w_db w' = w_db w"
  | r d er where "st e (w_ticks w) (w_db w) = Inr (r, d)" "w_db w' = d" "out = Done (Some er) \<or> out = Done None"
proof (cases "st e (w_ticks w) (w_db w)")
  case (Inl err)
  with assms show ?thesis
    by (cases "fault e (w_ticks w)")
       (auto simp: exec_sql_def run_bind sql_def run_atomic answer_def commit_def error_of_def Let_def
         intro: that(1))
next
  case (Inr rd)
  obtain r d where rd: "rd = (r, d)" by (cases rd)
  show ?thesis
  proof (cases "fault e (w_ticks w)")
    case LostRequest
    with assms show ?thesis
      by (intro that(1)) (auto simp: exec_sql_def run_bind sql_def run_atomic error_of_def Let_def)
  qed (use assms Inr rd in \<open>auto simp: exec_sql_def run_bind sql_def run_atomic answer_def commit_def
      error_of_def Let_def intro: that(2)\<close>)
qed

lemma run_UpdateState_cases:
  assumes "run (UpdateState i from to) e w = (out, w')"
  obtains er where "out = Done (Some er)" "w_db w' = w_db w"
  | u r t err where "out = Done err" "uuid_parse e i = Some u" "transfer_of (w_db w) u = Some r" "t_state r = from"
    "w_db w' = upd_transfer u (\<lambda>r. r\<lparr>t_state := to, t_updated_at := t\<rparr>) (w_db w)"
proof (cases "UpdateState_stmt i from to e (w_ticks w) (w_db w)")
  case (Inl err)
  with assms show ?thesis
    by (cases "fault e (w_ticks w)")
       (auto simp: UpdateState_def run_bind sql_def run_atomic answer_def commit_def Let_def intro: that(1))
next
  case (Inr x)
  obtain v d where x: "x = (v, d)" by force
  show ?thesis
  proof (cases v)
    case None
    with Inr x have "d = w_db w" by (auto simp: UpdateState_stmt_def split: option.splits if_splits)
    with None Inr x assms show ?thesis
      by (cases "fault e (w_ticks w)")
         (auto simp: UpdateState_def run_bind sql_def run_atomic answer_def commit_def Let_def intro: that(1))
  next
    case (Some u)
    with Inr x obtain r where r: "uuid_parse e i = Some u" "transfer_of (w_db w) u = Some r" "t_state r = from"
      "d = upd_transfer u (\<lambda>r. r\<lparr>t_state := to, t_updated_at := clock e (w_ticks w)\<rparr>) (w_db w)"
      by (auto simp: UpdateState_stmt_def split: option.splits if_splits)
    show ?thesis
    proof (cases "fault e (w_ticks w)")
      case LostRequest
      with assms show ?thesis
        by (intro that(1)) (auto simp: UpdateState_def run_bind sql_def run_atomic Let_def)
    qed (use assms Inr x Some r in \<open>auto simp: UpdateState_def run_bind sql_def run_atomic answer_def commit_def
        Let_def intro: that(2)\<close>)
  qed
qed

lemma UpdateState_succeeds:
  "fault_free e \<Longrightarrow> uuid_parse e i = Some u \<Longrightarrow> transfer_of (w_db w) u = Some r \<Longrightarrow> t_state r = from
   \<Longrightarrow> \<exists>w'. run (UpdateState i from to) e w = (Done None, w')"
  by (simp add: UpdateState_def UpdateState_stmt_def run_bind run_sql answer_def with_uuid_def)

lemma run_WriteEvent_cases:
  assumes "run (WriteEvent i step actor payload) e w = (out, w')"
  obtains er where "out = Done (Some er)" "w_db w' = w_db w"
  | u ev err where "out = Done err" "uuid_parse e i = Some u" "ev_transfer_id ev = u" "ev_step ev = step"
    "ev_actor ev = actor" "ev_data ev = payload"
    "w_db w' = (w_db w)\<lparr>transfer_events := transfer_events (w_db w) @ [ev]\<rparr>"
proof (cases "marshal_ok payload")
  case False
  with assms show ?thesis by (intro that(1)) (auto simp: WriteEvent_def)
next
  case True
  with assms have "run (exec_sql (WriteEvent_stmt i step actor payload)) e w = (out, w')" by (simp add: WriteEvent_def)
  then show ?thesis
  proof (cases rule: run_exec_sql_cases)
    case (1 er)
    then show ?thesis by (rule that(1))
  next
    case (2 r d er)
    then obtain u where "uuid_parse e i = Some u" "w_db w' = (w_db w)\<lparr>transfer_events := transfer_events (w_db w) @
        [\<lparr>ev_id = fresh_uuid e (w_ticks w), ev_transfer_id = u, ev_step = step, ev_actor = actor,
          ev_data = payload, ev_created_at = clock e (w_ticks w)\<rparr>]\<rparr>"
      by (auto simp: WriteEvent_stmt_def split: if_splits)
    moreover from 2(3) obtain err where "out = Done err" by blast
    ultimately show ?thesis by (intro that(2)) simp_all
  qed
qed

lemma WriteEvent_succeeds:
  "fault_free e \<Longrightarrow> uuid_parse e i = Some u \<Longrightarrow> transfer_of (w_db w) u \<noteq> None \<Longrightarrow> marshal_ok payload
   \<Longrightarrow> \<exists>w'. run (WriteEvent i step actor payload) e w = (Done None, w')"
  by (simp add: WriteEvent_def WriteEvent_stmt_def run_exec_sql answer_def with_uuid_def error_of_def)

text \<open>What a transition does to the database: the row moves, events are appended, a notification is sent.\<close>

definition transition_effect :: "uuid \<Rightarrow> TransferState \<Rightarrow> event_row list \<Rightarrow> db \<Rightarrow> db \<Rightarrow> bool" where
  "transition_effect u to evs d d' \<longleftrightarrow>
     (\<exists>t ns. d' = (upd_transfer u (\<lambda>r. r\<lparr>t_state := to, t_updated_at := t\<rparr>) d)
       \<lparr>transfer_events := transfer_events d @ evs, db_notices := ns\<rparr>)"

definition state_changed_event :: "uuid \<Rightarrow> TransferState \<Rightarrow> TransferState \<Rightarrow> event_row \<Rightarrow> bool" where
  "state_changed_event u from to ev \<longleftrightarrow>
     ev_transfer_id ev = u \<and> ev_step ev = ''state_changed'' \<and> ev_actor ev = ''system'' \<and>
     ev_data ev = [(''from_state'', JStr (state_text from)), (''to_state'', JStr (state_text to)),
       (''trigger'', JStr ''orchestrator'')]"

lemma upd_transfer_fields [simp]:
  "transfer_events (upd_transfer u f d) = transfer_events d" "db_notices (upd_transfer u f d) = db_notices d"
  by (simp_all add: upd_transfer_def)

lemma run_notify_cases:
  assumes "run (notify_best_effort nf i payload (Ret None)) e w = (out, w')" "nf = None \<or> nf = Some Notify"
  shows "out = Done None \<and> (\<exists>ns. w_db w' = (w_db w)\<lparr>db_notices := ns\<rparr>)"
proof (cases "nf = None \<or> \<not> marshal_ok payload")
  case True
  with assms have "out = Done None \<and> w' = w"
    by (auto simp: notify_best_effort_def ignoring_def Notify_def split: if_splits)
  then show ?thesis by (auto intro: exI [of _ "db_notices (w_db w)"])
next
  case False
  with assms obtain out1 where "run (exec_sql (Notify_stmt payload)) e w = (out1, w')"
    and out: "\<And>a. out1 = Done a \<Longrightarrow> out = Done None"
    by (auto simp: notify_best_effort_def ignoring_def Notify_def run_bind split: prod.splits outcome.splits)
  from this(1) show ?thesis
  proof (cases rule: run_exec_sql_cases)
    case (1 er)
    with out show ?thesis by (auto intro: exI [of _ "db_notices (w_db w)"])
  next
    case (2 r d er)
    then show ?thesis using out by (auto simp: Notify_stmt_def)
  qed
qed

text \<open>The second half of a transition, after the update.\<close>

lemma run_announce:
  assumes run: "run (bind (writeStateChangedEvent WriteEvent i from to) (\<lambda>err. case err of
      Some er \<Rightarrow> Ret (Some (fail er)) | None \<Rightarrow> notify_best_effort nf i payload (Ret None))) e w = (out, w')"
    and nf: "nf = None \<or> nf = Some Notify"
    and row: "uuid_parse e i = Some u" "transfer_of (w_db w) u \<noteq> None"
  shows "\<exists>err evs ns. out = Done err \<and>
    w_db w' = (w_db w)\<lparr>transfer_events := transfer_events (w_db w) @ evs, db_notices := ns\<rparr> \<and>
    (evs = [] \<and> err \<noteq> None \<or> (\<exists>ev. evs = [ev] \<and> state_changed_event u from to ev)) \<and>
    (fault_free e \<longrightarrow> err = None)"
proof -
  obtain o1 w1 where v: "run (writeStateChangedEvent WriteEvent i from to) e w = (o1, w1)" by force
  have ok: "o1 = Done None" if free: "fault_free e"
  proof -
    obtain w2 where "run (writeStateChangedEvent WriteEvent i from to) e w = (Done None, w2)"
      unfolding writeStateChangedEvent_def using WriteEvent_succeeds [OF free row] by fastforce
    with v show ?thesis by simp
  qed
  from v show ?thesis
    unfolding writeStateChangedEvent_def
  proof (cases rule: run_WriteEvent_cases)
    case (1 er)
    with run v ok have "out = Done (Some (fail er))" "w' = w1" "\<not> fault_free e" by (auto simp: run_bind)
    with 1 show ?thesis by (auto intro!: exI [of _ "[]"] exI [of _ "db_notices (w_db w)"])
  next
    case (2 v' ev err)
    then have ev: "state_changed_event u from to ev" using row(1) by (simp add: state_changed_event_def)
    show ?thesis
    proof (cases err)
      case None
      with run v 2(1) have "run (notify_best_effort nf i payload (Ret None)) e w1 = (out, w')" by (simp add: run_bind)
      from run_notify_cases [OF this nf] 2(7) ev show ?thesis by (auto intro!: exI [of _ "[ev]"])
    next
      case (Some er)
      with run v 2(1) ok have "out = Done (Some (fail er))" "w' = w1" "\<not> fault_free e" by (auto simp: run_bind)
      with 2(7) ev show ?thesis by (auto intro!: exI [of _ "[ev]"] exI [of _ "db_notices (w_db w)"])
    qed
  qed
qed

text \<open>C10. \<open>Transition\<close> under any fault: it returns, and either it reports an error and leaves the database as it
  is, or the pair is in the table, the transfer was in the expected state and is now in the new one. Success
  means that exactly one event of this transition was appended as well; an error after the move may have
  lost that event, since the two writes are separate statements. Without faults a valid transition succeeds.\<close>

theorem transition_guarded:
  assumes "run (Transition transferStore WriteEvent nf i from to) e w = (out, w')" "nf = None \<or> nf = Some Notify"
  shows "\<exists>err. out = Done err \<and>
    (err \<noteq> None \<and> w_db w' = w_db w \<or>
     isValidTransition from to \<and>
     (\<exists>u r evs. uuid_parse e i = Some u \<and> transfer_of (w_db w) u = Some r \<and> t_state r = from \<and>
        transition_effect u to evs (w_db w) (w_db w') \<and>
        (evs = [] \<and> err \<noteq> None \<or> (\<exists>ev. evs = [ev] \<and> state_changed_event u from to ev)))) \<and>
    (fault_free e \<and> isValidTransition from to \<and>
       (\<exists>u r. uuid_parse e i = Some u \<and> transfer_of (w_db w) u = Some r \<and> t_state r = from) \<longrightarrow> err = None)"
proof (cases "isValidTransition from to")
  case False
  with assms(1) show ?thesis by (auto simp: Transition_def)
next
  case True
  let ?d = "w_db w"
  obtain o1 w1 where u: "run (UpdateState i from to) e w = (o1, w1)" by force
  then show ?thesis
  proof (cases rule: run_UpdateState_cases)
    case (1 er)
    have "\<not> (fault_free e \<and> (\<exists>u r. uuid_parse e i = Some u \<and> transfer_of ?d u = Some r \<and> t_state r = from))"
      using UpdateState_succeeds [of e i _ w _ "from" "to"] u 1(1) by fastforce
    with 1 assms(1) True u show ?thesis by (auto simp: Transition_def transferStore_def run_bind)
  next
    case (2 v r t err1)
    show ?thesis
    proof (cases err1)
      case (Some er)
      have "\<not> fault_free e" using UpdateState_succeeds [OF _ 2(2-4), of "to"] u 2(1) Some by fastforce
      moreover have "transition_effect v to [] ?d (w_db w1)"
        unfolding transition_effect_def 2(5) by (intro exI [of _ t] exI [of _ "db_notices ?d"]) simp
      ultimately show ?thesis
        using 2 assms(1) True Some u by (auto simp: Transition_def transferStore_def run_bind)
    next
      case None
      have "transfer_of (w_db w1) v \<noteq> None" using 2(3) by (simp add: 2(5) transfer_of_upd_transfer)
      moreover have "run (bind (writeStateChangedEvent WriteEvent i from to) (\<lambda>err. case err of
            Some er \<Rightarrow> Ret (Some (EWrap (''WriteEvent state_changed '' @ state_text from @ arrow @ state_text to) er))
          | None \<Rightarrow> notify_best_effort nf i [(''transfer_id'', JStr i), (''from_state'', JStr (state_text from)),
              (''to_state'', JStr (state_text to))] (Ret None))) e w1 = (out, w')"
        using assms(1) True u 2(1) None
        by (simp add: Transition_def transferStore_def run_bind del: append.simps append_Cons)
      ultimately obtain err evs ns where out: "out = Done err"
        "w_db w' = (w_db w1)\<lparr>transfer_events := transfer_events (w_db w1) @ evs, db_notices := ns\<rparr>"
        "evs = [] \<and> err \<noteq> None \<or> (\<exists>ev. evs = [ev] \<and> state_changed_event v from to ev)" "fault_free e \<longrightarrow> err = None"
        using run_announce [OF _ assms(2) 2(2)] by metis
      moreover have "transition_effect v to evs ?d (w_db w')"
        unfolding transition_effect_def out(2) 2(5) by (intro exI [of _ t] exI [of _ ns]) simp
      ultimately show ?thesis using 2(2-4) True by blast
    qed
  qed
qed

text \<open>The connection fails between the two statements: the transfer has moved and no event tells it.\<close>

definition torn_env :: env where
  "torn_env = demo_env\<lparr>fault := (\<lambda>n. if n = 1 then LostRequest else NoFault)\<rparr>"

lemma torn_run:
  "\<exists>er w'. run (Transition transferStore WriteEvent None check1 FundsPosted Completed) torn_env
       (demo_world [demo_transfer check1 FundsPosted] []) = (Done (Some er), w') \<and>
     (\<exists>r. transfer_of (w_db w') check1 = Some r \<and> t_state r = Completed) \<and> transfer_events (w_db w') = []"
proof -
  have "uuid_parse torn_env check1 = Some check1" "fault torn_env 0 = NoFault" "fault torn_env (Suc 0) = LostRequest"
    by (simp_all add: torn_env_def demo_parse_def)
  moreover have "transfer_events (w_db (demo_world ts ls)) = []" for ts ls by (simp add: demo_world_def seed_db_def)
  ultimately show ?thesis
    by (simp add: Transition_def transferStore_def run_bind UpdateState_def UpdateState_stmt_def sql_def run_atomic
        Let_def db_simps answer_def commit_def writeStateChangedEvent_def WriteEvent_def exec_sql_def
        with_uuid_def error_of_def transfer_of_upd_transfer)
qed

theorem transition_guarded_witness:
  "\<exists>er w'. run (Transition transferStore WriteEvent None check1 FundsPosted Completed) torn_env
       (demo_world [demo_transfer check1 FundsPosted] []) = (Done (Some er), w') \<and>
     transition_effect check1 Completed [] (w_db (demo_world [demo_transfer check1 FundsPosted] [])) (w_db w')"
proof -
  obtain er w' r where run: "run (Transition transferStore WriteEvent None check1 FundsPosted Completed) torn_env
       (demo_world [demo_transfer check1 FundsPosted] []) = (Done (Some er), w')"
    and row: "transfer_of (w_db w') check1 = Some r" "t_state r = Completed" and none: "transfer_events (w_db w') = []"
    using torn_run by blast
  have "w_db w' \<noteq> w_db (demo_world [demo_transfer check1 FundsPosted] [])" using row by (auto simp: db_simps)
  moreover have "uuid_parse torn_env check1 = Some check1" by (simp add: torn_env_def demo_parse_def)
  moreover have "evs = []" if "transition_effect u to evs d (w_db w')" for u "to" evs d
    using that none by (auto simp: transition_effect_def)
  ultimately show ?thesis using transition_guarded [OF run] run by fastforce
qed

section \<open>The double entry\<close>

text \<open>C11. A posting writes both rows of the double entry or none, whatever fails: one debit and one credit of
  the same movement, type, transfer and positive amount. Success is only reported when both are written, and
  a memo without entry type writes nothing.\<close>

theorem double_entry_is_atomic:
  assumes "run (PostDoubleEntry dr cr amount memo i) e w = (out, w')"
  shows "\<exists>new. w_db w' = (w_db w)\<lparr>ledger_entries := ledger_entries (w_db w) @ new\<rparr> \<and>
    (new = [] \<or> (\<exists>et q amt. MemoToEntryType memo = Some et \<and> numeric_in amount = Some q \<and>
       to_numeric 12 q = Some amt \<and> posting et amt dr cr memo i new)) \<and>
    (out = Done None \<longrightarrow> new \<noteq> []) \<and> (MemoToEntryType memo = None \<longrightarrow> new = [])"
proof (cases "MemoToEntryType memo")
  case None
  with assms show ?thesis by (auto simp: PostDoubleEntry_def intro!: exI [of _ "[]"])
next
  case (Some et)
  let ?w = "tick (tick (tick w))" and ?n = "w_ticks w"
  let ?les = "double_entry et (fresh_uuid e ?n) (fresh_uuid e (Suc ?n)) (fresh_uuid e (Suc (Suc ?n))) dr cr amount memo i"
  obtain out1 where ins: "run (exec_sql (InsertEntries_stmt ?les)) e ?w = (out1, w')"
    and out: "out = Done None \<Longrightarrow> out1 = Done None"
    using assms Some
    by (auto simp: PostDoubleEntry_def InsertEntries_def run_bind run_new_uuid split: prod.splits outcome.splits)
  from ins show ?thesis
  proof (cases rule: run_exec_sql_cases)
    case (1 er)
    with out show ?thesis by (auto intro!: exI [of _ "[]"])
  next
    case (2 r d er)
    from 2(1) obtain q amt new where new: "numeric_in amount = Some q" "to_numeric 12 q = Some amt"
      "posting et amt dr cr memo i new" "d = (w_db ?w)\<lparr>ledger_entries := ledger_entries (w_db ?w) @ new\<rparr>"
      by (rule InsertEntries_double_entry)
    then have "new \<noteq> []" by (auto simp: posting_def)
    with new 2(2) Some show ?thesis by auto
  qed
qed

theorem double_entry_is_atomic_witness:
  "\<exists>new. w_db (snd (run (PostDoubleEntry omnibus_alpha alpha_001 ''100.00'' ''TIP'' check1) demo_env
      (demo_world [demo_transfer check1 Approved] []))) =
    (w_db (demo_world [demo_transfer check1 Approved] []))\<lparr>ledger_entries := new\<rparr> \<and> new = []"
  using double_entry_is_atomic [OF surjective_pairing, of omnibus_alpha alpha_001 "''100.00''" "''TIP''" check1 demo_env
      "demo_world [demo_transfer check1 Approved] []"]
  by (auto simp: MemoToEntryType_def)

text \<open>C12. Posting a positive number of cents between two accounts moves exactly those cents: the debited
  account loses them, the credited one gains them, every other balance stays, and so does the sum over all
  accounts.\<close>

theorem posting_moves_exact_cents:
  assumes "fault_free e" "MemoToEntryType memo = Some et" "postable e w et dr cr c i" "dr \<noteq> cr"
  shows "\<exists>w'. run (PostDoubleEntry dr cr (fmt2 (of_cents c)) memo i) e w = (Done None, w') \<and>
    (\<forall>a. balance (ledger_entries (w_db w')) a = balance (ledger_entries (w_db w)) a +
       (if a = dr then - c else if a = cr then c else 0)) \<and>
    ledger_total (ledger_entries (w_db w')) = ledger_total (ledger_entries (w_db w))"
proof -
  have "fmt2 (of_cents c) = cents_text c" using assms(3) by (intro fmt2_of_cents) (auto simp: postable_def)
  moreover have "ledger_total (posted_rows e n et dr cr c memo i) = 0" for n
    by (rule ledger_pairs_total [OF posting_pairs [OF posting_posted_rows]])
  ultimately show ?thesis
    using run_PostDoubleEntry [OF assms(1-3)] assms(4)
    by (simp add: balance_append balance_posted_rows ledger_total_append)
qed

lemma demo_postable:
  "postable demo_env (demo_world [demo_transfer check1 s] []) EntryTypeProvisionalCredit omnibus_alpha alpha_001
     10000 check1"
  using fresh_windowD [OF demo_fresh_window, of 1 2]
    demo_account_of [of omnibus_alpha] demo_account_of [of alpha_001]
  by (simp add: postable_def db_simps numeral_2_eq_2)

theorem posting_moves_exact_cents_witness:
  "\<exists>w'. run (PostDoubleEntry omnibus_alpha alpha_001 (fmt2 (of_cents 10000)) ''FREE'' check1) demo_env
      (demo_world [demo_transfer check1 Approved] []) = (Done None, w') \<and>
    balance (ledger_entries (w_db w')) alpha_001 = 10000 \<and>
    balance (ledger_entries (w_db w')) omnibus_alpha = - 10000"
proof -
  have memo: "MemoToEntryType ''FREE'' = Some EntryTypeProvisionalCredit" by (simp add: MemoToEntryType_def)
  show ?thesis
    using posting_moves_exact_cents [OF demo_fault_free memo demo_postable, of Approved] by (auto simp: balance_def)
qed

section \<open>Money texts\<close>



section \<open>The deposit\<close>

definition demo_detail :: TransferDetail where
  "demo_detail =
     \<lparr>td_TransferID = check1, td_AccountID = alpha_001, td_CorrespondentID = alpha,
      td_Amount = of_cents 10000, td_AccountType = ''INDIVIDUAL'', td_AccountStatus = ''ACTIVE'',
      td_ContributionType = '''', td_RulesConfig = seed_rules, td_FrontImageRef = ''front.jpg'',
      td_BackImageRef = ''back.jpg'', td_Scenario = ''clean_pass''\<rparr>"

lemma demo_detail_simps [simp]:
  "td_TransferID demo_detail = check1" "td_AccountID demo_detail = alpha_001"
  "td_CorrespondentID demo_detail = alpha" "td_Amount demo_detail = of_cents 10000"
  "td_AccountType demo_detail = ''INDIVIDUAL''" "td_AccountStatus demo_detail = ''ACTIVE''"
  "td_RulesConfig demo_detail = seed_rules"
  by (simp_all add: demo_detail_def)

lemma demo_limit: "\<not> f_lt (DepositLimit seed_rules) (of_cents 10000)"
  using of_cents_dollars [of 100] of_cents_dollars [of 5000] by (simp add: seed_rules_def)

lemma seed_rules_types [simp]: "IneligibleAccountTypes seed_rules = []"
  by (simp add: seed_rules_def)

lemma demo_omnibus:
  "omnibus_of alpha seed_accounts_rows = Some (seed_account omnibus_alpha ''OMNIBUS-ALPHA'' (Some alpha) ''OMNIBUS'')"
  by (simp add: omnibus_of_def seed_accounts_rows_def seed_account_def)

lemma demo_reply: "clean_pass (demo_vss (vendor_request demo_detail)) (of_cents 10000)"
  using of_cents_dollars [of 100] by (simp add: clean_pass_def demo_vss_def vendor_request_def)

text \<open>C14. The Funding Service decides by \<open>funding_spec\<close>: an unreadable MICR line or a mismatch of the amount
  is flagged, an inactive account, an ineligible account type and an amount over the limit are rejected, in
  this order and with their codes, and exactly the eligible requests of a correspondent with an omnibus
  account are approved. The database is not changed.\<close>

theorem funding_decides_by_spec:
  assumes "fault_free e"
  shows "\<exists>dec w'. run (Evaluate fundingEngine req) e w = (Done dec, w') \<and> w_db w' = w_db w \<and>
    (case funding_spec req (accounts (w_db w)) of Some d \<Rightarrow> dec = Inr d | None \<Rightarrow> \<exists>er. dec = Inl er) \<and>
    ((\<exists>d. dec = Inr d \<and> fd_Decision d = DecisionApprove) \<longleftrightarrow>
       eligible req \<and> omnibus_of (rq_CorrespondentID req) (accounts (w_db w)) \<noteq> None)"
proof -
  obtain dec w' where run: "run (Evaluate fundingEngine req) e w = (Done dec, w')" "w_db w' = w_db w"
    and spec: "case funding_spec req (accounts (w_db w)) of Some d \<Rightarrow> dec = Inr d | None \<Rightarrow> \<exists>er. dec = Inl er"
    using returns_Evaluate_spec [OF assms, of req w]
    by (auto simp: returns_def split: prod.splits outcome.splits)
  have "(\<exists>d. funding_spec req (accounts (w_db w)) = Some d \<and> fd_Decision d = DecisionApprove) \<longleftrightarrow>
      eligible req \<and> omnibus_of (rq_CorrespondentID req) (accounts (w_db w)) \<noteq> None"
    by (auto simp: funding_spec_def eligible_def split: option.splits if_splits)
  with run spec show ?thesis by (auto split: option.splits)
qed

theorem funding_decides_by_spec_witness:
  "\<exists>w'. run (Evaluate fundingEngine \<lparr>rq_TransferID = check1, rq_AccountID = alpha_001, rq_CorrespondentID = alpha,
      rq_Amount = of_cents 600000, rq_AccountType = ''INDIVIDUAL'', rq_AccountStatus = ''ACTIVE'',
      rq_ContributionType = '''', rq_RulesConfig = seed_rules, rq_VSSResult = None\<rparr>) demo_env (demo_world [] []) =
    (Done (Inr (decide DecisionReject ''FS_OVER_DEPOSIT_LIMIT'')), w')"
proof -
  have "f_lt (DepositLimit seed_rules) (of_cents 600000)"
    using of_cents_dollars [of 6000] of_cents_dollars [of 5000] by (simp add: seed_rules_def)
  with funding_decides_by_spec [OF demo_fault_free, of "\<lparr>rq_TransferID = check1, rq_AccountID = alpha_001,
      rq_CorrespondentID = alpha, rq_Amount = of_cents 600000, rq_AccountType = ''INDIVIDUAL'',
      rq_AccountStatus = ''ACTIVE'', rq_ContributionType = '''', rq_RulesConfig = seed_rules, rq_VSSResult = None\<rparr>"
      "demo_world [] []"]
  show ?thesis by (auto simp: funding_spec_def)
qed



text \<open>A deposit of \<open>c\<close> cents that the Vendor Service passes, that the rules accept and whose accounts
  exist always reaches FundsPosted, and it credits the investor exactly \<open>c\<close> cents and debits exactly them
  from the omnibus account of the correspondent.\<close>

lemma clean_deposit_credits_exactly:
  assumes "fault_free e" "canonical e (td_TransferID td)" "happy e td c (w_db w)"
    and "transfer_of (w_db w) (td_TransferID td) = Some r" "t_state r = Requested"
    and "omnibus_of (td_CorrespondentID td) (accounts (w_db w)) = Some omni" "a_id omni \<noteq> td_AccountID td"
  shows "\<exists>w' r'. run (ProcessDeposit orchDeps td) e w = (Done (FundsPosted, None), w') \<and>
    transfer_of (w_db w') (td_TransferID td) = Some r' \<and> t_state r' = FundsPosted \<and>
    (\<forall>a. balance (ledger_entries (w_db w')) a = balance (ledger_entries (w_db w)) a +
       (if a = td_AccountID td then c else if a = a_id omni then - c else 0))"
proof -
  obtain w' new where run: "run (ProcessDeposit orchDeps td) e w = (Done (FundsPosted, None), w')"
    and flow: "flow (td_TransferID td) FundsPosted (t_error_code r) (t_review_reason r) new (w_db w) (w_db w')"
    and new: "posting EntryTypeProvisionalCredit (Num c) (a_id omni) (td_AccountID td) ''FREE'' (td_TransferID td) new"
    using clean_deposit [OF assms(1-6)] by (auto simp: returns_def split: prod.splits outcome.splits)
  have "balance new a = (if a = a_id omni then - c else if a = td_AccountID td then c else 0)" for a
    using posting_balance assms(7) new by blast
  with run flow show ?thesis using assms(7) by (auto elim!: flowE simp: balance_append)
qed

lemma demo_happy:
  "happy demo_env demo_detail 10000 (w_db (demo_world [demo_transfer check1 Requested] []))"
proof -
  have "\<exists>a \<in> set seed_accounts_rows. a_correspondent_id a = Some alpha \<and> a_type a = ''OMNIBUS''"
    by (simp add: seed_accounts_rows_def seed_account_def)
  then show ?thesis
    using demo_reply demo_limit demo_fresh_window demo_account_of [of alpha_001]
    by (simp add: happy_def)
qed

lemma clean_deposit_credits_exactly_witness:
  "\<exists>w'. run (ProcessDeposit orchDeps demo_detail) demo_env (demo_world [demo_transfer check1 Requested] []) =
      (Done (FundsPosted, None), w') \<and>
    balance (ledger_entries (w_db w')) alpha_001 = 10000 \<and>
    balance (ledger_entries (w_db w')) omnibus_alpha = - 10000"
proof -
  let ?w = "demo_world [demo_transfer check1 Requested] []"
  have omni: "omnibus_of (td_CorrespondentID demo_detail) (accounts (w_db ?w)) =
      Some (seed_account omnibus_alpha ''OMNIBUS-ALPHA'' (Some alpha) ''OMNIBUS'')"
    by (simp add: demo_omnibus)
  show ?thesis
    using clean_deposit_credits_exactly [OF demo_fault_free _ demo_happy _ _ omni, of "demo_transfer check1 Requested"]
    by (auto simp: demo_canonical db_simps balance_def seed_account_def)
qed

end
