(* ===== verification/ReturnProperties.thy ===== *)
theory ReturnProperties
  imports Example
begin

text \<open>
  The properties of the return: what a complete return does to the balances and the account, which
  transfers it refuses, and what an interrupted return leaves.
\<close>

section \<open>A complete return\<close>

lemma reversal_and_fee_balance:
  assumes "reversal_and_fee r feeAcct c f new" "t_account_id r \<noteq> t_from_account_id r" "t_account_id r \<noteq> feeAcct"
  shows "balance new a =
    (if a = t_account_id r then - (c + f)
     else (if a = t_from_account_id r then c else 0) + (if a = feeAcct then f else 0))"
  using assms by (auto simp: reversal_and_fee_def balance_append posting_balance)

text \<open>C16. A return of a FundsPosted or Completed transfer debits the investor the amount of the deposit and
  the returned check fee, exactly to the cent, credits the one to the omnibus account and the other to
  FEE-APEX, makes the transfer Returned, notifies the investor with the reason and both amounts, and flags
  the account for collections exactly when its balance becomes negative.\<close>

theorem return_moves_money_back:
  assumes "fault_free e" "returnable e r feeAcct c f (w_db w)" "transfer_of (w_db w) i = Some r"
    and "t_state r = FundsPosted \<or> t_state r = Completed"
  shows "\<exists>w'. run (ProcessReturn returnDeps \<lparr>in_TransferID = i, in_ReasonCode = code\<rparr>) e w = (Done None, w') \<and>
    complete_return r code feeAcct c f (w_db w) (w_db w') \<and>
    (\<forall>a. balance (ledger_entries (w_db w')) a = balance (ledger_entries (w_db w)) a +
      (if a = t_account_id r then - (c + f)
       else (if a = t_from_account_id r then c else 0) + (if a = feeAcct then f else 0)))"
proof -
  obtain w' where run: "run (ProcessReturn returnDeps \<lparr>in_TransferID = i, in_ReasonCode = code\<rparr>) e w = (Done None, w')"
    and fin: "complete_return r code feeAcct c f (w_db w) (w_db w')"
    using ProcessReturn_complete [OF assms, of code]
    by (auto simp: returns_def split: prod.splits outcome.splits)
  from fin obtain ec rr new where
    "flow (t_id r) Returned ec rr new (w_db w) ((w_db w')\<lparr>accounts := accounts (w_db w)\<rparr>)"
    and new: "reversal_and_fee r feeAcct c f new"
    unfolding complete_return_def by blast
  then have "ledger_entries (w_db w') = ledger_entries (w_db w) @ new" by (auto elim: flowE)
  moreover have "t_account_id r \<noteq> t_from_account_id r" "t_account_id r \<noteq> feeAcct"
    using assms(2) by (simp_all add: returnable_def)
  ultimately show ?thesis
    using run fin reversal_and_fee_balance [OF new] by (simp add: balance_append)
qed

lemma demo_returnable:
  "returnable demo_env (demo_transfer check1 s) fee_apex 10000 3000
     (w_db (demo_world [demo_transfer check1 s] (demo_credit check1)))"
proof -
  have co: "row_of c_id alpha seed_correspondents = Some \<lparr>c_id = alpha, c_code = ''ALPHA'', c_name = ''Alpha Brokerage'',
      c_rules_config = Some seed_rules\<rparr>"
    by (simp add: seed_correspondents_def db_simps)
  have fee: "row_of a_code ''FEE-APEX'' seed_accounts_rows = Some (seed_account fee_apex ''FEE-APEX'' None ''FEE'')"
    by (simp add: seed_accounts_rows_def seed_account_def db_simps)
  have ledger: "\<forall>l \<in> set (demo_credit check1). l_entry_type l = EntryTypeProvisionalCredit"
    "nan_free (demo_credit check1)" "balance (demo_credit check1) alpha_001 = 10000"
    "\<forall>n. demo_uuid n \<notin> l_id ` set (demo_credit check1)"
    by (simp_all add: demo_credit_def balance_def signed_cents_def)
  have "ReturnedCheck (Fees seed_rules) = of_cents 3000" by (simp add: seed_rules_def)
  then show ?thesis
    using demo_fresh_window ledger demo_account_of [of alpha_001] demo_account_of [of omnibus_alpha]
      demo_account_of [of fee_apex]
    by (simp add: returnable_def demo_canonical co fee seed_account_def)
qed

theorem return_moves_money_back_witness:
  "\<exists>w'. run (ProcessReturn returnDeps \<lparr>in_TransferID = check1, in_ReasonCode = ''R01''\<rparr>) demo_env
      (demo_world [demo_transfer check1 Completed] (demo_credit check1)) = (Done None, w') \<and>
    balance (ledger_entries (w_db w')) alpha_001 = - 3000 \<and>
    balance (ledger_entries (w_db w')) fee_apex = 3000 \<and>
    balance (ledger_entries (w_db w')) omnibus_alpha = 0"
proof -
  have "balance (demo_credit check1) alpha_001 = 10000" "balance (demo_credit check1) omnibus_alpha = - 10000"
    "balance (demo_credit check1) fee_apex = 0"
    by (simp_all add: demo_credit_def balance_def signed_cents_def)
  then show ?thesis
    using return_moves_money_back [OF demo_fault_free demo_returnable, of check1 Completed "''R01''"]
    by (auto simp: db_simps)
qed

section \<open>Refusals\<close>

text \<open>C17. A return of an unknown transfer, or of one that no money stands for, fails with an error that
  says so; a return of a transfer that is already Returned succeeds; and none of them changes the
  database.\<close>

theorem return_refusals:
  assumes "fault_free e" "canonical e i"
    and "\<And>r. transfer_of (w_db w) i = Some r \<Longrightarrow> t_state r \<noteq> FundsPosted \<and> t_state r \<noteq> Completed \<and>
      canonical e (t_account_id r) \<and> canonical e (t_from_account_id r) \<and> canonical e (t_correspondent_id r)"
  shows "\<exists>err w'. run (ProcessReturn returnDeps \<lparr>in_TransferID = i, in_ReasonCode = code\<rparr>) e w = (Done err, w') \<and>
    w_db w' = w_db w \<and>
    (case transfer_of (w_db w) i of
       None \<Rightarrow> IsNotFound err
     | Some r \<Rightarrow> err = (if t_state r = Returned then None else Some (ErrInvalidReturnState i (t_state r))))"
proof (cases "transfer_of (w_db w) i")
  case None
  then show ?thesis
    by (simp add: ProcessReturn_def Let_def run_bind Adapter_GetTransfer_def run_GetByID assms(1,2)
        IsNotFound_def Returns_ErrNotFound_def)
next
  case (Some r)
  note r = assms(3) [OF Some]
  then show ?thesis
    using Some
    by (simp add: ProcessReturn_def Let_def run_bind run_Adapter_GetTransfer [OF assms(1,2) Some] loaded_def)
qed

theorem return_refusals_witness:
  "\<exists>w'. run (ProcessReturn returnDeps \<lparr>in_TransferID = check1, in_ReasonCode = ''R01''\<rparr>) demo_env
      (demo_world [demo_transfer check1 Analyzing] []) = (Done (Some (ErrInvalidReturnState check1 Analyzing)), w') \<and>
    w_db w' = w_db (demo_world [demo_transfer check1 Analyzing] [])"
  using return_refusals [OF demo_fault_free, of check1 "demo_world [demo_transfer check1 Analyzing] []" "''R01''"]
  by (auto simp: demo_canonical db_simps)

section \<open>Interrupted returns\<close>

text \<open>A posting is refused when its amount is not positive or its transfer has an entry of this type.\<close>

lemma returns_PostDoubleEntry_refused:
  assumes "fault_free e" "MemoToEntryType memo = Some et"
    and "\<And>q amt. numeric_in amount = Some q \<Longrightarrow> to_numeric 12 q = Some amt \<Longrightarrow>
      \<not> numeric_pos amt \<or> (i, et, dr, SideDebit) \<in> entry_key ` set (ledger_entries (w_db w))"
  shows "returns (PostDoubleEntry dr cr amount memo i) e w (\<lambda>err w'. err \<noteq> None \<and> w_db w' = w_db w)"
proof -
  define n where "n = w_ticks w"
  let ?w = "tick (tick (tick w))"
  let ?les = "double_entry et (fresh_uuid e n) (fresh_uuid e (Suc n)) (fresh_uuid e (Suc (Suc n))) dr cr amount memo i"
  obtain x y where les: "?les = [x, y]" "le_Amount x = amount" "le_TransferID x = i" "le_EntryType x = et"
    "le_AccountID x = dr" "le_Side x = SideDebit"
    by (auto simp: double_entry_def)
  have key: "entry_key (ledger_row_of e k x amt) = (i, et, dr, SideDebit)" for k amt
    by (simp add: entry_key_def ledger_row_of_def les)
  have "insert_entry e k x (w_db w) \<noteq> Inr d" for k d
    using assms(3) unfolding insert_entry_Inr key les(2) by blast
  then obtain er where "insert_entry e (w_ticks ?w) x (w_db w) = Inl er"
    by (cases "insert_entry e (w_ticks ?w) x (w_db w)") auto
  then show ?thesis
    by (simp add: PostDoubleEntry_def assms(2) returns_bind returns_new_uuid InsertEntries_def
        returns_exec_sql [OF assms(1)] les(1) [unfolded n_def] run_simps)
qed

text \<open>C18. The return handler posts the reversal first and changes the state last, without a transaction
  around them: once the reversal of a transfer is posted and its state is not yet Returned, every further
  return of it fails and moves nothing, so the transfer can never become Returned through the handler.\<close>

theorem interrupted_return_is_stuck:
  assumes "fault_free e" "canonical e i" "transfer_of (w_db w) i = Some r"
    and "t_state r = FundsPosted \<or> t_state r = Completed"
    and "canonical e (t_account_id r)" "canonical e (t_from_account_id r)" "canonical e (t_correspondent_id r)"
    and "(i, EntryTypeReversal, t_account_id r, SideDebit) \<in> entry_key ` set (ledger_entries (w_db w))"
  shows "\<exists>er w' r'. run (ProcessReturn returnDeps \<lparr>in_TransferID = i, in_ReasonCode = code\<rparr>) e w =
      (Done (Some er), w') \<and>
    transfer_of (w_db w') i = Some r' \<and> t_state r' = t_state r \<and>
    ledger_entries (w_db w') = ledger_entries (w_db w)"
proof -
  define Q where "Q = (\<lambda>(err :: go_error option) (w' :: world). err \<noteq> None \<and>
     flow i (t_state r) (t_error_code r) (t_review_reason r) [] (w_db w) (w_db w'))"
  have post: "returns (post_return returnDeps \<lparr>in_TransferID = i, in_ReasonCode = code\<rparr> (loaded r) fee acct) e w1 Q"
    if w1: "flow i (t_state r) (t_error_code r) (t_review_reason r) [] (w_db w) (w_db w1)" for w1 fee acct
  proof -
    have "ledger_entries (w_db w1) = ledger_entries (w_db w)" using w1 by (auto elim: flowE)
    then have refused: "returns (PostDoubleEntry (t_account_id r) (t_from_account_id r)
        (fmt2 (numeric_float (t_amount r))) ''REVERSAL'' i) e w1 (\<lambda>err w'. err \<noteq> None \<and> w_db w' = w_db w1)"
      by (intro returns_PostDoubleEntry_refused [OF assms(1) return_memos(1)]) (simp add: assms(8))
    show ?thesis
      unfolding post_return_def returnDeps_simps orchDeps_simps ReturnInput.select_convs loaded_simps
        returns_bind [of "MustParse _"] returns_MustParse [OF assms(2)]
      by (rule returns_bindI [OF refused]) (use w1 in \<open>auto simp: Q_def\<close>)
  qed
  have "returns (ProcessReturn returnDeps \<lparr>in_TransferID = i, in_ReasonCode = code\<rparr>) e w Q"
    by (rule returns_ProcessReturn [OF assms(1,3,4,2,5-7) post]) (simp_all add: Q_def)
  then show ?thesis
    by (auto simp: returns_def Q_def elim!: flowE split: prod.splits outcome.splits)
qed

definition demo_reversal :: "string \<Rightarrow> ledger_row list" where
  "demo_reversal i =
     [\<lparr>l_id = ''e0000000-0000-0000-0000-000000000004'', l_movement_id = ''e0000000-0000-0000-0000-000000000003'',
       l_transfer_id = i, l_account_id = alpha_001, l_side = SideDebit, l_amount = Num 10000,
       l_entry_type = EntryTypeReversal, l_memo = ''REVERSAL'', l_created_at = 1\<rparr>,
      \<lparr>l_id = ''e0000000-0000-0000-0000-000000000005'', l_movement_id = ''e0000000-0000-0000-0000-000000000003'',
       l_transfer_id = i, l_account_id = omnibus_alpha, l_side = SideCredit, l_amount = Num 10000,
       l_entry_type = EntryTypeReversal, l_memo = ''REVERSAL'', l_created_at = 1\<rparr>]"

theorem interrupted_return_is_stuck_witness:
  "\<exists>er w' r'. run (ProcessReturn returnDeps \<lparr>in_TransferID = check1, in_ReasonCode = ''R01''\<rparr>) demo_env
      (demo_world [demo_transfer check1 FundsPosted] (demo_credit check1 @ demo_reversal check1)) = (Done (Some er), w') \<and>
    transfer_of (w_db w') check1 = Some r' \<and> t_state r' = FundsPosted"
  using interrupted_return_is_stuck [OF demo_fault_free, of check1
      "demo_world [demo_transfer check1 FundsPosted] (demo_credit check1 @ demo_reversal check1)"
      "demo_transfer check1 FundsPosted" "''R01''"]
  by (auto simp: demo_canonical db_simps demo_reversal_def entry_key_def)

text \<open>The same rules with a returned check fee of zero.\<close>

definition without_fee :: "RulesConfig \<Rightarrow> RulesConfig" where
  "without_fee rules = rules\<lparr>Fees := (Fees rules)\<lparr>ReturnedCheck := Fin 0\<rparr>\<rparr>"

definition free_returns :: "db \<Rightarrow> db" where
  "free_returns d = d\<lparr>correspondents :=
     map (\<lambda>co. co\<lparr>c_rules_config := map_option without_fee (c_rules_config co)\<rparr>) (correspondents d)\<rparr>"

lemma row_of_free_returns:
  "row_of c_id k (map (\<lambda>co. co\<lparr>c_rules_config := g (c_rules_config co)\<rparr>) cs) =
     map_option (\<lambda>co. co\<lparr>c_rules_config := g (c_rules_config co)\<rparr>) (row_of c_id k cs)"
  by (induction cs) (simp_all add: db_simps)

lemma zero_fee_text: "numeric_in (fmt2 (Fin 0)) = Some (SNum 0)"
  using numeric_in_cents_text [of 0] round_half_even_of_int [of 0] by simp

text \<open>With the fee zero the reversal is posted and the fee is refused.\<close>

lemma post_return_zero_fee:
  assumes e: "fault_free e" "canonical e (t_id r)" and amount: "t_amount r = Num c" "t_account_id r \<noteq> t_from_account_id r"
    and post: "postable e w EntryTypeReversal (t_account_id r) (t_from_account_id r) c (t_id r)"
    and w: "flow (t_id r) s ec rr [] d0 (w_db w)"
  shows "returns (post_return returnDeps \<lparr>in_TransferID = t_id r, in_ReasonCode = code\<rparr> (loaded r) (Fin 0) feeAcct) e w
     (\<lambda>err w'. err \<noteq> None \<and> (\<exists>rev. flow (t_id r) s ec rr rev d0 (w_db w') \<and> balance rev (t_account_id r) = - c))"
proof -
  note run = run_PostDoubleEntry [OF e(1) return_memos(1) post]
  let ?rev = "posted_rows e (w_ticks w) EntryTypeReversal (t_account_id r) (t_from_account_id r) c ''REVERSAL'' (t_id r)"
  define w2 where "w2 = w\<lparr>w_ticks := w_ticks w + 4,
     w_db := (w_db w)\<lparr>ledger_entries := ledger_entries (w_db w) @ ?rev\<rparr>\<rparr>"
  have w2: "flow (t_id r) s ec rr ?rev d0 (w_db w2)" unfolding w2_def using flow_ledger [OF w] by simp
  have bal: "balance ?rev (t_account_id r) = - c" using amount(2) by (simp add: balance_posted_rows)
  have "returns (PostDoubleEntry (t_account_id r) feeAcct (fmt2 (Fin 0)) ''RETURNED_CHECK_FEE'' (t_id r)) e w2
      (\<lambda>err w'. err \<noteq> None \<and> w_db w' = w_db w2)"
    by (rule returns_PostDoubleEntry_refused [OF e(1) return_memos(2)])
       (auto simp only: zero_fee_text option.inject to_numeric.simps Let_def mult_zero_right
         round_half_away_of_int [of 0, simplified] numeric_pos.simps split: if_splits)
  then have "returns (post_fee returnDeps \<lparr>in_TransferID = t_id r, in_ReasonCode = code\<rparr> (loaded r) (Fin 0) feeAcct
      (t_id r)) e w2 (\<lambda>err w'. err \<noteq> None \<and>
        (\<exists>rev. flow (t_id r) s ec rr rev d0 (w_db w') \<and> balance rev (t_account_id r) = - c))"
    unfolding post_fee_def returnDeps_simps orchDeps_simps loaded_simps
    by (rule returns_bindI) (auto intro!: exI conjI w2 bal)
  moreover have "fmt2 (of_cents c) = cents_text c" using post by (intro fmt2_of_cents) (auto simp: postable_def)
  ultimately show ?thesis
    unfolding post_return_def returnDeps_simps orchDeps_simps ReturnInput.select_convs loaded_simps
      returns_bind [of "MustParse _"] returns_MustParse [OF e(2)] amount(1) numeric_float.simps
    by (simp add: returns_def run_bind run w2_def)
qed

lemma free_returns_simps [simp]:
  "transfers (free_returns d) = transfers d" "accounts (free_returns d) = accounts d"
  "ledger_entries (free_returns d) = ledger_entries d"
  by (simp_all add: free_returns_def)

lemma free_returns_postable:
  assumes "returnable e r feeAcct c f d" "flow (t_id r) s ec rr [] (free_returns d) (w_db w)"
  shows "postable e w EntryTypeReversal (t_account_id r) (t_from_account_id r) c (t_id r)"
  using assms fresh_windowD [of e "w_ticks w + 1" "w_ticks w + 2"]
  unfolding returnable_def postable_def by (elim flowE) (force simp: entry_key_def)

lemma free_returns_fee:
  "returnable e r feeAcct c f d \<Longrightarrow> fee_of (free_returns d) (t_correspondent_id r) = Some (Fin 0)"
  by (auto simp: returnable_def fee_of_def free_returns_def row_of_free_returns without_fee_def)

text \<open>C19. A returned check fee of zero makes every return fail half way: the reversal is posted, the fee is
  refused by the ledger because its amount is not positive, the handler answers with an error, and the
  transfer stays FundsPosted or Completed although its money has moved back.\<close>

theorem zero_fee_leaves_reversal:
  assumes "fault_free e" "returnable e r feeAcct c f (w_db w)" "transfer_of (w_db w) i = Some r"
    and "t_state r = FundsPosted \<or> t_state r = Completed"
  shows "\<exists>er w' r'. run (ProcessReturn returnDeps \<lparr>in_TransferID = i, in_ReasonCode = code\<rparr>) e
      (w\<lparr>w_db := free_returns (w_db w)\<rparr>) = (Done (Some er), w') \<and>
    transfer_of (w_db w') i = Some r' \<and> t_state r' = t_state r \<and>
    balance (ledger_entries (w_db w')) (t_account_id r) = balance (ledger_entries (w_db w)) (t_account_id r) - c"
proof -
  define w0 where "w0 = w\<lparr>w_db := free_returns (w_db w)\<rparr>"
  have tid: "t_id r = i" using row_of_key [OF assms(3)] .
  have r: "t_amount r = Num c" "t_account_id r \<noteq> t_from_account_id r" "canonical e i" "canonical e (t_account_id r)"
    "canonical e (t_from_account_id r)" "canonical e (t_correspondent_id r)"
    using assms(2) tid by (simp_all add: returnable_def)
  have row: "transfer_of (w_db w0) i = Some r" using assms(3) by (simp add: w0_def)
  have "fee_of (w_db w0) (t_correspondent_id r) = Some (Fin 0)" "fee_account (w_db w0) = Some feeAcct"
    using free_returns_fee [OF assms(2)] assms(2) by (auto simp: w0_def returnable_def fee_account_def)
  then have "returns (ProcessReturn returnDeps \<lparr>in_TransferID = i, in_ReasonCode = code\<rparr>) e w0
     (\<lambda>err w'. err \<noteq> None \<and> (\<exists>rev. flow i (t_state r) (t_error_code r) (t_review_reason r) rev (w_db w0) (w_db w') \<and>
        balance rev (t_account_id r) = - c))"
    using post_return_zero_fee [OF assms(1) _ r(1,2) free_returns_postable [OF assms(2)], unfolded tid] r(3)
    by (intro returns_ProcessReturn [OF assms(1) row assms(4) r(3-6)]) (auto simp: w0_def)
  then show ?thesis
    unfolding w0_def [symmetric]
    by (auto simp: returns_def w0_def balance_append elim!: flowE split: prod.splits outcome.splits)
qed

theorem zero_fee_leaves_reversal_witness:
  "\<exists>er w' r'. run (ProcessReturn returnDeps \<lparr>in_TransferID = check1, in_ReasonCode = ''R01''\<rparr>) demo_env
      ((demo_world [demo_transfer check1 Completed] (demo_credit check1))\<lparr>w_db :=
        free_returns (w_db (demo_world [demo_transfer check1 Completed] (demo_credit check1)))\<rparr>) = (Done (Some er), w') \<and>
    transfer_of (w_db w') check1 = Some r' \<and> t_state r' = Completed \<and>
    balance (ledger_entries (w_db w')) alpha_001 = 0"
proof -
  have "balance (demo_credit check1) alpha_001 = 10000" by (simp add: demo_credit_def balance_def signed_cents_def)
  then show ?thesis
    using zero_fee_leaves_reversal [OF demo_fault_free demo_returnable, of check1 Completed "''R01''"]
    by (auto simp: db_simps)
qed

end
