(* ===== verification/SettlementSpec.thy ===== *)
theory SettlementSpec
  imports SettlementFlow "HOL-Library.Multiset"
begin

text \<open>
  The contract of \<open>Engine.Trigger\<close>: one batch for each correspondent with FundsPosted transfers before the
  cutoff, with their number and their exact total, every one of them linked to the batch of its
  correspondent, and nothing else changed.
\<close>

section \<open>Linking transfers\<close>

text \<open>\<open>batch_link f d d'\<close>: the transfers that \<open>f\<close> maps are linked to their batch; no other transfer
  changes, nor any other table than the batches.\<close>

definition linked_row :: "uuid option \<Rightarrow> transfer_row \<Rightarrow> transfer_row \<Rightarrow> bool" where
  "linked_row b r r' \<longleftrightarrow>
     (case b of None \<Rightarrow> r' = r | Some i \<Rightarrow> \<exists>u. r' = r\<lparr>t_settlement_batch_id := Some i, t_updated_at := u\<rparr>)"

lemma linked_row_refl [simp]: "linked_row None r r"
  by (simp add: linked_row_def)

lemma linked_row_link: "linked_row (Some b) r (r\<lparr>t_settlement_batch_id := Some b, t_updated_at := c\<rparr>)"
  by (auto simp: linked_row_def)

lemma linked_row_trans:
  "linked_row a r r' \<Longrightarrow> linked_row b r' r'' \<Longrightarrow> linked_row (case b of None \<Rightarrow> a | Some i \<Rightarrow> Some i) r r''"
  by (cases a; cases b) (auto simp: linked_row_def)

definition same_other_tables :: "db \<Rightarrow> db \<Rightarrow> bool" where
  "same_other_tables d d' \<longleftrightarrow>
     accounts d' = accounts d \<and> correspondents d' = correspondents d \<and> ledger_entries d' = ledger_entries d \<and>
     transfer_events d' = transfer_events d \<and> notifications d' = notifications d \<and>
     idempotency_keys d' = idempotency_keys d \<and> db_notices d' = db_notices d"

definition batch_link :: "(uuid \<rightharpoonup> uuid) \<Rightarrow> db \<Rightarrow> db \<Rightarrow> bool" where
  "batch_link f d d' \<longleftrightarrow> same_other_tables d d' \<and>
     (\<forall>i. case transfer_of d i of
        None \<Rightarrow> transfer_of d' i = None
      | Some r \<Rightarrow> \<exists>r'. transfer_of d' i = Some r' \<and> linked_row (f i) r r')"

lemma batch_linkD:
  assumes "batch_link f d d'"
  shows "transfer_of d i = None \<Longrightarrow> transfer_of d' i = None"
    and "transfer_of d i = Some r \<Longrightarrow> \<exists>r'. transfer_of d' i = Some r' \<and> linked_row (f i) r r'"
  using assms [unfolded batch_link_def, THEN conjunct2, THEN spec, of i] by simp_all

lemma batch_link_batches: "batch_link Map.empty d (d\<lparr>settlement_batches := bs\<rparr>)"
  by (simp add: batch_link_def same_other_tables_def split: option.splits)

lemma batch_link_refl: "batch_link Map.empty d d"
  by (simp add: batch_link_def same_other_tables_def split: option.splits)

lemma batch_link_trans:
  assumes "batch_link f d d'" "batch_link g d' d''"
  shows "batch_link (f ++ g) d d''"
  unfolding batch_link_def
proof (intro conjI allI)
  show "same_other_tables d d''" using assms by (simp add: batch_link_def same_other_tables_def)
  fix i
  show "case transfer_of d i of None \<Rightarrow> transfer_of d'' i = None
      | Some r \<Rightarrow> \<exists>r'. transfer_of d'' i = Some r' \<and> linked_row ((f ++ g) i) r r'"
  proof (cases "transfer_of d i")
    case None
    then show ?thesis using batch_linkD(1) [OF assms(2)] batch_linkD(1) [OF assms(1)] by simp
  next
    case (Some r)
    then obtain r' where r': "transfer_of d' i = Some r'" "linked_row (f i) r r'"
      using batch_linkD(2) [OF assms(1)] by blast
    then obtain r'' where "transfer_of d'' i = Some r''" "linked_row (g i) r' r''"
      using batch_linkD(2) [OF assms(2)] by blast
    with Some linked_row_trans [OF r'(2)] show ?thesis by (simp add: map_add_def)
  qed
qed

lemma batch_link_one:
  "batch_link [i \<mapsto> b] d (upd_transfer i (\<lambda>r. r\<lparr>t_settlement_batch_id := Some b, t_updated_at := c\<rparr>) d)"
proof -
  have "same_other_tables d (upd_transfer i (\<lambda>r. r\<lparr>t_settlement_batch_id := Some b, t_updated_at := c\<rparr>) d)"
    by (simp add: same_other_tables_def upd_transfer_def)
  then show ?thesis
    by (simp add: batch_link_def transfer_of_upd_transfer linked_row_link split: option.splits)
qed

definition to_batch :: "uuid \<Rightarrow> STransfer list \<Rightarrow> uuid \<rightharpoonup> uuid" where
  "to_batch b ts = (\<lambda>i. if i \<in> st_ID ` set ts then Some b else None)"

lemma link_transfers_links:
  assumes "fault_free e" "batch_of (w_db w) b \<noteq> None" "list_all (\<lambda>t. canonical e (st_ID t)) ts"
  shows "\<exists>w'. run (link_transfers (settlementEngine rng) b ts) e w = (Done (), w') \<and>
    w_ticks w' = w_ticks w + length ts \<and> w_files w' = w_files w \<and>
    settlement_batches (w_db w') = settlement_batches (w_db w) \<and>
    batch_link (to_batch b ts) (w_db w) (w_db w')"
  using assms(2,3)
proof (induction ts arbitrary: w)
  case Nil
  then show ?case using batch_link_refl by (simp add: to_batch_def)
next
  case (Cons t ts)
  let ?w1 = "(tick w)\<lparr>w_db := upd_transfer (st_ID t)
      (\<lambda>r. r\<lparr>t_settlement_batch_id := Some b, t_updated_at := clock e (w_ticks w)\<rparr>) (w_db w)\<rparr>"
  have run: "run (SetSettlementBatch (st_ID t) b None) e w = (Done None, ?w1)"
    using Cons.prems
    by (simp add: SetSettlementBatch_def SetSettlementBatch_stmt_def set_transfer_stmt_def run_simps assms(1))
  have "batch_of (w_db ?w1) b \<noteq> None" "list_all (\<lambda>t. canonical e (st_ID t)) ts"
    using Cons.prems by (simp_all add: upd_transfer_def)
  from Cons.IH [OF this] obtain w' where w': "run (link_transfers (settlementEngine rng) b ts) e ?w1 = (Done (), w')"
    "w_ticks w' = w_ticks ?w1 + length ts" "w_files w' = w_files ?w1" "settlement_batches (w_db w') = settlement_batches (w_db ?w1)"
    "batch_link (to_batch b ts) (w_db ?w1) (w_db w')" by blast
  have "[st_ID t \<mapsto> b] ++ to_batch b ts = to_batch b (t # ts)"
    by (auto simp: to_batch_def map_add_def fun_eq_iff)
  moreover have "batch_link ([st_ID t \<mapsto> b] ++ to_batch b ts) (w_db w) (w_db w')"
    using batch_link_trans [OF batch_link_one w'(5) [simplified]] .
  ultimately show ?case
    using w'(1-4) by (simp add: ignoring_def run_bind run upd_transfer_def)
qed

section \<open>One group\<close>

text \<open>A group that settles: its correspondent exists, its ids are UUIDs, its amounts are cents, in the bounds
  of \<open>batch_total\<close>.\<close>

definition good_group :: "env \<Rightarrow> db \<Rightarrow> string \<Rightarrow> STransfer list \<Rightarrow> int list \<Rightarrow> bool" where
  "good_group e d corr ts cs \<longleftrightarrow>
     canonical e corr \<and> 8 \<le> length corr \<and> row_of c_id corr (correspondents d) \<noteq> None \<and>
     list_all (\<lambda>t. canonical e (st_ID t)) ts \<and> map st_Amount ts = map of_cents cs \<and>
     list_all (\<lambda>c. 0 < c) cs \<and> sum_list cs \<le> 10 ^ 10 \<and> length cs \<le> 100000"

lemma f_add_round64: "f_add a b = Fin y \<Longrightarrow> \<exists>x. round64 x = Fin y"
  by (cases a; cases b) auto

lemma f_sum_round64: "f_sum xs = Fin y \<Longrightarrow> \<exists>x. round64 x = Fin y"
proof (cases xs rule: rev_cases)
  case Nil
  assume "f_sum xs = Fin y"
  then have "round64 0 = Fin y" using Nil by (simp add: round64_def)
  then show ?thesis ..
qed (auto simp: f_sum_snoc dest: f_add_round64)

lemma good_group_amounts:
  assumes "good_group e d corr ts cs" "t \<in> set ts"
  shows "json_number_ok (st_Amount t)"
proof -
  have "st_Amount t \<in> of_cents ` set cs"
    using assms by (metis good_group_def image_eqI list.set_map)
  then obtain c where c: "c \<in> set cs" "st_Amount t = of_cents c" by blast
  have "list_all (\<lambda>c. 0 \<le> c) cs" using assms(1) by (auto simp: good_group_def list_all_iff)
  then have "c \<le> sum_list cs" using c(1) by (intro member_le_sum_list) (auto simp: list_all_iff)
  then have "\<bar>c\<bar> \<le> 10 ^ 14" using assms(1) c(1) by (auto simp: good_group_def list_all_iff)
  then obtain y where "of_cents c = Fin y" by (rule of_cents_error)
  with c show ?thesis by simp
qed

lemma good_group_file:
  assumes "good_group e d corr ts cs"
  shows "marshal_file_ok (settlement_file corr day ts now)"
proof -
  obtain s where "f_sum (map st_Amount ts) = Fin s"
    using f_sum_of_cents [of cs] assms by (auto simp: good_group_def)
  then show ?thesis
    using good_group_amounts [OF assms]
    by (auto simp: marshal_file_ok_def settlement_file_def list_all_iff check_of_def)
qed

definition group_batch :: "env \<Rightarrow> day \<Rightarrow> string \<Rightarrow> STransfer list \<Rightarrow> int list \<Rightarrow> batch_row \<Rightarrow> bool" where
  "group_batch e cutoffDate corr ts cs b \<longleftrightarrow>
     b_correspondent_id b = corr \<and> b_cutoff_date b = cutoffDate \<and> b_status b = PENDING \<and>
     b_record_count b = Some (length ts) \<and> b_total_amount b = Some (Num (sum_list cs))"

lemma map_of_filter_other: "q \<noteq> p \<Longrightarrow> map_of (filter (\<lambda>f. fst f \<noteq> p) fs) q = map_of fs q"
  by (induction fs) auto

lemma run_write_file:
  "fault_free e \<Longrightarrow> \<exists>w'. run (write_file p c) e w = (Done None, w') \<and> w_db w' = w_db w \<and>
     w_ticks w' = Suc (w_ticks w) \<and> map_of (w_files w') = (map_of (w_files w))(p \<mapsto> c)"
  by (auto simp: write_file_def run_atomic fault_free_def Let_def fun_eq_iff map_of_filter_other)

text \<open>The name of the settlement file.\<close>

definition file_path :: "string \<Rightarrow> string \<Rightarrow> day \<Rightarrow> string" where
  "file_path dir corr cutoffDate =
     dir @ ''/settlement_'' @ take 8 corr @ ''_'' @ date_text (civil cutoffDate) @ ''.json''"

lemma good_group_total:
  assumes "shortest_reads_back e" "good_group e d corr ts cs"
  shows "to_numeric 14 (float_param e (f_sum (map st_Amount ts))) = Some (Num (sum_list cs))"
proof -
  have "\<bar>shortest e y - y\<bar> \<le> \<bar>y\<bar> / 2 ^ 52" if "f_sum (map of_cents cs) = Fin y" for y
    using f_sum_round64 [OF that] assms(1) by (auto simp: shortest_reads_back_def)
  moreover have "map st_Amount ts = map of_cents cs" using assms(2) by (simp add: good_group_def)
  ultimately show ?thesis
    using assms(2) batch_total [of cs e] by (simp add: good_group_def del: to_numeric.simps)
qed

lemma run_CreateBatch_group:
  assumes "fault_free e" "shortest_reads_back e" "good_group e (w_db w) corr ts cs"
    and "batch_of (w_db w) (fresh_uuid e (w_ticks w)) = None"
  shows "\<exists>b. run (CreateBatch corr cutoffDate path (length ts) (f_sum (map st_Amount ts))) e w =
      (Done (Inr (b_id b)), (tick w)\<lparr>w_db := (w_db w)\<lparr>settlement_batches := settlement_batches (w_db w) @ [b]\<rparr>\<rparr>) \<and>
    b_id b = fresh_uuid e (w_ticks w) \<and> b_file_ref b = Some path \<and> group_batch e cutoffDate corr ts cs b"
proof -
  have corr: "canonical e corr" "row_of c_id corr (correspondents (w_db w)) \<noteq> None"
    using assms(3) by (simp_all add: good_group_def)
  show ?thesis
    using corr assms(4)
    by (intro exI [of _ "\<lparr>b_id = fresh_uuid e (w_ticks w), b_correspondent_id = corr, b_cutoff_date = cutoffDate,
        b_status = PENDING, b_file_ref = Some path, b_record_count = Some (length ts),
        b_total_amount = Some (Num (sum_list cs)), b_submitted_at = None, b_acknowledged_at = None,
        b_created_at = clock e (w_ticks w)\<rparr>"])
       (auto simp: CreateBatch_def CreateBatch_stmt_def insert_batch_def run_simps assms(1)
         good_group_total [OF assms(2,3)] group_batch_def simp del: to_numeric.simps)
qed

lemma settle_group_settles:
  assumes e: "fault_free e" "shortest_reads_back e"
    and g: "good_group e (w_db w) corr ts cs"
    and new: "batch_of (w_db w) (fresh_uuid e (w_ticks w + 2)) = None"
  shows "\<exists>s w' b. run (settle_group (settlementEngine rng) dir cutoffDate corr ts) e w = (Done (Inr s), w') \<and>
    bs_RecordCount s = length ts \<and> bs_FileRef s = file_path dir corr cutoffDate \<and>
    map_of (w_files w') = (map_of (w_files w))(file_path dir corr cutoffDate \<mapsto>
      JsonFile (settlement_file corr cutoffDate ts (clock e (w_ticks w)))) \<and>
    w_ticks w' = w_ticks w + 3 + length ts \<and>
    settlement_batches (w_db w') = settlement_batches (w_db w) @ [b] \<and>
    b_id b = fresh_uuid e (w_ticks w + 2) \<and> group_batch e cutoffDate corr ts cs b \<and>
    batch_link (to_batch (b_id b) ts) (w_db w) (w_db w')"
proof -
  define path where "path = file_path dir corr cutoffDate"
  define f where "f = settlement_file corr cutoffDate ts (clock e (w_ticks w))"
  have ok: "marshal_file_ok f" unfolding f_def using g by (rule good_group_file)
  obtain w1 where w1: "run (write_file path (JsonFile f)) e (tick w) = (Done None, w1)" "w_db w1 = w_db w"
    "w_ticks w1 = w_ticks w + 2" "map_of (w_files w1) = (map_of (w_files w))(path \<mapsto> JsonFile f)"
    using run_write_file [OF e(1), of path "JsonFile f" "tick w"] by auto
  obtain b where create: "run (CreateBatch corr cutoffDate path (length ts) (f_sum (map st_Amount ts))) e w1 =
      (Done (Inr (b_id b)), (tick w1)\<lparr>w_db := (w_db w)\<lparr>settlement_batches := settlement_batches (w_db w) @ [b]\<rparr>\<rparr>)"
    and b: "b_id b = fresh_uuid e (w_ticks w + 2)" "group_batch e cutoffDate corr ts cs b"
    using run_CreateBatch_group [OF e, of w1 corr ts cs cutoffDate path] g new unfolding w1(2,3) by blast
  define w2 where "w2 = (tick w1)\<lparr>w_db := (w_db w)\<lparr>settlement_batches := settlement_batches (w_db w) @ [b]\<rparr>\<rparr>"
  note create = create [folded w2_def]
  have batch: "batch_of (w_db w2) (b_id b) \<noteq> None" by (simp add: w2_def db_simps split: option.splits)
  obtain w3 where w3: "run (link_transfers (settlementEngine rng) (b_id b) ts) e w2 = (Done (), w3)"
    "w_ticks w3 = w_ticks w2 + length ts" "w_files w3 = w_files w2" "settlement_batches (w_db w3) = settlement_batches (w_db w2)"
    "batch_link (to_batch (b_id b) ts) (w_db w2) (w_db w3)"
    using link_transfers_links [OF e(1) batch, of ts rng] g by (auto simp: good_group_def)
  have links: "batch_link (to_batch (b_id b) ts) (w_db w) (w_db w3)"
    using batch_link_trans [OF batch_link_batches w3(5) [unfolded w2_def, simplified]] by simp
  have eight: "\<not> length corr < 8" using g by (simp add: good_group_def)
  define s where "s = \<lparr>bs_BatchID = b_id b, bs_CorrespondentID = corr, bs_RecordCount = length ts,
     bs_TotalAmount = f_sum (map st_Amount ts), bs_FileRef = path\<rparr>"
  have "run (settle_group (settlementEngine rng) dir cutoffDate corr ts) e w = (Done (Inr s), w3)"
    using w1(1) [unfolded path_def file_path_def] ok eight create [unfolded path_def file_path_def] w3(1)
    by (simp add: settle_group_def buildSettlementFile_def prefix8_def writeSettlementFile_def Let_def run_simps
        f_def [symmetric] s_def path_def file_path_def)
  moreover have "bs_RecordCount s = length ts" "bs_FileRef s = file_path dir corr cutoffDate"
    by (simp_all add: s_def path_def)
  moreover have "map_of (w_files w3) = (map_of (w_files w))(file_path dir corr cutoffDate \<mapsto>
      JsonFile (settlement_file corr cutoffDate ts (clock e (w_ticks w))))"
    using w1(4) w3(3) by (simp add: w2_def path_def f_def)
  moreover have "w_ticks w3 = w_ticks w + 3 + length ts" using w1(3) w3(2) by (simp add: w2_def)
  moreover have "settlement_batches (w_db w3) = settlement_batches (w_db w) @ [b]" using w3(4) by (simp add: w2_def)
  ultimately show ?thesis using links b by blast
qed

section \<open>All groups\<close>

fun links :: "(string \<times> STransfer list) list \<Rightarrow> batch_row list \<Rightarrow> uuid \<rightharpoonup> uuid" where
  "links ((k, g) # gs) (b # bs) = to_batch (b_id b) g ++ links gs bs"
| "links _ _ = Map.empty"

definition group_ticks :: "(string \<times> STransfer list) list \<Rightarrow> nat" where
  "group_ticks gs = sum_list (map (\<lambda>(k, g). 3 + length g) gs)"

lemma group_ticks_simps [simp]: "group_ticks [] = 0" "group_ticks ((k, g) # gs) = 3 + length g + group_ticks gs"
  by (simp_all add: group_ticks_def)

text \<open>The UUIDs of the next \<open>k\<close> steps differ and are no batch's yet.\<close>

definition fresh_batches :: "env \<Rightarrow> world \<Rightarrow> nat \<Rightarrow> bool" where
  "fresh_batches e w k \<longleftrightarrow>
     inj_on (fresh_uuid e) {w_ticks w..<w_ticks w + k} \<and>
     (\<forall>n \<in> {w_ticks w..<w_ticks w + k}. fresh_uuid e n \<notin> b_id ` set (settlement_batches (w_db w)))"

lemma fresh_batches_rest:
  assumes "fresh_batches e w k" "settlement_batches (w_db w') = settlement_batches (w_db w) @ [b]"
    and "b_id b = fresh_uuid e m" "w_ticks w \<le> m" "m < w_ticks w'" "w_ticks w' + k' \<le> w_ticks w + k"
  shows "fresh_batches e w' k'"
  unfolding fresh_batches_def
proof (intro conjI ballI)
  have sub: "{w_ticks w'..<w_ticks w' + k'} \<subseteq> {w_ticks w..<w_ticks w + k}" using assms(4-6) by auto
  show "inj_on (fresh_uuid e) {w_ticks w'..<w_ticks w' + k'}"
    using assms(1) sub unfolding fresh_batches_def by (blast intro: inj_on_subset)
  fix n assume n: "n \<in> {w_ticks w'..<w_ticks w' + k'}"
  then have "n \<noteq> m" "n \<in> {w_ticks w..<w_ticks w + k}" "m \<in> {w_ticks w..<w_ticks w + k}"
    using sub assms(4-6) by auto
  with assms(1) have "fresh_uuid e n \<noteq> fresh_uuid e m" "fresh_uuid e n \<notin> b_id ` set (settlement_batches (w_db w))"
    unfolding fresh_batches_def by (auto dest: inj_onD)
  then show "fresh_uuid e n \<notin> b_id ` set (settlement_batches (w_db w'))" using assms(2,3) by simp
qed

lemma good_group_other_tables:
  "same_other_tables d d' \<Longrightarrow> good_group e d' corr ts cs = good_group e d corr ts cs"
  by (simp add: good_group_def same_other_tables_def)

lemma settle_groups_settle:
  assumes e: "fault_free e" "shortest_reads_back e"
    and "\<forall>k g. (k, g) \<in> set gs \<longrightarrow> good_group e (w_db w) k g (cs k)" "fresh_batches e w (group_ticks gs)"
  shows "\<exists>res' w' bs. run (settle_groups (settlementEngine rng) dir cutoffDate gs res) e w = (Done (Inr res'), w') \<and>
    settlement_batches (w_db w') = settlement_batches (w_db w) @ bs \<and>
    list_all2 (\<lambda>(k, g) b. group_batch e cutoffDate k g (cs k) b) gs bs \<and>
    batch_link (links gs bs) (w_db w) (w_db w') \<and> distinct (map b_id bs) \<and>
    b_id ` set bs \<subseteq> fresh_uuid e ` {w_ticks w..<w_ticks w + group_ticks gs} \<and>
    tg_BatchCount res' = tg_BatchCount res + length gs \<and>
    tg_TotalChecks res' = tg_TotalChecks res + sum_list (map (\<lambda>(k, g). length g) gs)"
  using assms(3,4)
proof (induction gs arbitrary: w res)
  case Nil
  then show ?case using batch_link_refl by simp
next
  case (Cons kg gs)
  obtain k g where kg: "kg = (k, g)" by (cases kg)
  have "fresh_uuid e (w_ticks w + 2) \<notin> b_id ` set (settlement_batches (w_db w))"
    using Cons.prems(2) by (auto simp: fresh_batches_def kg)
  then have "batch_of (w_db w) (fresh_uuid e (w_ticks w + 2)) = None" by (simp add: row_of_None_iff)
  moreover have "good_group e (w_db w) k g (cs k)" using Cons.prems(1) by (simp add: kg)
  ultimately obtain s w1 b where
    s: "run (settle_group (settlementEngine rng) dir cutoffDate k g) e w = (Done (Inr s), w1)" "bs_RecordCount s = length g"
    and w1: "w_ticks w1 = w_ticks w + 3 + length g" "settlement_batches (w_db w1) = settlement_batches (w_db w) @ [b]"
    and b: "b_id b = fresh_uuid e (w_ticks w + 2)" "group_batch e cutoffDate k g (cs k) b"
    and l: "batch_link (to_batch (b_id b) g) (w_db w) (w_db w1)"
    using settle_group_settles [OF e] by blast
  have "same_other_tables (w_db w) (w_db w1)" using l by (simp add: batch_link_def)
  then have good: "\<forall>k' g'. (k', g') \<in> set gs \<longrightarrow> good_group e (w_db w1) k' g' (cs k')"
    using Cons.prems(1) by (simp add: good_group_other_tables)
  have "fresh_batches e w1 (group_ticks gs)"
    by (rule fresh_batches_rest [OF Cons.prems(2) w1(2) b(1)]) (simp_all add: w1(1) kg)
  from Cons.IH [OF good this, of "add_summary res s"] obtain res' w' bs where
    run: "run (settle_groups (settlementEngine rng) dir cutoffDate gs (add_summary res s)) e w1 = (Done (Inr res'), w')"
    and rest: "settlement_batches (w_db w') = settlement_batches (w_db w1) @ bs"
      "list_all2 (\<lambda>(k, g) b. group_batch e cutoffDate k g (cs k) b) gs bs"
      "batch_link (links gs bs) (w_db w1) (w_db w')" "distinct (map b_id bs)"
      "b_id ` set bs \<subseteq> fresh_uuid e ` {w_ticks w1..<w_ticks w1 + group_ticks gs}"
      "tg_BatchCount res' = tg_BatchCount (add_summary res s) + length gs"
      "tg_TotalChecks res' = tg_TotalChecks (add_summary res s) + sum_list (map (\<lambda>(k, g). length g) gs)"
    by blast
  have "run (settle_groups (settlementEngine rng) dir cutoffDate (kg # gs) res) e w = (Done (Inr res'), w')"
    by (simp add: kg run_bind s(1) run)
  moreover have "batch_link (links (kg # gs) (b # bs)) (w_db w) (w_db w')"
    using batch_link_trans [OF l rest(3)] by (simp add: kg)
  moreover have "list_all2 (\<lambda>(k, g) b. group_batch e cutoffDate k g (cs k) b) (kg # gs) (b # bs)"
    using b(2) rest(2) by (simp add: kg)
  moreover have "settlement_batches (w_db w') = settlement_batches (w_db w) @ b # bs"
    using rest(1) w1(2) by simp
  moreover have "b_id ` set (b # bs) \<subseteq> fresh_uuid e ` {w_ticks w..<w_ticks w + group_ticks (kg # gs)}"
    using rest(5) b(1) by (auto simp: w1(1) kg)
  moreover have "distinct (map b_id (b # bs))"
  proof -
    have "fresh_uuid e (w_ticks w + 2) \<notin> fresh_uuid e ` {w_ticks w1..<w_ticks w1 + group_ticks gs}"
      using Cons.prems(2) by (auto simp: fresh_batches_def w1(1) kg dest!: inj_onD)
    with rest(4,5) b(1) show ?thesis by auto
  qed
  moreover have "tg_BatchCount res' = tg_BatchCount res + length (kg # gs)"
    "tg_TotalChecks res' = tg_TotalChecks res + sum_list (map (\<lambda>(k, g). length g) (kg # gs))"
    using rest(6,7) s(2) by (simp_all add: add_summary_def kg)
  ultimately show ?case by blast
qed

section \<open>The links of the groups\<close>

lemma links_None:
  "(\<And>k g. (k, g) \<in> set gs \<Longrightarrow> i \<notin> st_ID ` set g) \<Longrightarrow> links gs bs i = None"
  by (induction gs bs rule: links.induct) (auto simp: to_batch_def map_add_def split: option.splits)

lemma links_Some:
  assumes "list_all2 P gs bs" "(k, g) \<in> set gs" "i \<in> st_ID ` set g" "distinct (map fst gs)"
    and "\<And>k' g'. (k', g') \<in> set gs \<Longrightarrow> i \<in> st_ID ` set g' \<Longrightarrow> k' = k"
  shows "\<exists>b. b \<in> set bs \<and> P (k, g) b \<and> links gs bs i = Some (b_id b)"
  using assms
proof (induction gs bs rule: list_all2_induct)
  case (Cons kg gs b bs)
  obtain k1 g1 where kg: "kg = (k1, g1)" by (cases kg)
  show ?case
  proof (cases "i \<in> st_ID ` set g1")
    case True
    then have "k1 = k" using Cons.prems(4) [of k1 g1] by (simp add: kg)
    then have "g1 = g" using Cons.prems(1,3) by (force simp: kg)
    have "k \<notin> fst ` set gs" using Cons.prems(3) \<open>k1 = k\<close> by (simp add: kg)
    then have "links gs bs i = None"
      using Cons.prems(4) by (intro links_None) (metis fst_conv image_eqI list.set_intros(2))
    with True have "links (kg # gs) (b # bs) i = Some (b_id b)" by (simp add: kg to_batch_def map_add_def)
    moreover have "P (k, g) b" using Cons.hyps(1) \<open>k1 = k\<close> \<open>g1 = g\<close> by (simp add: kg)
    ultimately show ?thesis by (metis list.set_intros(1))
  next
    case False
    then have "(k, g) \<in> set gs" using Cons.prems(1,2) by (auto simp: kg)
    moreover have "distinct (map fst gs)" using Cons.prems(3) by simp
    moreover have "k' = k" if "(k', g') \<in> set gs" "i \<in> st_ID ` set g'" for k' g'
      using Cons.prems(4) [of k' g'] that by simp
    ultimately obtain b' where "b' \<in> set bs" "P (k, g) b'" "links gs bs i = Some (b_id b')"
      using Cons.IH [OF _ Cons.prems(2)] by blast
    moreover have "links (kg # gs) (b # bs) i = links gs bs i"
      using False \<open>links gs bs i = Some (b_id b')\<close> by (simp add: kg map_add_def)
    ultimately show ?thesis by (metis list.set_intros(2))
  qed
qed simp

section \<open>Trigger\<close>

text \<open>The transfers that a run settles, and those of one correspondent.\<close>

definition due :: "instant \<Rightarrow> db \<Rightarrow> transfer_row list" where
  "due cutoff d = filter (\<lambda>r. t_state r = FundsPosted \<and> t_submitted_at r < cutoff) (transfers d)"

definition due_of :: "instant \<Rightarrow> db \<Rightarrow> uuid \<Rightarrow> transfer_row list" where
  "due_of cutoff d corr = filter (\<lambda>r. t_correspondent_id r = corr) (due cutoff d)"

definition row_cents :: "transfer_row list \<Rightarrow> int" where
  "row_cents rs = sum_list (map (\<lambda>r. cents (t_amount r)) rs)"

definition settleable :: "env \<Rightarrow> world \<Rightarrow> instant \<Rightarrow> bool" where
  "settleable e w cutoff \<longleftrightarrow>
     distinct (map t_id (transfers (w_db w))) \<and>
     (\<forall>r \<in> set (due cutoff (w_db w)).
        canonical e (t_id r) \<and> canonical e (t_correspondent_id r) \<and> 8 \<le> length (t_correspondent_id r) \<and>
        row_of c_id (t_correspondent_id r) (correspondents (w_db w)) \<noteq> None \<and>
        t_amount r \<noteq> NumNaN \<and> numeric_pos (t_amount r)) \<and>
     row_cents (due cutoff (w_db w)) \<le> 10 ^ 10 \<and> length (due cutoff (w_db w)) \<le> 100000 \<and>
     fresh_batches e w (2 + 4 * length (due cutoff (w_db w)))"

lemma sum_list_filter_sort:
  "sum_list (map f (filter P (sort_key k xs))) = (sum_list (map f (filter P xs)) :: int)"
proof -
  have "mset (map f (filter P (sort_key k xs))) = mset (map f (filter P xs))" by simp
  then show ?thesis by (metis sum_mset_sum_list)
qed

lemma length_filter_sort: "length (filter P (sort_key k xs)) = length (filter P xs)"
  by (metis mset_eq_length mset_filter mset_sort)

lemma sum_of_groups:
  "finite A \<Longrightarrow> key ` set xs \<subseteq> A \<Longrightarrow> (\<Sum>k \<in> A. length (filter (\<lambda>x. key x = k) xs)) = length xs"
proof (induction xs)
  case (Cons x xs)
  have "(\<Sum>k \<in> A. length (filter (\<lambda>x. key x = k) (x # xs))) =
      (\<Sum>k \<in> A. (if key x = k then 1 else 0) + length (filter (\<lambda>x. key x = k) xs))"
    by (rule sum.cong) auto
  with Cons show ?case by (simp add: sum.distrib)
qed simp

lemma ranged_lengths:
  assumes "range_order rng"
  shows "sum_list (map (\<lambda>(k, g). length g) (ranged rng (group_transfers ts))) = length ts"
    and "group_ticks (ranged rng (group_transfers ts)) \<le> 4 * length ts"
    and "length (ranged rng (group_transfers ts)) = card (st_CorrespondentID ` set ts)"
proof -
  let ?gs = "ranged rng (group_transfers ts)"
  note gs = ranged_groups [OF assms, of ts]
  have d: "distinct ?gs" using gs(1) by (simp add: distinct_map)
  have inj: "inj_on (\<lambda>k. (k, filter (\<lambda>t. st_CorrespondentID t = k) ts)) A" for A by (simp add: inj_on_def)
  have "sum_list (map (\<lambda>(k, g). length g) ?gs) = (\<Sum>(k, g) \<in> set ?gs. length g)"
    using d by (simp add: sum_list_distinct_conv_sum_set)
  also have "\<dots> = (\<Sum>k \<in> st_CorrespondentID ` set ts. length (filter (\<lambda>t. st_CorrespondentID t = k) ts))"
    unfolding gs(2) by (subst sum.reindex [OF inj]) simp
  also have "\<dots> = length ts" by (rule sum_of_groups) simp_all
  finally show len: "sum_list (map (\<lambda>(k, g). length g) ?gs) = length ts" .
  have ne: "\<forall>(k, g) \<in> set ?gs. 1 \<le> length g"
    unfolding gs(2) by (auto simp: Suc_le_eq length_greater_0_conv filter_empty_conv simp del: length_greater_0_conv)
  have "(\<forall>(k, g) \<in> set xs. 1 \<le> length g) \<Longrightarrow> group_ticks xs \<le> 4 * sum_list (map (\<lambda>(k, g). length g) xs)"
    for xs :: "(string \<times> STransfer list) list"
    by (induction xs) auto
  from this [OF ne] show "group_ticks ?gs \<le> 4 * length ts" by (simp only: len)
  show "length ?gs = card (st_CorrespondentID ` set ts)"
    using distinct_card [OF d] card_image [OF inj] by (simp add: gs(2))
qed

text \<open>The result of a run: the new batches and what became of the transfers.\<close>

definition settles ::
  "day \<Rightarrow> transfer_row list \<Rightarrow> db \<Rightarrow> batch_row list \<Rightarrow> db \<Rightarrow> bool" where
  "settles cutoffDate rs d bs d' \<longleftrightarrow>
     settlement_batches d' = settlement_batches d @ bs \<and> same_other_tables d d' \<and>
     distinct (map b_id bs) \<and> b_id ` set bs \<inter> b_id ` set (settlement_batches d) = {} \<and>
     distinct (map b_correspondent_id bs) \<and> b_correspondent_id ` set bs = t_correspondent_id ` set rs \<and>
     (\<forall>b \<in> set bs. b_cutoff_date b = cutoffDate \<and> b_status b = PENDING \<and>
        b_record_count b = Some (length (filter (\<lambda>r. t_correspondent_id r = b_correspondent_id b) rs)) \<and>
        b_total_amount b = Some (Num (row_cents (filter (\<lambda>r. t_correspondent_id r = b_correspondent_id b) rs)))) \<and>
     (\<forall>r \<in> set rs. \<exists>b \<in> set bs. b_correspondent_id b = t_correspondent_id r \<and>
        (\<exists>r'. transfer_of d' (t_id r) = Some r' \<and> linked_row (Some (b_id b)) r r')) \<and>
     (\<forall>i. i \<notin> t_id ` set rs \<longrightarrow> transfer_of d' i = transfer_of d i)"

lemma scanSTransfer_simps [simp]:
  "st_ID (scanSTransfer r) = t_id r" "st_CorrespondentID (scanSTransfer r) = t_correspondent_id r"
  "st_Amount (scanSTransfer r) = numeric_float (t_amount r)"
  by (simp_all add: scanSTransfer_def)

lemma run_ListFundsPostedBefore:
  "fault_free e \<Longrightarrow> run (ListFundsPostedBefore cutoff) e w =
     (Done (Inr (map scanSTransfer (sort_key t_submitted_at (due cutoff (w_db w))))), (tick w)\<lparr>w_db := w_db w\<rparr>)"
  by (simp add: ListFundsPostedBefore_def ListFundsPostedBefore_stmt_def due_def run_simps)

lemma run_steps [run_simps]:
  "run CTLocation e w = (Done (zone_offset e), w)"
  "fault_free e \<Longrightarrow> run (MkdirAll p) e w = (Done None, tick w)"
  by (simp_all add: CTLocation_def MkdirAll_def run_atomic fault_free_def)

lemma filter_scan:
  "filter (\<lambda>t. st_CorrespondentID t = k) (map scanSTransfer xs) =
   map scanSTransfer (filter (\<lambda>r. t_correspondent_id r = k) xs)"
  by (simp add: filter_map o_def)

text \<open>The groups of the due transfers are good, with the cents of their rows.\<close>

definition group_cents :: "transfer_row list \<Rightarrow> uuid \<Rightarrow> int list" where
  "group_cents xs k = map (\<lambda>r. cents (t_amount r)) (filter (\<lambda>r. t_correspondent_id r = k) xs)"

lemma numeric_float_cents: "t_amount r \<noteq> NumNaN \<Longrightarrow> numeric_float (t_amount r) = of_cents (cents (t_amount r))"
  by (cases "t_amount r") auto

lemma numeric_pos_cents: "t_amount r \<noteq> NumNaN \<Longrightarrow> numeric_pos (t_amount r) \<Longrightarrow> 0 < cents (t_amount r)"
  by (cases "t_amount r") auto

lemma sum_list_filter_le:
  "list_all (\<lambda>x. (0 :: int) \<le> f x) xs \<Longrightarrow> sum_list (map f (filter P xs)) \<le> sum_list (map f xs)"
  by (induction xs) auto

lemma settleable_groups:
  assumes s: "settleable e w cutoff" and xs: "xs = sort_key t_submitted_at (due cutoff (w_db w))"
    and g: "(k, g) \<in> set (ranged rng (group_transfers (map scanSTransfer xs)))" "range_order rng"
  shows "good_group e (w_db w) k g (group_cents xs k)"
proof -
  let ?p = "\<lambda>r. t_correspondent_id r = k"
  have k: "k \<in> t_correspondent_id ` set (due cutoff (w_db w))" "g = map scanSTransfer (filter ?p xs)"
    using g by (auto simp: ranged_groups(2) filter_scan xs)
  have rows: "\<forall>r \<in> set xs. canonical e (t_id r) \<and> t_amount r \<noteq> NumNaN \<and> 0 < cents (t_amount r)"
    using s by (auto simp: settleable_def xs intro: numeric_pos_cents)
  have "sum_list (group_cents xs k) \<le> row_cents (due cutoff (w_db w))"
    using rows unfolding group_cents_def xs sum_list_filter_sort row_cents_def
    by (intro sum_list_filter_le) (auto simp: list_all_iff xs intro: less_imp_le)
  moreover have "length (group_cents xs k) \<le> length (due cutoff (w_db w))"
    by (simp add: group_cents_def xs length_filter_sort)
  moreover have "map st_Amount g = map of_cents (group_cents xs k)"
    using rows by (auto simp: k(2) group_cents_def numeric_float_cents)
  moreover have "list_all (\<lambda>t. canonical e (st_ID t)) g" "list_all (\<lambda>c. 0 < c) (group_cents xs k)"
    using rows by (auto simp: k(2) group_cents_def list_all_iff)
  moreover have "canonical e k" "8 \<le> length k" "row_of c_id k (correspondents (w_db w)) \<noteq> None"
    using s k(1) by (auto simp: settleable_def)
  ultimately show ?thesis using s by (simp add: good_group_def settleable_def)
qed

lemma list_all2_in: "list_all2 P xs ys \<Longrightarrow> y \<in> set ys \<Longrightarrow> \<exists>x \<in> set xs. P x y"
  by (induction rule: list_all2_induct) auto

lemma ranged_group_set:
  assumes "xs = sort_key t_submitted_at rs" "range_order rng" "gs = ranged rng (group_transfers (map scanSTransfer xs))"
  shows "set gs = (\<lambda>k. (k, map scanSTransfer (filter (\<lambda>r. t_correspondent_id r = k) xs))) ` t_correspondent_id ` set rs"
    and "distinct (map fst gs)"
  unfolding assms(3)
  by (simp add: ranged_groups(2) [OF assms(2)] filter_scan assms(1) image_image) (rule ranged_groups(1) [OF assms(2)])

text \<open>The batch of a group has the count and the total of the rows of its correspondent.\<close>

lemma group_batch_row:
  assumes xs: "xs = sort_key t_submitted_at rs"
    and gs: "set gs = (\<lambda>k. (k, map scanSTransfer (filter (\<lambda>r. t_correspondent_id r = k) xs))) ` t_correspondent_id ` set rs"
    and "list_all2 (\<lambda>(k, g) b. group_batch e cutoffDate k g (group_cents xs k) b) gs bs" "b \<in> set bs"
  shows "b_cutoff_date b = cutoffDate \<and> b_status b = PENDING \<and>
    b_record_count b = Some (length (filter (\<lambda>r. t_correspondent_id r = b_correspondent_id b) rs)) \<and>
    b_total_amount b = Some (Num (row_cents (filter (\<lambda>r. t_correspondent_id r = b_correspondent_id b) rs)))"
proof -
  obtain k g where "(k, g) \<in> set gs" and kb: "group_batch e cutoffDate k g (group_cents xs k) b"
    using list_all2_in [OF assms(3,4)] by auto
  then have g: "length g = length (filter (\<lambda>r. t_correspondent_id r = k) rs)"
    by (auto simp: gs xs length_filter_sort)
  show ?thesis
    using kb g by (auto simp: group_batch_def group_cents_def xs sum_list_filter_sort row_cents_def)
qed

text \<open>Every row is linked to the batch of its correspondent.\<close>

lemma linked_by_group:
  assumes xs: "xs = sort_key t_submitted_at rs"
    and gs: "set gs = (\<lambda>k. (k, map scanSTransfer (filter (\<lambda>r. t_correspondent_id r = k) xs))) ` t_correspondent_id ` set rs"
      "distinct (map fst gs)"
    and ids: "distinct (map t_id (transfers d))" and rs: "set rs \<subseteq> set (transfers d)"
    and bs: "list_all2 (\<lambda>(k, g) b. group_batch e cutoffDate k g (group_cents xs k) b) gs bs"
      "batch_link (links gs bs) d d'"
    and r: "r \<in> set rs"
  shows "\<exists>b \<in> set bs. b_correspondent_id b = t_correspondent_id r \<and>
    (\<exists>r'. transfer_of d' (t_id r) = Some r' \<and> linked_row (Some (b_id b)) r r')"
proof -
  let ?k = "t_correspondent_id r"
  let ?g = "map scanSTransfer (filter (\<lambda>r. t_correspondent_id r = ?k) xs)"
  have same_id: "r = r'" if "r' \<in> set rs" "t_id r = t_id r'" for r'
    using ids rs r that by (auto simp: distinct_map dest: inj_onD)
  have "(?k, ?g) \<in> set gs" "t_id r \<in> st_ID ` set ?g" using r by (auto simp: gs(1) xs image_image)
  moreover have "k' = ?k" if "(k', g') \<in> set gs" "t_id r \<in> st_ID ` set g'" for k' g'
    using that same_id by (auto simp: gs(1) xs)
  ultimately obtain b where b: "b \<in> set bs" "group_batch e cutoffDate ?k ?g (group_cents xs ?k) b"
    "links gs bs (t_id r) = Some (b_id b)"
    using links_Some [OF bs(1) _ _ gs(2), of ?k ?g "t_id r"] unfolding prod.case by blast
  have "transfer_of d (t_id r) = Some r" using r rs ids by (auto intro: row_of_distinct)
  then obtain r' where "transfer_of d' (t_id r) = Some r'" "linked_row (links gs bs (t_id r)) r r'"
    using batch_linkD(2) [OF bs(2)] by blast
  moreover have "b_correspondent_id b = ?k" using b(2) by (simp add: group_batch_def)
  ultimately show ?thesis unfolding b(3) using b(1) by blast
qed

text \<open>What the loop leaves is what \<open>settles\<close> states.\<close>

lemma settles_groups:
  assumes xs: "xs = sort_key t_submitted_at rs" and rng: "range_order rng"
    and gs: "gs = ranged rng (group_transfers (map scanSTransfer xs))"
    and ids: "distinct (map t_id (transfers d))" and rs: "set rs \<subseteq> set (transfers d)"
    and bs: "settlement_batches d' = settlement_batches d @ bs"
      "list_all2 (\<lambda>(k, g) b. group_batch e cutoffDate k g (group_cents xs k) b) gs bs"
      "batch_link (links gs bs) d d'" "distinct (map b_id bs)"
      "b_id ` set bs \<inter> b_id ` set (settlement_batches d) = {}"
  shows "settles cutoffDate rs d bs d'"
proof -
  note set_gs = ranged_group_set(1) [OF xs rng gs] and keys = ranged_group_set(2) [OF xs rng gs]
  have "list_all2 (\<lambda>(k, g) b. group_batch e cutoffDate k g (f k) b) gs' bs' \<Longrightarrow>
      map b_correspondent_id bs' = map fst gs'" for f gs' bs'
    by (induction gs' bs' rule: list_all2_induct) (auto simp: group_batch_def)
  then have keys': "map b_correspondent_id bs = map fst gs" using bs(2) by blast
  then have "b_correspondent_id ` set bs = fst ` set gs" by (metis set_map)
  with keys keys' have corr: "distinct (map b_correspondent_id bs)"
    "b_correspondent_id ` set bs = t_correspondent_id ` set rs"
    by (simp_all add: set_gs image_image)
  have "transfer_of d' i = transfer_of d i" if i: "i \<notin> t_id ` set rs" for i
  proof -
    have "links gs bs i = None" using i by (intro links_None) (auto simp: set_gs xs)
    then show ?thesis
      using batch_linkD [OF bs(3), of i] by (cases "transfer_of d i") (auto simp: linked_row_def)
  qed
  moreover have "same_other_tables d d'" using bs(3) by (simp add: batch_link_def)
  ultimately show ?thesis
    using bs(1,4,5) corr group_batch_row [OF xs set_gs bs(2)] linked_by_group [OF xs set_gs keys ids rs bs(2,3)]
    by (simp add: settles_def)
qed

text \<open>The groups of the due transfers, settled one after the other.\<close>

lemma settle_due_groups:
  assumes e: "fault_free e" "shortest_reads_back e" "range_order rng" and s: "settleable e w cutoff"
    and rs: "rs = due cutoff (w_db w)" and xs: "xs = sort_key t_submitted_at rs"
    and gs: "gs = ranged rng (group_transfers (map scanSTransfer xs))"
    and w1: "w_db w1 = w_db w" "w_ticks w1 = w_ticks w + 2"
  shows "\<exists>res w' bs. run (settle_groups (settlementEngine rng) dir day gs (empty_result c)) e w1 = (Done (Inr res), w') \<and>
    settles day rs (w_db w) bs (w_db w') \<and> tg_BatchCount res = length bs \<and> tg_TotalChecks res = length rs"
proof -
  have len: "length xs = length rs" by (simp add: xs)
  have "group_ticks gs \<le> 4 * length rs"
    using ranged_lengths(2) [OF e(3), of "map scanSTransfer xs"] by (simp add: gs len)
  then have "{w_ticks w1..<w_ticks w1 + group_ticks gs} \<subseteq> {w_ticks w..<w_ticks w + (2 + 4 * length rs)}"
    by (auto simp: w1)
  moreover have "fresh_batches e w (2 + 4 * length rs)" using s by (simp add: settleable_def rs)
  ultimately have fresh: "fresh_batches e w1 (group_ticks gs)"
    unfolding fresh_batches_def w1(1) by (blast intro: inj_on_subset)
  have good: "\<forall>k g. (k, g) \<in> set gs \<longrightarrow> good_group e (w_db w1) k g (group_cents xs k)"
    using settleable_groups [OF s xs [unfolded rs] _ e(3)] by (simp add: gs w1)
  obtain res w' bs where
    run: "run (settle_groups (settlementEngine rng) dir day gs (empty_result c)) e w1 = (Done (Inr res), w')"
    and bs: "settlement_batches (w_db w') = settlement_batches (w_db w1) @ bs"
      "list_all2 (\<lambda>(k, g) b. group_batch e day k g (group_cents xs k) b) gs bs"
      "batch_link (links gs bs) (w_db w1) (w_db w')" "distinct (map b_id bs)"
    and new: "b_id ` set bs \<subseteq> fresh_uuid e ` {w_ticks w1..<w_ticks w1 + group_ticks gs}"
    and counts: "tg_BatchCount res = tg_BatchCount (empty_result c) + length gs"
      "tg_TotalChecks res = tg_TotalChecks (empty_result c) + sum_list (map (\<lambda>(k, g). length g) gs)"
    using settle_groups_settle [OF e(1,2) good fresh, where rng = rng and dir = dir and cutoffDate = day
        and res = "empty_result c"]
    by (elim exE conjE) (rule that)
  have "fresh_uuid e ` {w_ticks w1..<w_ticks w1 + group_ticks gs} \<inter> b_id ` set (settlement_batches (w_db w)) = {}"
    using fresh unfolding fresh_batches_def w1(1) by blast
  with new have "b_id ` set bs \<inter> b_id ` set (settlement_batches (w_db w)) = {}" by blast
  moreover have "distinct (map t_id (transfers (w_db w)))" "set rs \<subseteq> set (transfers (w_db w))"
    using s by (auto simp: settleable_def rs due_def)
  ultimately have "settles day rs (w_db w) bs (w_db w')"
    by (intro settles_groups [OF xs e(3) gs _ _ bs [unfolded w1(1)]])
  moreover have "tg_BatchCount res = length bs" "tg_TotalChecks res = length rs"
    using counts list_all2_lengthD [OF bs(2)] ranged_lengths(1) [OF e(3), of "map scanSTransfer xs"]
    by (simp_all add: gs empty_result_def len)
  ultimately show ?thesis using run by blast
qed

lemma Trigger_settles:
  assumes e: "fault_free e" "shortest_reads_back e" "range_order rng"
    and s: "settleable e w (CutoffForDate (zone_offset e) now)"
  shows "\<exists>res w' bs. run (Trigger (settlementEngine rng) now) e w = (Done (Inr res), w') \<and>
    settles (local_day (zone_offset e) now) (due (CutoffForDate (zone_offset e) now) (w_db w)) (w_db w) bs (w_db w') \<and>
    tg_BatchCount res = length bs \<and> tg_TotalChecks res = length (due (CutoffForDate (zone_offset e) now) (w_db w))"
proof -
  let ?cutoff = "CutoffForDate (zone_offset e) now"
  let ?rs = "due ?cutoff (w_db w)"
  let ?xs = "map scanSTransfer (sort_key t_submitted_at ?rs)"
  let ?day = "local_day (zone_offset e) now"
  let ?w = "(tick w)\<lparr>w_db := w_db w\<rparr>"
  note list = run_ListFundsPostedBefore [OF e(1), of ?cutoff w]
  show ?thesis
  proof (cases "?rs = []")
    case True
    have "settles ?day ?rs (w_db w) [] (w_db w)" by (simp add: True settles_def same_other_tables_def)
    moreover have "run (Trigger (settlementEngine rng) now) e w = (Done (Inr (empty_result ?cutoff)), ?w)"
      using True by (simp add: Trigger_def Let_def run_bind run_steps list)
    ultimately show ?thesis
      using True by (intro exI [of _ "empty_result ?cutoff"] exI [of _ ?w] exI [of _ "[]"]) (simp add: empty_result_def)
  next
    case False
    then have "?xs \<noteq> []" by (metis map_is_Nil_conv set_empty set_sort)
    then have "run (Trigger (settlementEngine rng) now) e w =
        run (settle_groups (settlementEngine rng) ''data/settlement'' ?day (ranged rng (group_transfers ?xs))
          (empty_result ?cutoff)) e (tick ?w)"
      by (simp add: Trigger_def Let_def run_bind run_steps e(1) list)
    then show ?thesis
      using settle_due_groups [OF e s refl refl refl, of "tick ?w" "''data/settlement''" ?day ?cutoff] by simp
  qed
qed

section \<open>Acknowledgment\<close>

text \<open>What the acknowledgment makes of a transfer of the batch.\<close>

definition completed_row :: "uuid \<Rightarrow> instant \<Rightarrow> transfer_row \<Rightarrow> transfer_row \<Rightarrow> bool" where
  "completed_row b t r r' \<longleftrightarrow>
     (if t_state r = FundsPosted
      then \<exists>u. r' = r\<lparr>t_state := Completed, t_settlement_batch_id := Some b, t_settled_at := Some t, t_updated_at := u\<rparr>
      else r' = r)"

definition completes :: "uuid set \<Rightarrow> uuid \<Rightarrow> instant \<Rightarrow> db \<Rightarrow> db \<Rightarrow> bool" where
  "completes ids b t d d' \<longleftrightarrow>
     ledger_entries d' = ledger_entries d \<and> accounts d' = accounts d \<and> correspondents d' = correspondents d \<and>
     settlement_batches d' = settlement_batches d \<and>
     (\<forall>i. case transfer_of d i of
        None \<Rightarrow> transfer_of d' i = None
      | Some r \<Rightarrow> \<exists>r'. transfer_of d' i = Some r' \<and> (if i \<in> ids then completed_row b t r r' else r' = r))"

lemma completesD:
  assumes "completes ids b t d d'"
  shows "transfer_of d i = None \<Longrightarrow> transfer_of d' i = None"
    and "transfer_of d i = Some r \<Longrightarrow>
      \<exists>r'. transfer_of d' i = Some r' \<and> (if i \<in> ids then completed_row b t r r' else r' = r)"
  using assms [unfolded completes_def, THEN conjunct2, THEN conjunct2, THEN conjunct2, THEN conjunct2, THEN spec, of i]
  by simp_all

lemma completed_row_trans:
  "completed_row b t r r' \<Longrightarrow> completed_row b t r' r'' \<Longrightarrow> completed_row b t r r''"
proof (cases "t_state r = FundsPosted")
  case True
  assume *: "completed_row b t r r'" "completed_row b t r' r''"
  with True have "t_state r' \<noteq> FundsPosted" by (auto simp: completed_row_def)
  with * show ?thesis by (simp add: completed_row_def)
qed (simp add: completed_row_def)

lemma completes_refl: "completes {} b t d d"
  by (simp add: completes_def split: option.splits)

lemma completes_trans:
  assumes "completes A b t d d'" "completes B b t d' d''"
  shows "completes (A \<union> B) b t d d''"
proof -
  have "case transfer_of d i of
        None \<Rightarrow> transfer_of d'' i = None
      | Some r \<Rightarrow> \<exists>r'. transfer_of d'' i = Some r' \<and> (if i \<in> A \<union> B then completed_row b t r r' else r' = r)" for i
  proof (cases "transfer_of d i")
    case None
    then show ?thesis using completesD(1) [OF assms(2)] completesD(1) [OF assms(1)] by simp
  next
    case (Some r)
    then obtain r' where r': "transfer_of d' i = Some r'" "if i \<in> A then completed_row b t r r' else r' = r"
      using completesD(2) [OF assms(1)] by blast
    then obtain r'' where "transfer_of d'' i = Some r''" "if i \<in> B then completed_row b t r' r'' else r'' = r'"
      using completesD(2) [OF assms(2)] by blast
    with Some r'(2) completed_row_trans show ?thesis by (auto split: if_splits)
  qed
  with assms show ?thesis by (simp add: completes_def)
qed

text \<open>The log and the notices do not matter.\<close>

definition same_core :: "db \<Rightarrow> db \<Rightarrow> bool" where
  "same_core d d' \<longleftrightarrow> transfers d' = transfers d \<and> ledger_entries d' = ledger_entries d \<and> accounts d' = accounts d \<and>
     correspondents d' = correspondents d \<and> settlement_batches d' = settlement_batches d"

lemma same_core_refl [simp]: "same_core d d"
  by (simp add: same_core_def)

lemma same_core_trans: "same_core d d' \<Longrightarrow> same_core d' d'' \<Longrightarrow> same_core d d''"
  by (simp add: same_core_def)

lemma completes_core: "completes ids b t d d' \<Longrightarrow> same_core d' d'' \<Longrightarrow> completes ids b t d d''"
  unfolding completes_def same_core_def by (simp cong: option.case_cong)

lemma returns_log:
  assumes "fault_free e"
  shows "returns (WriteEvent i step actor payload) e w (\<lambda>_ w'. same_core (w_db w) (w_db w'))"
    and "returns (Notify i payload) e w (\<lambda>_ w'. same_core (w_db w) (w_db w'))"
  by (auto simp: WriteEvent_def WriteEvent_stmt_def Notify_def Notify_stmt_def returns_exec_sql [OF assms] with_uuid_def
      commit_simps same_core_def split: option.splits)

text \<open>A transfer of the batch, and all of them.\<close>

lemma settle_completes:
  assumes e: "fault_free e" "canonical e i" and b: "batch_of (w_db w) b \<noteq> None"
    and r: "transfer_of (w_db w) i = Some r" "t_state r = FundsPosted"
    and w': "same_core (upd_transfer i (\<lambda>r. r\<lparr>t_state := Completed, t_updated_at := c\<rparr>) (w_db w)) (w_db w')"
  shows "returns (SetSettlementBatch i b (Some t)) e w' (\<lambda>_ w''. completes {i} b t (w_db w) (w_db w''))"
proof -
  let ?f = "\<lambda>r. r\<lparr>t_settlement_batch_id := Some b, t_settled_at := Some t, t_updated_at := clock e (w_ticks w')\<rparr>"
  have "batch_of (w_db w') b \<noteq> None" using w' b by (simp add: same_core_def upd_transfer_def)
  then have "run (SetSettlementBatch i b (Some t)) e w' = (Done None, (tick w')\<lparr>w_db := upd_transfer i ?f (w_db w')\<rparr>)"
    using e by (simp add: SetSettlementBatch_def SetSettlementBatch_stmt_def set_transfer_stmt_def run_simps)
  moreover have "transfer_of (w_db w') j = (if j = i then Some (r\<lparr>t_state := Completed, t_updated_at := c\<rparr>)
      else transfer_of (w_db w) j)" for j
    using w' r transfer_of_upd_transfer [where f = "\<lambda>r. r\<lparr>t_state := Completed, t_updated_at := c\<rparr>"
      and i = i and d = "w_db w" and j = j]
    by (simp add: same_core_def)
  then have "transfer_of (upd_transfer i ?f (w_db w')) j =
      (if j = i then Some (?f (r\<lparr>t_state := Completed, t_updated_at := c\<rparr>)) else transfer_of (w_db w) j)" for j
    by (simp add: transfer_of_upd_transfer)
  then have "completes {i} b t (w_db w) (upd_transfer i ?f (w_db w'))"
    using w' r unfolding completes_def
    by (intro conjI allI) (auto simp: same_core_def upd_transfer_def completed_row_def split: option.split)
  ultimately show ?thesis by (simp add: returns_def)
qed

lemma complete_transfer_completes:
  assumes e: "fault_free e" "canonical e i" and b: "batch_of (w_db w) b \<noteq> None"
  shows "returns (complete_transfer (settlementEngine rng) b t i) e w (\<lambda>_ w'. completes {i} b t (w_db w) (w_db w'))"
proof (cases "\<exists>r. transfer_of (w_db w) i = Some r \<and> t_state r = FundsPosted")
  case False
  have "completes {i} b t (w_db w) (w_db w)"
    using False unfolding completes_def
    by (intro conjI allI refl) (auto simp: completed_row_def split: option.split)
  moreover obtain er where "run (UpdateState i FundsPosted Completed) e w = (Done (Some er), (tick w)\<lparr>w_db := w_db w\<rparr>)"
    using False by (cases "transfer_of (w_db w) i") (auto simp: run_UpdateState [OF e])
  ultimately show ?thesis by (simp add: complete_transfer_def returns_def run_bind)
next
  case True
  then obtain r where r: "transfer_of (w_db w) i = Some r" "t_state r = FundsPosted" by blast
  define d1 where "d1 = upd_transfer i (\<lambda>r. r\<lparr>t_state := Completed, t_updated_at := clock e (w_ticks w)\<rparr>) (w_db w)"
  have run: "run (UpdateState i FundsPosted Completed) e w = (Done None, (tick w)\<lparr>w_db := d1\<rparr>)"
    using r by (simp add: run_UpdateState [OF e] d1_def)
  note log = returns_log [OF e(1)]
  have "returns (ignoring (WriteEvent i ''state_changed'' ''system''
             [(''from_state'', JStr ''FundsPosted''), (''to_state'', JStr ''Completed'')])
         (ignoring (WriteEvent i ''settlement_completed'' ''settlement_engine''
             [(''batch_id'', JStr b), (''acknowledged_at'', JTime t)])
         (ignoring (SetSettlementBatch i b (Some t))
         (ignoring (Notify i
             [(''transfer_id'', JStr i), (''from_state'', JStr ''FundsPosted''), (''to_state'', JStr ''Completed'')])
           (Ret ()))))) e ((tick w)\<lparr>w_db := d1\<rparr>) (\<lambda>_ w'. completes {i} b t (w_db w) (w_db w'))"
  proof (rule returns_ignoringI [OF log(1)], rule returns_ignoringI [OF log(1)], goal_cases)
    case (1 w1 w2)
    then have "same_core d1 (w_db w2)" by (auto intro: same_core_trans)
    then show ?case
      unfolding d1_def
      by (intro returns_ignoringI [OF settle_completes [OF e b r]] returns_ignoringI [OF log(2)])
         (auto intro: completes_core)
  qed
  then show ?thesis
    unfolding complete_transfer_def settlementEngine_simps notify_best_effort_def option.case
      returns_bind [of "UpdateState _ _ _"]
    by (subst returns_def) (simp add: run)
qed

lemma complete_transfers_completes:
  assumes e: "fault_free e" and "list_all (canonical e) ids" "batch_of (w_db w) b \<noteq> None"
  shows "returns (complete_transfers (settlementEngine rng) b t ids) e w
    (\<lambda>_ w'. completes (set ids) b t (w_db w) (w_db w'))"
  using assms(2,3)
proof (induction ids arbitrary: w)
  case Nil
  then show ?case by (simp add: completes_refl)
next
  case (Cons i ids)
  have i: "canonical e i" and ids: "list_all (canonical e) ids" using Cons.prems(1) by simp_all
  show ?case
    unfolding complete_transfers.simps
  proof (rule returns_bindI [OF complete_transfer_completes [OF e i Cons.prems(2)]], goal_cases)
    case (1 u w1)
    then have "batch_of (w_db w1) b \<noteq> None" using Cons.prems(2) by (simp add: completes_def)
    from Cons.IH [OF ids this] show ?case
      by (rule returns_mono) (use completes_trans [OF 1] in simp)
  qed
qed

lemma AcknowledgeBatch_completes:
  assumes e: "fault_free e" and b: "batch_of (w_db w) b = Some br" "b_status br \<noteq> ACKNOWLEDGED"
    and ids: "\<And>r. r \<in> set (transfers (w_db w)) \<Longrightarrow> t_settlement_batch_id r = Some b \<Longrightarrow> canonical e (t_id r)"
  shows "returns (AcknowledgeBatch (settlementEngine rng) b t) e w (\<lambda>err w'. err = None \<and>
     completes {i. \<exists>r \<in> set (transfers (w_db w)). t_settlement_batch_id r = Some b \<and> t_id r = i} b t
       ((w_db w)\<lparr>settlement_batches := upd_row b_id b (\<lambda>x. x\<lparr>b_status := ACKNOWLEDGED, b_acknowledged_at := Some t\<rparr>)
          (settlement_batches (w_db w))\<rparr>) (w_db w'))"
proof -
  define ids where "ids = map t_id (sort_key t_submitted_at
     (filter (\<lambda>r. t_settlement_batch_id r = Some b) (transfers (w_db w))))"
  have set_ids: "set ids = {i. \<exists>r \<in> set (transfers (w_db w)). t_settlement_batch_id r = Some b \<and> t_id r = i}"
    by (auto simp: ids_def)
  have can: "list_all (canonical e) ids" using ids by (auto simp: list_all_iff ids_def)
  have key: "b_id br = b" using row_of_key [OF b(1)] .
  define w1 where "w1 = tick ((tick w)\<lparr>w_db := w_db w\<rparr>)"
  have load: "run (GetBatch b) e w = (Done (Inr ((scanBatch br)\<lparr>ba_TransferIDs := ids\<rparr>)), w1\<lparr>w_db := w_db w\<rparr>)"
    by (simp add: GetBatch_def transferIDsForBatch_def run_simps e b(1) key ids_def w1_def)
  let ?d = "(w_db w)\<lparr>settlement_batches := upd_row b_id b (\<lambda>x. x\<lparr>b_status := ACKNOWLEDGED, b_acknowledged_at := Some t\<rparr>)
      (settlement_batches (w_db w))\<rparr>"
  have upd: "run (UpdateBatchStatus b ACKNOWLEDGED (Some t)) e (w1\<lparr>w_db := w_db w\<rparr>) = (Done None, (tick w1)\<lparr>w_db := ?d\<rparr>)"
    by (simp add: UpdateBatchStatus_def UpdateBatchStatus_stmt_def run_simps e tick_def)
  have "batch_of (w_db ((tick w1)\<lparr>w_db := ?d\<rparr>)) b \<noteq> None" using b(1) by (simp add: row_of_upd_row)
  from complete_transfers_completes [OF e can this] have "returns (complete_transfers (settlementEngine rng) b t ids) e ((tick w1)\<lparr>w_db := ?d\<rparr>)
      (\<lambda>_ w'. completes (set ids) b t ?d (w_db w'))"
    by simp
  then show ?thesis
    unfolding set_ids [symmetric]
    using b(2)
    by (simp add: AcknowledgeBatch_def returns_def run_bind load upd scanBatch_def split: prod.splits outcome.splits)
qed

end
