(* ===== verification/SettlementProperties.thy ===== *)
theory SettlementProperties
  imports Example SettlementSpec
begin

text \<open>
  The properties of the settlement: the calendar and its cutoffs, the batches of a run, and the
  acknowledgment of a batch.
\<close>

section \<open>The calendar\<close>

text \<open>C20. The loop of \<open>NextBusinessDay\<close> ends for every instant, at most nine days later: it returns the
  midnight in Central Time of the first later day that is neither a weekend nor a holiday.\<close>

theorem next_business_day_is_found:
  assumes "chicago off"
  shows "\<exists>m. NextBusinessDay off t = Some (go_Date off m 0) \<and> local_day off t < m \<and> m \<le> local_day off t + 9 \<and>
    business_day m \<and> (\<forall>j. local_day off t < j \<longrightarrow> j < m \<longrightarrow> \<not> business_day j) \<and>
    t < go_Date off m 0 \<and> local_day off (go_Date off m 0) = m"
proof -
  obtain m where m: "NextBusinessDay off t = Some (go_Date off m 0)" "next_business (local_day off t + 1) m"
    using assms by (rule NextBusinessDay_day)
  obtain k where k: "k \<le> 8" "business_day (local_day off t + 1 + int k)" by (rule business_day_within)
  have later: "local_day off t < m" using m(2) by (simp add: next_business_def)
  moreover have "m \<le> local_day off t + 9"
  proof (rule ccontr)
    assume "\<not> m \<le> local_day off t + 9"
    then have "local_day off t + 1 + int k < m" using k(1) by simp
    with m(2) k(2) show False by (simp add: next_business_def)
  qed
  moreover have "t < go_Date off m 0" using later by (intro go_Date_less [OF assms]) simp_all
  ultimately show ?thesis
    using m local_day_go_Date [OF assms, of 0 m] by (auto simp: next_business_def)
qed

theorem next_business_day_is_found_witness:
  "\<exists>m. NextBusinessDay ct_2026 0 = Some (go_Date ct_2026 m 0) \<and> m \<le> local_day ct_2026 0 + 9"
  using next_business_day_is_found [OF chicago_ct_2026] by blast

text \<open>C21. A deposit belongs to the settlement of its own day when it is submitted on a business day strictly
  before 18:30 Central Time, and otherwise to that of the first later business day; the day is always a
  business day and no business day in between is skipped.\<close>

theorem batch_day_of_deposit:
  assumes "chicago off"
  shows "\<exists>m. BatchCutoffDate off t = Some (go_Date off m 0) \<and> business_day m \<and>
    (if local_sec off t < local_day off t * 86400 + cutoff_second \<and> business_day (local_day off t)
     then m = local_day off t
     else local_day off t < m \<and> (\<forall>j. local_day off t < j \<longrightarrow> j < m \<longrightarrow> \<not> business_day j))"
proof -
  obtain m where m: "BatchCutoffDate off t = Some (go_Date off m 0)" "next_business (first_day off t) m"
    using assms by (rule BatchCutoffDate_day)
  show ?thesis
  proof (cases "local_sec off t < local_day off t * 86400 + cutoff_second")
    case True
    then have "first_day off t = local_day off t" by (simp add: first_day_def)
    with m True show ?thesis by (auto simp: next_business_def order.order_iff_strict)
  next
    case False
    then have "first_day off t = local_day off t + 1" by (simp add: first_day_def)
    with m False show ?thesis by (auto simp: next_business_def)
  qed
qed

theorem batch_day_of_deposit_witness:
  "\<exists>m. BatchCutoffDate ct_2026 0 = Some (go_Date ct_2026 m 0) \<and> business_day m"
  using batch_day_of_deposit [OF chicago_ct_2026] by blast

text \<open>C22. A later deposit never belongs to an earlier settlement: \<open>BatchCutoffDate\<close> is monotone, also
  across the changes of daylight saving time.\<close>

theorem batch_days_in_order:
  assumes "chicago off" "t \<le> t'"
  shows "\<exists>c c'. BatchCutoffDate off t = Some c \<and> BatchCutoffDate off t' = Some c' \<and> c \<le> c'"
proof -
  obtain m where m: "BatchCutoffDate off t = Some (go_Date off m 0)" "next_business (first_day off t) m"
    using assms(1) by (rule BatchCutoffDate_day)
  obtain m' where m': "BatchCutoffDate off t' = Some (go_Date off m' 0)" "next_business (first_day off t') m'"
    using assms(1) by (rule BatchCutoffDate_day)
  have "m \<le> m'" using next_business_mono [OF m(2) m'(2) first_day_mono [OF assms]] .
  then have "go_Date off m 0 \<le> go_Date off m' 0"
    using go_Date_less [OF assms(1), of "go_Date off m 0" m' 0] local_day_go_Date [OF assms(1), of 0 m]
    by (cases "m = m'") auto
  with m m' show ?thesis by blast
qed

theorem batch_days_in_order_witness:
  "\<exists>c c'. BatchCutoffDate ct_2026 0 = Some c \<and> BatchCutoffDate ct_2026 (10 ^ 18) = Some c' \<and> c \<le> c'"
  using batch_days_in_order [OF chicago_ct_2026, of 0 "10 ^ 18"] by simp

text \<open>The cutoff that \<open>CurrentCutoff\<close> announces is always in the future, at 18:30 Central Time of today
  or of the next business day.\<close>

lemma current_cutoff_is_next:
  assumes "chicago off"
  shows "\<exists>m. CurrentCutoff off now = Some (go_Date off m cutoff_second) \<and> now < go_Date off m cutoff_second \<and>
    local_sec off (go_Date off m cutoff_second) = m * 86400 + cutoff_second \<and>
    (if local_sec off now < local_day off now * 86400 + cutoff_second then m = local_day off now
     else next_business (local_day off now + 1) m)"
proof -
  have c: "cutoff_second = 0 \<or> 10800 \<le> cutoff_second \<and> cutoff_second < 86400" by (simp add: cutoff_second_def)
  note cut = local_sec_go_Date [OF assms c]
  show ?thesis
  proof (cases "now < CutoffForDate off now")
    case True
    then show ?thesis using before_cutoff [OF assms, of now] cut by (simp add: CurrentCutoff_def CutoffForDate_def)
  next
    case False
    obtain m where m: "NextBusinessDay off now = Some (go_Date off m 0)" "next_business (local_day off now + 1) m"
      using assms by (rule NextBusinessDay_day)
    then have "local_day off now < m" by (simp add: next_business_def)
    then have "now < go_Date off m cutoff_second" by (rule go_Date_less [OF assms _ c])
    with False m show ?thesis
      using before_cutoff [OF assms, of now] cut local_day_go_Date [OF assms, of 0 m]
      by (intro exI [of _ m]) (simp add: CurrentCutoff_def CutoffForDate_def)
  qed
qed

section \<open>The batches of a run\<close>

text \<open>Two deposits of 1 July 2026, and the run at noon of that day.\<close>

definition demo_now :: instant where
  "demo_now = (20635 * 86400 + 61200) * 10 ^ 9"

abbreviation demo_due :: world where
  "demo_due \<equiv> demo_world [demo_transfer check1 FundsPosted, demo_transfer check2 FundsPosted] []"

lemma demo_cutoff: "CutoffForDate ct_2026 demo_now = (20635 * 86400 + 84600) * 10 ^ 9"
  by (simp add: CutoffForDate_def go_Date_def local_day_def local_sec_def demo_now_def ns_def ct_2026_def
      zone_unix_def cutoff_second_def)

lemma demo_due_rows:
  "due (CutoffForDate ct_2026 demo_now) (w_db demo_due) =
     [demo_transfer check1 FundsPosted, demo_transfer check2 FundsPosted]"
  unfolding demo_cutoff by (simp add: due_def demo_transfer_def)

lemma demo_uuid_eq: "m < 100 \<Longrightarrow> n < 100 \<Longrightarrow> demo_uuid m = demo_uuid n \<longleftrightarrow> m = n"
  by (simp add: demo_uuid_def two_digits_inject)

lemma demo_fresh_batches: "k \<le> 100 \<Longrightarrow> w_ticks w = 0 \<Longrightarrow>
    list_all (\<lambda>b. \<forall>n. demo_uuid n \<noteq> b_id b) (settlement_batches (w_db w)) \<Longrightarrow> fresh_batches demo_env w k"
  by (auto simp: fresh_batches_def inj_on_def demo_uuid_eq list_all_iff)

lemma demo_settleable: "settleable demo_env demo_due (CutoffForDate ct_2026 demo_now)"
proof -
  have "row_of c_id alpha seed_correspondents \<noteq> None" by (simp add: seed_correspondents_def db_simps)
  then show ?thesis
    using demo_fresh_batches [of 10 demo_due]
    by (simp add: settleable_def demo_due_rows demo_canonical row_cents_def)
qed

lemma demo_range_order: "range_order (\<lambda>ks. ks)"
  by (simp add: range_order_def)

text \<open>C23. A settlement run makes one batch for each correspondent that has FundsPosted transfers submitted
  before the cutoff, in whatever order Go ranges over its map: the batch holds the exact number of these
  transfers and the exact sum of their cents, every one of them is linked to the batch of its own
  correspondent and stays FundsPosted, and no other transfer, ledger entry or account changes.\<close>

theorem settlement_run_is_complete:
  assumes "fault_free e" "shortest_reads_back e" "range_order rng"
    and "settleable e w (CutoffForDate (zone_offset e) now)"
  shows "\<exists>res w' bs. run (Trigger (settlementEngine rng) now) e w = (Done (Inr res), w') \<and>
    settles (local_day (zone_offset e) now) (due (CutoffForDate (zone_offset e) now) (w_db w)) (w_db w) bs (w_db w') \<and>
    tg_BatchCount res = card (t_correspondent_id ` set (due (CutoffForDate (zone_offset e) now) (w_db w))) \<and>
    tg_TotalChecks res = length (due (CutoffForDate (zone_offset e) now) (w_db w))"
proof -
  obtain res w' bs where run: "run (Trigger (settlementEngine rng) now) e w = (Done (Inr res), w')"
    "settles (local_day (zone_offset e) now) (due (CutoffForDate (zone_offset e) now) (w_db w)) (w_db w) bs (w_db w')"
    "tg_BatchCount res = length bs" "tg_TotalChecks res = length (due (CutoffForDate (zone_offset e) now) (w_db w))"
    using Trigger_settles [OF assms] by blast
  moreover from run(2) have "length bs =
      card (t_correspondent_id ` set (due (CutoffForDate (zone_offset e) now) (w_db w)))"
    unfolding settles_def by (metis distinct_card length_map list.set_map)
  ultimately show ?thesis by auto
qed

theorem settlement_run_is_complete_witness:
  "\<exists>res w' b. run (Trigger (settlementEngine (\<lambda>ks. ks)) demo_now) demo_env demo_due = (Done (Inr res), w') \<and>
    settlement_batches (w_db w') = [b] \<and> b_correspondent_id b = alpha \<and> b_record_count b = Some 2 \<and>
    b_total_amount b = Some (Num 20000)"
proof -
  obtain res w' bs where run: "run (Trigger (settlementEngine (\<lambda>ks. ks)) demo_now) demo_env demo_due = (Done (Inr res), w')"
    and bs: "settles (local_day ct_2026 demo_now) [demo_transfer check1 FundsPosted, demo_transfer check2 FundsPosted]
      (w_db demo_due) bs (w_db w')"
    using settlement_run_is_complete [OF demo_fault_free demo_shortest_reads_back demo_range_order,
        of demo_due demo_now] demo_settleable
    by (auto simp: demo_due_rows)
  then have "distinct (map b_correspondent_id bs)" "b_correspondent_id ` set bs = {alpha}"
    by (simp_all add: settles_def)
  then obtain b where "bs = [b]"
    by (cases bs; cases "tl bs") auto
  with run bs show ?thesis by (auto simp: settles_def row_cents_def)
qed

text \<open>C24. Being in a batch does not take a transfer out of the next run: a FundsPosted transfer that is
  already linked to a batch is put into a new one, while the old batch keeps its count and its total; so a
  second run before the bank's acknowledgment sends every check to the bank twice.\<close>

theorem batched_transfers_are_batched_again:
  assumes "fault_free e" "shortest_reads_back e" "range_order rng"
    and "settleable e w (CutoffForDate (zone_offset e) now)"
    and "r \<in> set (due (CutoffForDate (zone_offset e) now) (w_db w))"
    and "t_settlement_batch_id r = Some (b_id old)" "old \<in> set (settlement_batches (w_db w))"
  shows "\<exists>res w' b r'. run (Trigger (settlementEngine rng) now) e w = (Done (Inr res), w') \<and>
    old \<in> set (settlement_batches (w_db w')) \<and> b \<in> set (settlement_batches (w_db w')) \<and> b_id b \<noteq> b_id old \<and>
    transfer_of (w_db w') (t_id r) = Some r' \<and> t_settlement_batch_id r' = Some (b_id b) \<and> t_state r' = FundsPosted"
proof -
  obtain res w' bs where run: "run (Trigger (settlementEngine rng) now) e w = (Done (Inr res), w')"
    and bs: "settles (local_day (zone_offset e) now) (due (CutoffForDate (zone_offset e) now) (w_db w)) (w_db w) bs (w_db w')"
    using Trigger_settles [OF assms(1-4)] by blast
  obtain b r' where b: "b \<in> set bs" "transfer_of (w_db w') (t_id r) = Some r'" "linked_row (Some (b_id b)) r r'"
    using bs assms(5) unfolding settles_def by blast
  have "b_id b \<noteq> b_id old" using bs b(1) assms(7) unfolding settles_def by blast
  moreover have "old \<in> set (settlement_batches (w_db w'))" "b \<in> set (settlement_batches (w_db w'))"
    using bs b(1) assms(7) by (simp_all add: settles_def)
  moreover have "t_settlement_batch_id r' = Some (b_id b)" "t_state r' = FundsPosted"
    using b(3) assms(5) by (auto simp: linked_row_def due_def)
  ultimately show ?thesis using run b(2) by blast
qed

definition demo_batch :: "batch_status \<Rightarrow> batch_row" where
  "demo_batch s =
     \<lparr>b_id = ''b0000000-0000-0000-0000-000000000001'', b_correspondent_id = alpha, b_cutoff_date = 20634,
      b_status = s, b_file_ref = None, b_record_count = Some 1, b_total_amount = Some (Num 10000),
      b_submitted_at = None, b_acknowledged_at = None, b_created_at = 0\<rparr>"

lemma demo_batch_simps [simp]:
  "b_id (demo_batch s) = ''b0000000-0000-0000-0000-000000000001''" "b_status (demo_batch s) = s"
  by (simp_all add: demo_batch_def)

text \<open>A transfer in a batch, and the world that holds both.\<close>

definition demo_batched :: "TransferState \<Rightarrow> transfer_row" where
  "demo_batched s = (demo_transfer check1 s)\<lparr>t_settlement_batch_id := Some (b_id (demo_batch PENDING))\<rparr>"

definition batched_world :: "TransferState \<Rightarrow> world" where
  "batched_world s = (demo_world [demo_batched s] (demo_credit check1))\<lparr>w_db :=
     (w_db (demo_world [demo_batched s] (demo_credit check1)))\<lparr>settlement_batches := [demo_batch PENDING]\<rparr>\<rparr>"

lemma batched_world_simps [simp]:
  "transfers (w_db (batched_world s)) = [demo_batched s]" "settlement_batches (w_db (batched_world s)) = [demo_batch PENDING]"
  "correspondents (w_db (batched_world s)) = seed_correspondents" "w_ticks (batched_world s) = 0"
  "t_id (demo_batched s) = check1" "t_state (demo_batched s) = s" "t_amount (demo_batched s) = Num 10000"
  "t_correspondent_id (demo_batched s) = alpha"
  "t_settlement_batch_id (demo_batched s) = Some ''b0000000-0000-0000-0000-000000000001''"
  by (simp_all add: batched_world_def demo_batched_def)

lemma batched_world_due: "due (CutoffForDate ct_2026 demo_now) (w_db (batched_world FundsPosted)) = [demo_batched FundsPosted]"
  unfolding demo_cutoff by (simp add: due_def) (simp add: demo_batched_def demo_transfer_def)

lemma batched_world_settleable: "settleable demo_env (batched_world FundsPosted) (CutoffForDate ct_2026 demo_now)"
proof -
  have "row_of c_id alpha seed_correspondents \<noteq> None" by (simp add: seed_correspondents_def db_simps)
  moreover have "fresh_batches demo_env (batched_world FundsPosted) 6"
    by (rule demo_fresh_batches) (simp_all add: demo_uuid_def)
  ultimately show ?thesis
    by (simp add: settleable_def batched_world_due demo_canonical row_cents_def)
qed

theorem batched_transfers_are_batched_again_witness:
  "\<exists>res w' b r'. run (Trigger (settlementEngine (\<lambda>ks. ks)) demo_now) demo_env (batched_world FundsPosted) =
      (Done (Inr res), w') \<and>
    demo_batch PENDING \<in> set (settlement_batches (w_db w')) \<and> b \<in> set (settlement_batches (w_db w')) \<and>
    b_id b \<noteq> b_id (demo_batch PENDING) \<and> transfer_of (w_db w') check1 = Some r' \<and>
    t_settlement_batch_id r' = Some (b_id b)"
  using batched_transfers_are_batched_again [OF demo_fault_free demo_shortest_reads_back demo_range_order,
      of "batched_world FundsPosted" demo_now "demo_batched FundsPosted" "demo_batch PENDING"]
    batched_world_settleable
  by (auto simp: batched_world_due)

section \<open>Settlement files\<close>

text \<open>C25. The name of a settlement file has only the first eight characters of the correspondent's id: for
  two correspondents that share them, as the two of the seed data do, the second group of a run overwrites
  the file of the first, and the first batch's file reference then names the other correspondent's checks.\<close>

theorem settlement_files_collide:
  assumes "fault_free e" "shortest_reads_back e"
    and "good_group e (w_db w) corr1 ts1 cs1" "good_group e (w_db w) corr2 ts2 cs2" "take 8 corr1 = take 8 corr2"
    and "fresh_batches e w (group_ticks [(corr1, ts1), (corr2, ts2)])"
  shows "\<exists>s1 w1 s2 w2 now. run (settle_group (settlementEngine rng) dir day corr1 ts1) e w = (Done (Inr s1), w1) \<and>
    run (settle_group (settlementEngine rng) dir day corr2 ts2) e w1 = (Done (Inr s2), w2) \<and>
    bs_FileRef s1 = bs_FileRef s2 \<and>
    map_of (w_files w2) (bs_FileRef s1) = Some (JsonFile (settlement_file corr2 day ts2 now))"
proof -
  have new: "batch_of (w_db w) (fresh_uuid e (w_ticks w + 2)) = None"
    using assms(6) by (auto simp: fresh_batches_def row_of_None_iff)
  obtain s1 w1 b where s1: "run (settle_group (settlementEngine rng) dir day corr1 ts1) e w = (Done (Inr s1), w1)"
    "bs_FileRef s1 = file_path dir corr1 day" "w_ticks w1 = w_ticks w + 3 + length ts1"
    "settlement_batches (w_db w1) = settlement_batches (w_db w) @ [b]" "b_id b = fresh_uuid e (w_ticks w + 2)"
    "batch_link (to_batch (b_id b) ts1) (w_db w) (w_db w1)"
    using settle_group_settles [OF assms(1-3) new] by blast
  have "fresh_batches e w1 (group_ticks [(corr2, ts2)])"
    by (rule fresh_batches_rest [OF assms(6) s1(4,5)]) (simp_all add: s1(3))
  then have new2: "batch_of (w_db w1) (fresh_uuid e (w_ticks w1 + 2)) = None"
    by (auto simp: fresh_batches_def row_of_None_iff)
  have good: "good_group e (w_db w1) corr2 ts2 cs2"
    using assms(4) good_group_other_tables [of "w_db w" "w_db w1"] s1(6) by (simp add: batch_link_def)
  obtain s2 w2 where s2: "run (settle_group (settlementEngine rng) dir day corr2 ts2) e w1 = (Done (Inr s2), w2)"
    "bs_FileRef s2 = file_path dir corr2 day"
    "map_of (w_files w2) = (map_of (w_files w1))(file_path dir corr2 day \<mapsto>
       JsonFile (settlement_file corr2 day ts2 (clock e (w_ticks w1))))"
    using settle_group_settles [OF assms(1,2) good new2] by blast
  have "file_path dir corr1 day = file_path dir corr2 day" using assms(5) by (simp add: file_path_def)
  then have "bs_FileRef s1 = bs_FileRef s2"
    "map_of (w_files w2) (bs_FileRef s1) = Some (JsonFile (settlement_file corr2 day ts2 (clock e (w_ticks w1))))"
    using s1(2) s2(2,3) by simp_all
  with s1(1) s2(1) show ?thesis by blast
qed

theorem settlement_files_collide_witness:
  "\<exists>s1 w1 s2 w2 now. run (settle_group (settlementEngine (\<lambda>ks. ks)) ''d'' 20635 alpha []) demo_env (demo_world [] []) =
      (Done (Inr s1), w1) \<and>
    run (settle_group (settlementEngine (\<lambda>ks. ks)) ''d'' 20635 beta [scanSTransfer (demo_transfer check1 FundsPosted)])
      demo_env w1 = (Done (Inr s2), w2) \<and>
    map_of (w_files w2) (bs_FileRef s1) = Some (JsonFile
      (settlement_file beta 20635 [scanSTransfer (demo_transfer check1 FundsPosted)] now))"
proof -
  have co: "row_of c_id alpha seed_correspondents \<noteq> None" "row_of c_id beta seed_correspondents \<noteq> None"
    by (simp_all add: seed_correspondents_def db_simps)
  have "good_group demo_env (w_db (demo_world [] [])) alpha [] []"
    using co by (simp add: good_group_def demo_canonical)
  moreover have "good_group demo_env (w_db (demo_world [] [])) beta [scanSTransfer (demo_transfer check1 FundsPosted)] [10000]"
    using co by (simp add: good_group_def demo_canonical)
  moreover have "take 8 alpha = take 8 beta" by (simp add: demo_ids)
  moreover have "fresh_batches demo_env (demo_world [] [])
      (group_ticks [(alpha, []), (beta, [scanSTransfer (demo_transfer check1 FundsPosted)])])"
    by (rule demo_fresh_batches) simp_all
  ultimately show ?thesis
    using settlement_files_collide [OF demo_fault_free demo_shortest_reads_back] by blast
qed

section \<open>The acknowledgment\<close>

text \<open>C26. The acknowledgment of a batch marks it and completes exactly its FundsPosted transfers, with the
  time of the acknowledgment; transfers of the batch in another state, such as returned ones, and all others
  stay as they are, and so do ledger and accounts. A second acknowledgment changes nothing.\<close>

theorem acknowledgment_completes_batch:
  assumes "fault_free e" "batch_of (w_db w) b = Some br"
    and "\<And>r. r \<in> set (transfers (w_db w)) \<Longrightarrow> t_settlement_batch_id r = Some b \<Longrightarrow> canonical e (t_id r)"
  shows "\<exists>w'. run (AcknowledgeBatch (settlementEngine rng) b t) e w = (Done None, w') \<and>
    (if b_status br = ACKNOWLEDGED then w_db w' = w_db w
     else completes {i. \<exists>r \<in> set (transfers (w_db w)). t_settlement_batch_id r = Some b \<and> t_id r = i} b t
       ((w_db w)\<lparr>settlement_batches := upd_row b_id b (\<lambda>x. x\<lparr>b_status := ACKNOWLEDGED, b_acknowledged_at := Some t\<rparr>)
          (settlement_batches (w_db w))\<rparr>) (w_db w'))"
proof (cases "b_status br = ACKNOWLEDGED")
  case True
  then show ?thesis
    using assms(1,2)
    by (simp add: AcknowledgeBatch_def GetBatch_def transferIDsForBatch_def run_simps scanBatch_def)
next
  case False
  then show ?thesis
    using AcknowledgeBatch_completes [OF assms(1,2) False assms(3), of rng t]
    by (auto simp: returns_def split: prod.splits outcome.splits)
qed

theorem acknowledgment_completes_batch_witness:
  "\<exists>w' r'. run (AcknowledgeBatch (settlementEngine (\<lambda>ks. ks)) (b_id (demo_batch PENDING)) 5) demo_env
      (batched_world FundsPosted) = (Done None, w') \<and>
    transfer_of (w_db w') check1 = Some r' \<and> t_state r' = Completed \<and> t_settled_at r' = Some 5"
proof -
  let ?b = "b_id (demo_batch PENDING)"
  obtain w' where run: "run (AcknowledgeBatch (settlementEngine (\<lambda>ks. ks)) ?b 5) demo_env (batched_world FundsPosted) =
      (Done None, w')"
    and c: "completes {check1} ?b 5 ((w_db (batched_world FundsPosted))\<lparr>settlement_batches :=
      upd_row b_id ?b (\<lambda>x. x\<lparr>b_status := ACKNOWLEDGED, b_acknowledged_at := Some 5\<rparr>)
        (settlement_batches (w_db (batched_world FundsPosted)))\<rparr>) (w_db w')"
    using acknowledgment_completes_batch [OF demo_fault_free, where w = "batched_world FundsPosted" and b = ?b
        and br = "demo_batch PENDING" and t = 5 and rng = "\<lambda>ks. ks"]
    by (auto simp: db_simps demo_canonical)
  from completesD(2) [OF c, of check1 "demo_batched FundsPosted"] show ?thesis
    using run by (auto simp: db_simps completed_row_def)
qed

end
