(* ===== verification/Idempotence.thy ===== *)
theory Idempotence
  imports System
begin

text \<open>
  What the replay of stored responses rests on: no step of \<open>POST /deposits\<close> itself touches the stored
  responses, and an answer that carries an \<open>id\<close> is a 201 about a transfer that exists in the database.
\<close>

section \<open>The handler does not touch the stored responses\<close>

lemma CreateDeposit_keys:
  "idempotency_keys (w_db (snd (run (CreateDeposit h) e w))) = idempotency_keys (w_db w)"
proof -
  have "guarantees (\<lambda>d d'. idempotency_keys d' = idempotency_keys d) (CreateDeposit h)"
    by (rule guarantees_mono [OF store_CreateDeposit store_step_keys])
  from guarantees_run [OF this] show ?thesis by simp
qed

section \<open>Reads under any fault\<close>

text \<open>A query under any fault: the database stays, and the answer is an error or the statement's.\<close>

lemma run_query_cases:
  assumes "run (sql st) e w = (out, w')" "\<forall>n d r d'. st e n d = Inr (r, d') \<longrightarrow> d' = d"
  obtains err where "out = Done (Inl err)" "w_db w' = w_db w"
  | r where "st e (w_ticks w) (w_db w) = Inr (r, w_db w)" "out = Done (Inr r)" "w_db w' = w_db w"
proof (cases "st e (w_ticks w) (w_db w)")
  case (Inl err)
  with assms(1) show ?thesis
    by (cases "fault e (w_ticks w)")
       (auto simp: sql_def run_atomic answer_def commit_def Let_def intro: that(1))
next
  case (Inr rd)
  then obtain r where r: "rd = (r, w_db w)" using assms(2) by (cases rd) auto
  show ?thesis
  proof (cases "fault e (w_ticks w)")
    case NoFault
    with assms(1) Inr r show ?thesis
      by (intro that(2)) (auto simp: sql_def run_atomic answer_def commit_def Let_def)
  qed (use assms(1) Inr r in \<open>auto simp: sql_def run_atomic answer_def commit_def Let_def intro: that(1)\<close>)
qed

lemma GetByID_cases:
  assumes "run (GetByID i) e w = (out, w')"
  obtains err where "out = Done (Inl err)" "w_db w' = w_db w"
  | u r where "uuid_parse e i = Some u" "transfer_of (w_db w) u = Some r"
      "out = Done (Inr (scanTransferFull r))" "w_db w' = w_db w"
proof -
  obtain out1 w1 where q: "run (sql (GetByID_stmt i)) e w = (out1, w1)" by force
  moreover have "\<forall>n d r d'. GetByID_stmt i e n d = Inr (r, d') \<longrightarrow> d' = d"
    by (auto simp: GetByID_stmt_def)
  ultimately show ?thesis
  proof (cases rule: run_query_cases)
    case (1 err)
    with assms q show ?thesis by (intro that(1)) (auto simp: GetByID_def run_bind)
  next
    case (2 r)
    with assms q show ?thesis
      by (cases r) (auto simp: GetByID_def run_bind GetByID_stmt_def intro: that)
  qed
qed

lemma run_bindE:
  assumes "run (bind p k) e w = (Done a, w')"
  obtains b w1 where "run p e w = (Done b, w1)" "run (k b) e w1 = (Done a, w')"
  using assms by (auto simp: run_bind split: prod.splits outcome.splits)

lemma run_ignoringE:
  assumes "run (ignoring p q) e w = (Done a, w')"
  obtains w1 where "run q e w1 = (Done a, w')"
  using assms unfolding ignoring_def by (rule run_bindE) (rule that)

section \<open>What the answer of a deposit tells\<close>

lemma response_id_error [simp]: "response_id (rs_Body (error_json n msg)) = None"
  by (simp add: response_id_def error_json_def writeJSON_def)

lemma response_id_transfer:
  "response_id (rs_Body (writeJSON n (JObj (transferToJSON t)))) = Some (m, i)
   \<Longrightarrow> writeJSON n (JObj (transferToJSON t)) = \<lparr>rs_Status = n, rs_Body = JsonBody (JObj m), rs_Replay = False\<rparr> \<and> i = tr_ID t"
  by (auto simp: response_id_def writeJSON_def transferToJSON_def split: if_splits)

definition created_answer :: "env \<Rightarrow> json \<Rightarrow> string \<Rightarrow> response \<Rightarrow> world \<Rightarrow> bool" where
  "created_answer e m i rs w \<longleftrightarrow>
     rs = \<lparr>rs_Status = 201, rs_Body = JsonBody (JObj m), rs_Replay = False\<rparr> \<and>
     (\<exists>r j. uuid_parse e j = Some i \<and> transfer_of (w_db w) i = Some r)"

lemma run_deposit_answer:
  assumes "run (run_deposit h req acct corrID corr t) e w = (Done rs, w')" "response_id (rs_Body rs) = Some (m, i)"
  shows "created_answer e m i rs w'"
proof -
  obtain w1 r where get: "run (GetByID (tr_ID t)) e w1 = (Done r, w')"
    and rs: "rs = (case r of Inl _ \<Rightarrow> error_json 500 ''internal error''
        | Inr updated \<Rightarrow> writeJSON 201 (JObj (transferToJSON updated)))"
    using assms(1) unfolding run_deposit_def by (elim run_ignoringE run_bindE) (auto intro: that)
  from get show ?thesis
  proof (cases rule: GetByID_cases)
    case (2 u row)
    then have "rs = writeJSON 201 (JObj (transferToJSON (scanTransferFull row)))" using rs by simp
    moreover have "tr_ID (scanTransferFull row) = u"
      using row_of_key [OF 2(2)] by (simp add: scanTransferFull_def)
    ultimately show ?thesis using 2 response_id_transfer assms(2) unfolding created_answer_def by metis
  qed (use rs assms(2) in simp)
qed

lemma CreateDeposit_answer:
  assumes "run (CreateDeposit h) e w = (Done rs, w')" "response_id (rs_Body rs) = Some (m, i)"
  shows "created_answer e m i rs w'"
  using assms unfolding CreateDeposit_def create_transfer_def
  by (auto split: sum.splits option.splits elim!: run_bindE run_deposit_answer)

text \<open>A first request with a key, whose answer carries an id, leaves the answer under the key.\<close>

lemma run_Idem_Lookup:
  "fault_free e \<Longrightarrow> run (Idem_Lookup key) e w =
     (Done (map_option (\<lambda>row. \<lparr>sr_Code = i_response_code row, sr_Body = i_response_body row\<rparr>)
        (row_of i_key key (idempotency_keys (w_db w)))), (tick w)\<lparr>w_db := w_db w\<rparr>)"
  by (simp add: Idem_Lookup_def run_simps split: option.splits)

lemma first_request_stores:
  assumes e: "fault_free e" "uuid_env e" and key: "key \<noteq> ''''" "row_of i_key key (idempotency_keys (w_db w)) = None"
    and "run (Idempotency key (CreateDeposit h)) e w = (Done rs, w1)" "response_id (rs_Body rs) = Some (m, i)"
  shows "rs = \<lparr>rs_Status = 201, rs_Body = JsonBody (JObj m), rs_Replay = False\<rparr> \<and>
    (\<exists>row. row_of i_key key (idempotency_keys (w_db w1)) = Some row \<and> i_response_code row = 201 \<and>
       i_response_body row = m)"
proof -
  obtain rs' w2 where create: "run (CreateDeposit h) e ((tick w)\<lparr>w_db := w_db w\<rparr>) = (Done rs', w2)"
    and rest: "run (case response_id (rs_Body rs') of None \<Rightarrow> Ret rs'
      | Some (m, i) \<Rightarrow> bind (Idem_Store key i (rs_Status rs') m) (\<lambda>_. Ret rs')) e w2 = (Done rs, w1)"
    using assms(5) key by (auto simp: Idempotency_def run_Idem_Lookup [OF e(1)] run_bind split: prod.splits outcome.splits)
  then have rs': "rs' = rs" using assms(6)
    by (auto simp: run_bind split: option.splits prod.splits outcome.splits)
  have ans: "created_answer e m i rs w2" using CreateDeposit_answer create assms(6) rs' by blast
  then have can: "canonical e i" using e(2) by (auto simp: created_answer_def uuid_env_def)
  have none: "row_of i_key key (idempotency_keys (w_db w2)) = None"
    using CreateDeposit_keys [of h e "(tick w)\<lparr>w_db := w_db w\<rparr>"] key create by simp
  from rest ans have "row_of i_key key (idempotency_keys (w_db w1)) = Some \<lparr>i_key = key, i_transfer_id = i,
      i_response_code = rs_Status rs, i_response_body = m\<rparr>"
    using assms(6) none can e(1) unfolding rs'
    by (auto simp: created_answer_def Idem_Store_def run_simps db_simps)
  then show ?thesis using ans by (auto simp: created_answer_def)
qed

text \<open>A stored response answers every later request with the key.\<close>

lemma stored_response_answers:
  assumes "reachable e api w0 s" "later e s s'" "fault_free e" "key \<noteq> ''''"
    and "row_of i_key key (idempotency_keys (w_db (snd s))) = Some row"
  shows "run (Idempotency key nxt) e (snd s') =
    (Done (replay_response \<lparr>sr_Code = i_response_code row, sr_Body = i_response_body row\<rparr>),
     (tick (snd s'))\<lparr>w_db := w_db (snd s')\<rparr>)"
proof -
  obtain new where "idempotency_keys (w_db (snd s')) = idempotency_keys (w_db (snd s)) @ new"
    using later_lawful [OF assms(1,2)] by (auto simp: lawful_def)
  then have "row_of i_key key (idempotency_keys (w_db (snd s'))) = Some row"
    using assms(5) by (simp add: db_simps)
  then show ?thesis using assms(4) by (simp add: Idempotency_def run_bind run_Idem_Lookup [OF assms(3)])
qed

end
