(* ===== verification/DepositRequest.thy ===== *)
theory DepositRequest
  imports DepositSpec Idempotence
begin

text \<open>
  \<open>POST /deposits\<close> from the request to the ledger: the amount of the request is stored exactly, the guards
  and lookups end in the new transfer, and a clean deposit is posted by the flow that runs on it.
\<close>

section \<open>The amount of the request\<close>

lemma amount_param:
  assumes c: "0 < c" "c < 10 ^ 12" and e: "shortest_reads_back e"
  shows "to_numeric 12 (float_param e (of_cents c)) = Some (Num c)"
proof -
  obtain y where y: "of_cents c = Fin y" "\<bar>y - of_int c / 100\<bar> \<le> \<bar>of_int c / 100\<bar> / 2 ^ 53"
    using of_cents_error [of c] c by auto
  have cr: "0 < (of_int c :: rat)" "(of_int c :: rat) \<le> 10 ^ 12"
    using c by (simp_all add: of_int_le_numeral_power_cancel_iff)
  then have "\<bar>of_int c / 100 :: rat\<bar> / 2 ^ 53 \<le> (10 ^ 12 / 100) / 2 ^ 53"
    by (intro divide_right_mono) simp_all
  then have e1: "\<bar>y - of_int c / 100\<bar> \<le> 1 / 500000" using y(2) by simp
  then have e1': "y - of_int c / 100 \<le> 1 / 500000" "of_int c / 100 - y \<le> 1 / 500000"
    by (simp_all only: abs_le_iff minus_diff_eq)
  then have "y \<le> 10 ^ 10 + 1" "- y \<le> 10 ^ 10 + 1" using cr by (simp_all add: field_simps)
  then have "\<bar>y\<bar> / 2 ^ 52 \<le> (10 ^ 10 + 1) / 2 ^ 52" by (intro divide_right_mono) simp_all
  moreover have "\<bar>shortest e y - y\<bar> \<le> \<bar>y\<bar> / 2 ^ 52"
    using e y(1) unfolding shortest_reads_back_def of_cents_def by blast
  ultimately have "\<bar>shortest e y - y\<bar> \<le> 1 / 100000" by simp
  then have "shortest e y - y \<le> 1 / 100000" "y - shortest e y \<le> 1 / 100000"
    by (simp_all only: abs_le_iff minus_diff_eq)
  then have "100 * shortest e y - of_int c < 1 / 2" "of_int c - 100 * shortest e y < 1 / 2"
    using e1' by linarith+
  then have "\<bar>100 * shortest e y - of_int c\<bar> < 1 / 2" by (simp only: abs_less_iff minus_diff_eq)
  then have "round_half_away (100 * shortest e y) = c" by (rule round_half_away_eq)
  with c show ?thesis by (simp add: y(1) Let_def)
qed

section \<open>The new transfer\<close>

text \<open>The row that \<open>Create\<close> inserts at step \<open>n\<close>.\<close>

definition new_transfer :: "env \<Rightarrow> nat \<Rightarrow> uuid \<Rightarrow> uuid \<Rightarrow> uuid \<Rightarrow> int \<Rightarrow> transfer_row" where
  "new_transfer e n acct omni corr c =
     \<lparr>t_id = fresh_uuid e n, t_account_id = acct, t_from_account_id = omni, t_correspondent_id = corr,
      t_amount = Num c, t_currency = ''USD'', t_type = ''MOVEMENT'', t_sub_type = ''DEPOSIT'',
      t_transfer_type = ''CHECK'', t_memo = ''FREE'', t_state = Requested, t_review_reason = None,
      t_error_code = None, t_contribution_type = None, t_vendor_transaction_id = None,
      t_confidence_score = None, t_micr_data = None, t_front_image_ref = None, t_back_image_ref = None,
      t_settlement_batch_id = None, t_settled_at = None, t_submitted_at = clock e n,
      t_created_at = clock e n, t_updated_at = clock e n\<rparr>"

text \<open>What a request of \<open>c\<close> cents needs to get a transfer: an account with a correspondent whose rules can
  be read and which has an omnibus account, and a fresh id.\<close>

definition depositable ::
  "env \<Rightarrow> world \<Rightarrow> depositRequest \<Rightarrow> int \<Rightarrow> account_row \<Rightarrow> account_row \<Rightarrow> correspondent_row \<Rightarrow> RulesConfig \<Rightarrow> bool" where
  "depositable e w req c acct omni corr rules \<longleftrightarrow>
     0 < c \<and> c < 10 ^ 12 \<and> dr_Amount req = of_cents c \<and> dr_AccountCode req \<noteq> '''' \<and>
     row_of a_code (dr_AccountCode req) (accounts (w_db w)) = Some acct \<and>
     a_correspondent_id acct = Some (c_id corr) \<and>
     row_of c_id (c_id corr) (correspondents (w_db w)) = Some corr \<and> c_rules_config corr = Some rules \<and>
     omnibus_of (c_id corr) (accounts (w_db w)) = Some omni \<and>
     canonical e (a_id acct) \<and> canonical e (a_id omni) \<and> canonical e (c_id corr) \<and>
     transfer_of (w_db w) (fresh_uuid e (w_ticks w + 3)) = None"

definition corr_of :: "correspondent_row \<Rightarrow> RulesConfig \<Rightarrow> Correspondent" where
  "corr_of corr rules = \<lparr>co_ID = c_id corr, co_Code = c_code corr, co_Name = c_name corr, co_RulesConfig = rules\<rparr>"

lemma CreateDeposit_creates:
  assumes e: "fault_free e" "shortest_reads_back e" and h: "decode_deposit h = Inr req"
    and d: "depositable e w req c acct omni corr rules"
  defines "row \<equiv> new_transfer e (w_ticks w + 3) (a_id acct) (a_id omni) (c_id corr) c"
  shows "run (CreateDeposit h) e w =
    run (run_deposit h req acct (c_id corr) (corr_of corr rules) (scanTransfer row)) e
      (w\<lparr>w_ticks := w_ticks w + 4, w_db := (w_db w)\<lparr>transfers := transfers (w_db w) @ [row]\<rparr>\<rparr>)"
proof -
  obtain y where y: "of_cents c = Fin y" "\<bar>y - of_int c / 100\<bar> \<le> \<bar>of_int c / 100\<bar> / 2 ^ 53"
    using of_cents_error [of c] d by (auto simp: depositable_def)
  have c: "0 < (of_int c :: rat)" using d by (simp add: depositable_def)
  then have "\<bar>of_int c / 100 :: rat\<bar> / 2 ^ 53 < of_int c / 100" by (simp add: field_simps)
  then have "0 < y" using y(2) by (simp only: abs_le_iff minus_diff_eq) linarith
  then have check: "check_deposit req = None"
    using d y(1) by (simp add: check_deposit_def depositable_def)
  have accts: "account_of (w_db w) (a_id acct) \<noteq> None" "account_of (w_db w) (a_id omni) \<noteq> None"
    using d row_of_in [of a_code "dr_AccountCode req" "accounts (w_db w)" acct]
    by (auto simp: depositable_def row_of_None_iff omnibus_of_def find_Some_iff)
  let ?d = "w_db w"
  have 1: "run (GetByCode (dr_AccountCode req)) e w = (Done (Inr acct), (tick w)\<lparr>w_db := ?d\<rparr>)"
    using d by (simp add: GetByCode_def scanAccount_def run_bind run_sql [OF e(1)] run_simps depositable_def)
  have 2: "run (Correspondents_GetByID (c_id corr)) e w1 = (Done (Inr (corr_of corr rules)), (tick w1)\<lparr>w_db := ?d\<rparr>)"
    if "w_db w1 = ?d" for w1
    using d that
    by (simp add: Correspondents_GetByID_def corr_of_def run_bind run_sql [OF e(1)] run_simps depositable_def)
  have 3: "run (GetOmnibusForCorrespondent (c_id corr)) e w1 = (Done (Inr (a_id omni)), (tick w1)\<lparr>w_db := ?d\<rparr>)"
    if "w_db w1 = ?d" for w1
    using d that
    by (simp add: GetOmnibusForCorrespondent_def run_bind run_sql [OF e(1)] run_simps depositable_def omnibus_of_def)
  have 4: "run (Create \<lparr>ci_AccountID = a_id acct, ci_FromAccountID = a_id omni, ci_CorrespondentID = c_id corr,
        ci_Amount = of_cents c\<rparr>) e w1 =
      (Done (Inr (scanTransfer row)), (tick w1)\<lparr>w_db := ?d\<lparr>transfers := transfers ?d @ [row]\<rparr>\<rparr>)"
    if "w_db w1 = ?d" "w_ticks w1 = w_ticks w + 3" for w1
    using d that accts amount_param [OF _ _ e(2)]
    by (simp add: Create_def Create_stmt_def run_bind run_sql [OF e(1)] run_simps depositable_def row_def
        new_transfer_def Let_def del: to_numeric.simps float_param.simps)
  have four: "Suc (Suc (Suc (Suc n))) = n + 4" for n by simp
  show ?thesis
    using d
    by (simp add: CreateDeposit_def h check run_bind 1 depositable_def create_transfer_def 2 3 4 tick_def four)
qed


section \<open>A clean request\<close>

text \<open>The deposit the handler runs on the new transfer, when no image is uploaded.\<close>

definition request_detail ::
  "deposit_http \<Rightarrow> depositRequest \<Rightarrow> account_row \<Rightarrow> correspondent_row \<Rightarrow> RulesConfig \<Rightarrow> transfer_row \<Rightarrow> TransferDetail" where
  "request_detail h req acct corr rules row =
     transfer_detail (scanTransfer row) acct (c_id corr) (corr_of corr rules) req (dh_XScenario h) ('''', '''')"

lemma request_detail_simps [simp]:
  "td_TransferID (request_detail h req acct corr rules row) = t_id row"
  "td_AccountID (request_detail h req acct corr rules row) = a_id acct"
  "td_CorrespondentID (request_detail h req acct corr rules row) = c_id corr"
  "td_Amount (request_detail h req acct corr rules row) = dr_Amount req"
  "td_AccountType (request_detail h req acct corr rules row) = a_type acct"
  "td_AccountStatus (request_detail h req acct corr rules row) = a_status acct"
  "td_RulesConfig (request_detail h req acct corr rules row) = rules"
  by (simp_all add: request_detail_def transfer_detail_def scanTransfer_def corr_of_def)

lemma happy_same_tables:
  "accounts d' = accounts d \<Longrightarrow> ledger_entries d' = ledger_entries d \<Longrightarrow> happy e td c d' = happy e td c d"
  by (simp add: happy_def)


lemma run_deposit_clean:
  assumes e: "fault_free e" "canonical e (t_id row)" and json: "\<not> is_multipart h"
    and row: "transfer_of (w_db w) (t_id row) = Some row" "t_state row = Requested"
    and happy: "happy e (request_detail h req acct corr rules row) c (w_db w)"
    and omni: "omnibus_of (c_id corr) (accounts (w_db w)) = Some omni"
  shows "returns (run_deposit h req acct (c_id corr) (corr_of corr rules) (scanTransfer row)) e w (\<lambda>rs w'. \<exists>r new.
    transfer_of (w_db w') (t_id row) = Some r \<and> t_state r = FundsPosted \<and> same_identity row r \<and>
    rs = writeJSON 201 (JObj (transferToJSON (scanTransferFull r))) \<and>
    ledger_entries (w_db w') = ledger_entries (w_db w) @ new \<and>
    posting EntryTypeProvisionalCredit (Num c) (a_id omni) (a_id acct) ''FREE'' (t_id row) new)"
proof -
  let ?td = "request_detail h req acct corr rules row" and ?i = "t_id row"
  have id: "tr_ID (scanTransfer row) = ?i" by (simp add: scanTransfer_def)
  have start: "flow ?i Requested (t_error_code row) (t_review_reason row) [] (w_db w) (w_db w)"
    using flow_start [OF row(1)] row(2) by simp
  have images: "save_images ?i h = Ret ('''', '''')" using json by (simp add: save_images_def)
  show ?thesis
    unfolding run_deposit_def id images bind.simps request_detail_def [symmetric]
  proof (rule event_then [OF e start])
    fix w1 :: world
    assume w1: "flow ?i Requested (t_error_code row) (t_review_reason row) [] (w_db w) (w_db w1)"
    then obtain r1 where r1: "transfer_of (w_db w1) ?i = Some r1" "t_state r1 = Requested" "same_identity row r1"
      using row(1) by (auto simp: flow_def)
    have tables: "accounts (w_db w1) = accounts (w_db w)" "ledger_entries (w_db w1) = ledger_entries (w_db w)"
      using w1 by (auto elim: flowE)
    have happy1: "happy e ?td c (w_db w1)" using happy unfolding happy_same_tables [OF tables] .
    show "returns (bind (ProcessDeposit orchDeps ?td) (\<lambda>_. bind (GetByID ?i) (\<lambda>r. Ret (case r of
          Inl _ \<Rightarrow> error_json 500 ''internal error''
        | Inr updated \<Rightarrow> writeJSON 201 (JObj (transferToJSON updated)))))) e w1 (\<lambda>rs w'. \<exists>r new.
      transfer_of (w_db w') ?i = Some r \<and> t_state r = FundsPosted \<and> same_identity row r \<and>
      rs = writeJSON 201 (JObj (transferToJSON (scanTransferFull r))) \<and>
      ledger_entries (w_db w') = ledger_entries (w_db w) @ new \<and>
      posting EntryTypeProvisionalCredit (Num c) (a_id omni) (a_id acct) ''FREE'' ?i new)"
    proof (rule returns_bindI [OF clean_deposit [of e ?td c w1 r1 omni]], goal_cases)
      case (7 res w2)
      then obtain new r2 where r2: "transfer_of (w_db w2) ?i = Some r2" "t_state r2 = FundsPosted"
        "same_identity r1 r2" "ledger_entries (w_db w2) = ledger_entries (w_db w) @ new"
        "posting EntryTypeProvisionalCredit (Num c) (a_id omni) (a_id acct) ''FREE'' ?i new"
        using r1(1) tables(2) by (auto simp: flow_def)
      have "same_identity row r2" using r1(3) r2(3) by (rule same_identity_trans)
      with r2 show ?case by (auto simp: returns_def run_bind run_GetByID e)
    qed (simp_all add: e r1 happy1 omni tables)
  qed
qed

end
