(* ===== verification/HandlerProperties.thy ===== *)
theory HandlerProperties
  imports DepositProperties DepositRequest
begin

text \<open>
  The properties of the HTTP layer: what a token allows, what a bad request cannot do, what
  \<open>POST /deposits\<close> of a clean check does, and the replay of a response by its idempotency key.
\<close>

section \<open>Credentials\<close>

text \<open>The Authorization header a route accepts; the other routes ask for none.\<close>

fun authorised :: "env \<Rightarrow> request \<Rightarrow> bool" where
  "authorised e (RqOperatorQueue q hdr) \<longleftrightarrow> (\<exists>tok \<in> dom demoTokens. hdr = ''Bearer '' @ tok)"
| "authorised e (RqOperatorAction body hdr) \<longleftrightarrow> (\<exists>tok \<in> dom demoTokens. hdr = ''Bearer '' @ tok)"
| "authorised e (RqNotifications hdr) \<longleftrightarrow> (\<exists>tok \<in> dom demoTokens. hdr = ''Bearer '' @ tok)"
| "authorised e (RqMarkRead i hdr) \<longleftrightarrow> (\<exists>tok \<in> dom demoTokens. hdr = ''Bearer '' @ tok)"
| "authorised e (RqReturn body hdr) \<longleftrightarrow>
     getenv e ''SETTLEMENT_BANK_TOKEN'' \<noteq> '''' \<and> hdr = ''Bearer '' @ getenv e ''SETTLEMENT_BANK_TOKEN''"
| "authorised e _ \<longleftrightarrow> True"

lemma Auth_refuses:
  "\<not> (\<exists>tok \<in> dom demoTokens. hdr = ''Bearer '' @ tok) \<Longrightarrow> \<exists>msg. Auth nxt hdr = Ret (http_Error msg 401)"
  using Auth_cases [of nxt hdr] by blast

lemma Auth_accepts: "demoTokens tok = Some dt \<Longrightarrow> Auth nxt (''Bearer '' @ tok) = nxt (with_token dt background)"
  using TrimPrefix_append [of "''Bearer ''" tok] by (simp add: Auth_def Let_def)

lemma extractBearerToken_eq:
  "s \<noteq> '''' \<Longrightarrow> extractBearerToken hdr = s \<longleftrightarrow> hdr = ''Bearer '' @ s"
  by (auto simp: extractBearerToken_def HasPrefix_iff)

text \<open>Operator queue, operator actions and notifications need a known bearer token, the return webhook
  needs the configured token of the settlement bank: without it the answer is 401 and neither the database
  nor a file is touched, whatever the rest of the request says.\<close>

lemma unauthorised_refused:
  assumes "\<not> authorised e rq"
  shows "\<exists>rs w'. run (serve rq) e w = (Done rs, w') \<and> rs_Status rs = 401 \<and>
    w_db w' = w_db w \<and> w_files w' = w_files w"
proof -
  define refused :: "response prog \<Rightarrow> bool" where "refused p \<longleftrightarrow> (\<exists>rs w'. run p e w = (Done rs, w') \<and> rs_Status rs = 401 \<and>
    w_db w' = w_db w \<and> w_files w' = w_files w)" for p
  have auth: "refused (Auth nxt hdr)" if "\<not> (\<exists>tok \<in> dom demoTokens. hdr = ''Bearer '' @ tok)" for nxt hdr
    using Auth_refuses [OF that, of nxt] by (auto simp: http_Error_def refused_def)
  have "refused (SettlementAuth nxt hdr)" if "\<not> authorised e (RqReturn body hdr)" for nxt hdr body
    using that
    by (auto simp: SettlementAuth_def run_bind run_go_getenv extractBearerToken_eq http_Error_def refused_def)
  with auth assms have "refused (serve rq)"
    by (cases rq) (simp_all only: serve.simps authorised.simps not_True_eq_False)
  then show ?thesis by (simp add: refused_def)
qed

section \<open>Correspondents are isolated\<close>

lemma with_token_correspondent:
  "CorrespondentIDFromContext (with_token dt background) = dt_CorrespondentID dt"
  by (simp add: with_token_def Let_def CorrespondentIDFromContext_def background_def)

lemma PostAction_foreign:
  assumes "dt_CorrespondentID dt \<noteq> ''''"
    and "\<And>u r. uuid_parse e (ac_TransferID req) = Some u \<Longrightarrow> transfer_of (w_db w) u = Some r \<Longrightarrow>
      t_correspondent_id r \<noteq> dt_CorrespondentID dt"
    and run: "run (PostAction (Some req) (with_token dt background)) e w = (out, w1)"
  shows "\<exists>rs. out = Done rs \<and> rs_Status rs \<in> {400, 404} \<and> w_db w1 = w_db w"
proof (cases "ac_TransferID req = '''' \<or> (ac_Action req \<noteq> ''APPROVE'' \<and> ac_Action req \<noteq> ''REJECT'')")
  case True
  with run show ?thesis by (auto simp: PostAction_def error_json_def writeJSON_def)
next
  case False
  obtain out2 w2 where get: "run (GetByID (ac_TransferID req)) e w = (out2, w2)" by force
  from get show ?thesis
  proof (cases rule: GetByID_cases)
    case (1 err)
    with run get False show ?thesis by (auto simp: PostAction_def run_bind error_json_def writeJSON_def)
  next
    case (2 u r)
    have "t_correspondent_id r \<noteq> dt_CorrespondentID dt" using assms(2) 2(1,2) .
    with run get False 2 assms(1) show ?thesis
      by (auto simp: PostAction_def run_bind with_token_correspondent scanTransferFull_def
          error_json_def writeJSON_def)
  qed
qed

lemma GetQueue_own:
  assumes "dt_CorrespondentID dt \<noteq> ''''" and run: "run (GetQueue q (with_token dt background)) e w = (out, w')"
  shows "w_db w' = w_db w \<and> (out = Done rs \<longrightarrow> rs_Status rs = 200 \<longrightarrow>
    (\<exists>rows. rs = transfers_json (Inr (map scanTransferFull rows)) \<and> set rows \<subseteq> set (transfers (w_db w)) \<and>
      (\<forall>r \<in> set rows. uuid_parse e (dt_CorrespondentID dt) = Some (t_correspondent_id r) \<and>
         t_state r = Analyzing \<and> t_review_reason r \<noteq> None)))"
proof -
  let ?f = "queue_filter (with_token dt background) q"
  obtain out1 w1 where q: "run (sql (ListQueue_stmt ?f)) e w = (out1, w1)" by force
  moreover have "\<forall>n d r d'. ListQueue_stmt ?f e n d = Inr (r, d') \<longrightarrow> d' = d"
    by (auto simp: ListQueue_stmt_def Let_def split: option.splits)
  ultimately have res: "w_db w' = w_db w \<and> (out = Done rs \<longrightarrow> rs_Status rs = 200 \<longrightarrow>
      (\<exists>rows n. rs = transfers_json (Inr (map scanTransferFull rows)) \<and> ListQueue_stmt ?f e n (w_db w) = Inr (rows, w_db w)))"
  proof (cases rule: run_query_cases)
    case (1 err)
    with run q show ?thesis by (auto simp: GetQueue_def ListQueue_def run_bind transfers_json_def error_json_def writeJSON_def)
  next
    case (2 r)
    with run q show ?thesis by (auto simp: GetQueue_def ListQueue_def run_bind)
  qed
  have "set rows \<subseteq> set (transfers (w_db w)) \<and> (\<forall>r \<in> set rows. uuid_parse e (dt_CorrespondentID dt)
      = Some (t_correspondent_id r) \<and> t_state r = Analyzing \<and> t_review_reason r \<noteq> None)"
    if "ListQueue_stmt ?f e n (w_db w) = Inr (rows, w_db w)" for n rows
    using that assms(1)
    by (auto simp: ListQueue_stmt_def Let_def uuid_condition_def queue_filter_def with_token_correspondent
        split: option.splits if_splits)
  with res show ?thesis by blast
qed

text \<open>C29. A token that is bound to a correspondent cannot act on a transfer of another one, whatever fails:
  the action is answered 400 or 404 as if the transfer did not exist, and the database stays. Its review
  queue shows only flagged transfers of its own correspondent.\<close>

theorem correspondents_are_isolated:
  assumes "demoTokens tok = Some dt" "dt_CorrespondentID dt \<noteq> ''''"
    and "\<And>u r. uuid_parse e (ac_TransferID req) = Some u \<Longrightarrow> transfer_of (w_db w) u = Some r \<Longrightarrow>
      t_correspondent_id r \<noteq> dt_CorrespondentID dt"
  shows "(\<exists>rs w'. run (serve (RqOperatorAction (Some req) (''Bearer '' @ tok))) e w = (Done rs, w') \<and>
      rs_Status rs \<in> {400, 404} \<and> w_db w' = w_db w) \<and>
    (\<forall>out w' rs. run (serve (RqOperatorQueue q (''Bearer '' @ tok))) e w = (out, w') \<longrightarrow> w_db w' = w_db w \<and>
      (out = Done rs \<longrightarrow> rs_Status rs = 200 \<longrightarrow>
        (\<exists>rows. rs = transfers_json (Inr (map scanTransferFull rows)) \<and> set rows \<subseteq> set (transfers (w_db w)) \<and>
          (\<forall>r \<in> set rows. uuid_parse e (dt_CorrespondentID dt) = Some (t_correspondent_id r) \<and>
             t_state r = Analyzing \<and> t_review_reason r \<noteq> None))))"
proof (intro conjI allI)
  obtain out w1 where run: "run (PostAction (Some req) (with_token dt background)) e w = (out, w1)" by force
  with PostAction_foreign [OF assms(2,3) run] show "\<exists>rs w'. run (serve (RqOperatorAction (Some req) (''Bearer '' @ tok))) e w = (Done rs, w') \<and>
      rs_Status rs \<in> {400, 404} \<and> w_db w' = w_db w"
    by (simp only: serve.simps Auth_accepts [OF assms(1)]) auto
qed (simp only: serve.simps Auth_accepts [OF assms(1)], use GetQueue_own [OF assms(2)] in blast)

theorem correspondents_are_isolated_witness:
  "let w = demo_world [demo_transfer check1 Analyzing] []; req = \<lparr>ac_TransferID = check1, ac_Action = ''REJECT'',
       ac_Reason = ''FRAUD'', ac_ContributionTypeOverride = ''''\<rparr>
   in \<exists>rs w'. run (serve (RqOperatorAction (Some req) ''Bearer operator-beta'')) demo_env w = (Done rs, w') \<and>
     rs_Status rs \<in> {400, 404} \<and> w_db w' = w_db w"
proof -
  have tok: "demoTokens ''operator-beta'' = Some \<lparr>dt_OperatorID = ''op-beta-001'', dt_Role = ''operator'',
      dt_CorrespondentID = beta, dt_AccountID = ''''\<rparr>"
    by (simp add: demoTokens_def beta_def)
  have b: "beta \<noteq> ''''" by (simp add: beta_def)
  have row: "t_correspondent_id r \<noteq> beta"
    if "transfer_of (w_db (demo_world [demo_transfer check1 Analyzing] [])) u = Some r" for u r
    using that by (auto simp: db_simps split: if_splits)
  show ?thesis
    using correspondents_are_isolated [OF tok, of demo_env "\<lparr>ac_TransferID = check1, ac_Action = ''REJECT'',
      ac_Reason = ''FRAUD'', ac_ContributionTypeOverride = ''''\<rparr>" "demo_world [demo_transfer check1 Analyzing] []"] b row
    by (simp only: Let_def DemoToken.simps append.simps) blast
qed

section \<open>Replay\<close>

text \<open>C30. \<open>POST /deposits\<close> with an idempotency key is carried out once: when the first answer carried a
  transfer's id, it was a 201, and at any later point of the running system the same key, whatever the body,
  is answered with the same status and body, marked as a replay, and the database stays.\<close>

theorem deposit_is_replayed:
  assumes "fault_free e" "uuid_env e" "key \<noteq> ''''" "row_of i_key key (idempotency_keys (w_db w)) = None"
    and "run (serve (RqCreateDeposit key h)) e w = (Done rs, w1)" "response_id (rs_Body rs) \<noteq> None"
    and "later e (served e (RqCreateDeposit key h) w) s"
  shows "rs_Status rs = 201 \<and>
    (\<exists>w2. run (serve (RqCreateDeposit key h')) e (snd s) = (Done (rs\<lparr>rs_Replay := True\<rparr>), w2) \<and>
      w_db w2 = w_db (snd s) \<and> w_files w2 = w_files (snd s))"
proof -
  obtain m i where "response_id (rs_Body rs) = Some (m, i)" using assms(6) by auto
  from first_request_stores [OF assms(1-4) assms(5) [unfolded serve.simps] this] obtain row
    where rs: "rs = \<lparr>rs_Status = 201, rs_Body = JsonBody (JObj m), rs_Replay = False\<rparr>"
      and row: "row_of i_key key (idempotency_keys (w_db w1)) = Some row" "i_response_code row = 201" "i_response_body row = m"
    by auto
  have "w_db (snd (served e (RqCreateDeposit key h) w)) = w_db w1"
    unfolding served_def assms(5) by simp
  with row stored_response_answers [OF reachable_served assms(7,1,3), of row "CreateDeposit h'"]
  show ?thesis by (simp add: rs replay_response_def)
qed

text \<open>The Vendor Service is down: the deposit stays in Validating, and that answer is replayed.\<close>

definition down_env :: env where
  "down_env = demo_env\<lparr>vendor := (\<lambda>n rq. HttpFail (EMsg ''connection refused''))\<rparr>"

lemma down_env_simps [simp]:
  "fault down_env n = NoFault" "fresh_uuid down_env = demo_uuid" "uuid_parse down_env = demo_parse"
  "shortest down_env x = x" "vendor down_env n rq = HttpFail (EMsg ''connection refused'')"
  by (simp_all add: down_env_def)

lemma down_env_ok: "fault_free down_env" "uuid_env down_env" "canonical down_env s \<longleftrightarrow> length s = 36"
  using demo_uuid_env demo_canonical [of s] by (simp_all add: fault_free_def uuid_env_def canonical_def)

definition json_deposit :: "int \<Rightarrow> deposit_http" where
  "json_deposit c =
     \<lparr>dh_ContentType = ''application/json'', dh_Form = None,
      dh_Json = Some \<lparr>dr_AccountCode = ''ALPHA-001'', dr_Amount = of_cents c, dr_Scenario = ''''\<rparr>, dh_XScenario = ''''\<rparr>"

lemma json_deposit_simps [simp]:
  "\<not> is_multipart (json_deposit c)" "dh_XScenario (json_deposit c) = []"
  "decode_deposit (json_deposit c) = Inr \<lparr>dr_AccountCode = ''ALPHA-001'', dr_Amount = of_cents c, dr_Scenario = []\<rparr>"
  by (simp_all add: json_deposit_def is_multipart_def decode_deposit_def HasPrefix_def)

lemma demo_depositable:
  assumes "canonical e alpha_001" "canonical e omnibus_alpha" "canonical e alpha" "0 < c" "c < 10 ^ 12"
    and "w_db w = w_db (demo_world [] ls)"
  shows "depositable e w \<lparr>dr_AccountCode = ''ALPHA-001'', dr_Amount = of_cents c, dr_Scenario = []\<rparr> c
    (seed_account alpha_001 ''ALPHA-001'' (Some alpha) ''INDIVIDUAL'')
    (seed_account omnibus_alpha ''OMNIBUS-ALPHA'' (Some alpha) ''OMNIBUS'')
    \<lparr>c_id = alpha, c_code = ''ALPHA'', c_name = ''Alpha Brokerage'', c_rules_config = Some seed_rules\<rparr> seed_rules"
  using assms demo_omnibus
  by (simp add: depositable_def seed_accounts_rows_def seed_account_def seed_correspondents_def db_simps)

lemma down_deposit:
  assumes w: "w_db w = w_db (demo_world [] [])"
  shows "\<exists>rs w1. run (CreateDeposit (json_deposit 10000)) down_env w = (Done rs, w1) \<and>
     response_id (rs_Body rs) \<noteq> None"
proof -
  have fin: "of_cents 10000 = Fin 100" using of_cents_dollars [of 100] by simp
  have "shortest_reads_back down_env" using demo_shortest_reads_back by (simp add: shortest_reads_back_def)
  note creates = CreateDeposit_creates [OF down_env_ok(1) this json_deposit_simps(3) demo_depositable]
  show ?thesis
    by (subst creates)
       (simp_all add: w down_env_ok run_deposit_def save_images_def new_transfer_def scanTransfer_def
         ProcessDeposit_def orchDeps_simps Transition_def writeStateChangedEvent_def notify_best_effort_def
         Let_def transferStore_def transfer_detail_def Validate_def ignoring_def run_bind run_UpdateState
         run_WriteEvent run_Notify run_GetByID run_http_call db_simps fin,
        simp add: scanTransferFull_def transferToJSON_def writeJSON_def response_id_def optional_def
         error_members_def fin)
qed

theorem deposit_is_replayed_witness:
  "\<exists>rs w2. rs_Status rs = 201 \<and>
     run (serve (RqCreateDeposit ''key-1'' (json_deposit 99900))) down_env
       (snd (served down_env (RqCreateDeposit ''key-1'' (json_deposit 10000)) (demo_world [] [])))
     = (Done (rs\<lparr>rs_Replay := True\<rparr>), w2)"
proof -
  let ?w = "demo_world [] []" and ?h = "json_deposit 10000"
  obtain rs w1 m i where 1: "run (CreateDeposit ?h) down_env ((tick ?w)\<lparr>w_db := w_db ?w\<rparr>) = (Done rs, w1)"
    "response_id (rs_Body rs) = Some (m, i)"
    using down_deposit [of "(tick ?w)\<lparr>w_db := w_db ?w\<rparr>"] by auto
  then have "\<exists>w2. run (serve (RqCreateDeposit ''key-1'' ?h)) down_env ?w = (Done rs, w2)"
    by (simp add: Idempotency_def run_bind run_Idem_Lookup down_env_ok db_simps Idem_Store_def run_exec_sql)
  then obtain w2 where 2: "run (serve (RqCreateDeposit ''key-1'' ?h)) down_env ?w = (Done rs, w2)" ..
  have "later down_env (served down_env (RqCreateDeposit ''key-1'' ?h) ?w) (served down_env (RqCreateDeposit ''key-1'' ?h) ?w)"
    by (simp add: later_def)
  from deposit_is_replayed [OF down_env_ok(1,2) _ _ 2 _ this, of "json_deposit 99900"] 1(2)
  show ?thesis by (auto simp: db_simps)
qed


section \<open>From the request to the ledger\<close>

text \<open>C31. \<open>POST /deposits\<close> of an amount in cents, on an account that may receive it, when the Vendor Service
  passes the check and the rules accept it: the answer is a 201 with the transfer as it is in the database,
  which is FundsPosted, holds exactly the requested amount, and is credited to the investor and debited to
  the omnibus account of the correspondent.\<close>

theorem clean_post_is_funded:
  assumes "fault_free e" "shortest_reads_back e" "canonical e (fresh_uuid e (w_ticks w + 3))"
    and "decode_deposit h = Inr req" "\<not> is_multipart h" "depositable e w req c acct omni corr rules"
    and "happy e (request_detail h req acct corr rules
           (new_transfer e (w_ticks w + 3) (a_id acct) (a_id omni) (c_id corr) c)) c (w_db w)"
    and "a_id omni \<noteq> a_id acct"
  shows "\<exists>w' r. run (serve (RqCreateDeposit '''' h)) e w =
      (Done (writeJSON 201 (JObj (transferToJSON (scanTransferFull r)))), w') \<and>
    transfer_of (w_db w') (fresh_uuid e (w_ticks w + 3)) = Some r \<and> t_state r = FundsPosted \<and>
    t_amount r = Num c \<and> t_account_id r = a_id acct \<and> t_from_account_id r = a_id omni \<and>
    (\<forall>a. balance (ledger_entries (w_db w')) a = balance (ledger_entries (w_db w)) a +
       (if a = a_id acct then c else if a = a_id omni then - c else 0))"
proof -
  define row where "row = new_transfer e (w_ticks w + 3) (a_id acct) (a_id omni) (c_id corr) c"
  define w1 where "w1 = w\<lparr>w_ticks := w_ticks w + 4, w_db := (w_db w)\<lparr>transfers := transfers (w_db w) @ [row]\<rparr>\<rparr>"
  have row: "t_id row = fresh_uuid e (w_ticks w + 3)" "t_state row = Requested" "t_amount row = Num c"
    "t_account_id row = a_id acct" "t_from_account_id row = a_id omni"
    by (simp_all add: row_def new_transfer_def)
  have "transfer_of (w_db w1) (t_id row) = Some row"
    using assms(6) by (simp add: w1_def depositable_def row(1) db_simps)
  moreover have "happy e (request_detail h req acct corr rules row) c (w_db w1)"
    using assms(7) unfolding row_def [symmetric] by (subst happy_same_tables) (simp_all add: w1_def)
  moreover have "omnibus_of (c_id corr) (accounts (w_db w1)) = Some omni"
    using assms(6) by (simp add: depositable_def w1_def)
  ultimately have "returns (run_deposit h req acct (c_id corr) (corr_of corr rules) (scanTransfer row)) e w1
      (\<lambda>rs w'. \<exists>r new. transfer_of (w_db w') (t_id row) = Some r \<and> t_state r = FundsPosted \<and> same_identity row r \<and>
        rs = writeJSON 201 (JObj (transferToJSON (scanTransferFull r))) \<and>
        ledger_entries (w_db w') = ledger_entries (w_db w1) @ new \<and>
        posting EntryTypeProvisionalCredit (Num c) (a_id omni) (a_id acct) ''FREE'' (t_id row) new)"
    using assms(1,3,5) row(1,2) by (intro run_deposit_clean) simp_all
  then obtain rs w' r new where res:
    "run (run_deposit h req acct (c_id corr) (corr_of corr rules) (scanTransfer row)) e w1 = (Done rs, w')"
    "transfer_of (w_db w') (t_id row) = Some r" "t_state r = FundsPosted" "same_identity row r"
    "rs = writeJSON 201 (JObj (transferToJSON (scanTransferFull r)))"
    "ledger_entries (w_db w') = ledger_entries (w_db w) @ new"
    "posting EntryTypeProvisionalCredit (Num c) (a_id omni) (a_id acct) ''FREE'' (t_id row) new"
    by (auto simp: returns_def w1_def split: prod.splits outcome.splits)
  have "run (serve (RqCreateDeposit '''' h)) e w = (Done rs, w')"
    using CreateDeposit_creates [OF assms(1,2,4,6)] res(1)
    unfolding row_def w1_def by (simp add: Idempotency_def)
  moreover have "balance new a = (if a = a_id omni then - c else if a = a_id acct then c else 0)" for a
    using posting_balance [OF res(7) assms(8)] .
  ultimately show ?thesis
    using res row assms(8) by (auto simp: same_identity_def balance_append)
qed

theorem clean_post_is_funded_witness:
  "\<exists>w' r. run (serve (RqCreateDeposit '''' (json_deposit 10000))) demo_env (demo_world [] []) =
      (Done (writeJSON 201 (JObj (transferToJSON (scanTransferFull r)))), w') \<and>
    transfer_of (w_db w') (demo_uuid 3) = Some r \<and> t_state r = FundsPosted \<and> t_amount r = Num 10000 \<and>
    balance (ledger_entries (w_db w')) alpha_001 = 10000"
proof -
  let ?w = "demo_world [] []"
  have "canonical demo_env (fresh_uuid demo_env (w_ticks ?w + 3))" by (simp add: demo_canonical)
  note funded = clean_post_is_funded [OF demo_fault_free demo_shortest_reads_back this json_deposit_simps(3,1) demo_depositable]
  have "clean_pass (demo_vss rq) (of_cents 10000)" if "vq_Amount rq = of_cents 10000" for rq
    using of_cents_dollars [of 100] that by (simp add: clean_pass_def demo_vss_def)
  then have "happy demo_env (request_detail (json_deposit 10000) \<lparr>dr_AccountCode = ''ALPHA-001'',
      dr_Amount = of_cents 10000, dr_Scenario = []\<rparr> (seed_account alpha_001 ''ALPHA-001'' (Some alpha) ''INDIVIDUAL'')
      \<lparr>c_id = alpha, c_code = ''ALPHA'', c_name = ''Alpha Brokerage'', c_rules_config = Some seed_rules\<rparr>
      seed_rules row) 10000 (w_db ?w)" for row
    using demo_limit demo_fresh_window
    by (simp add: happy_def vendor_request_def) (simp add: seed_account_def seed_accounts_rows_def db_simps)
  from funded [OF _ _ _ _ _ refl this]
  show ?thesis by (auto simp: demo_canonical seed_account_def balance_def)
qed


section \<open>Refused requests\<close>

lemma rs_Status_simps [simp]: "rs_Status (writeJSON n v) = n" "rs_Status (error_json n msg) = n"
  by (simp_all add: writeJSON_def error_json_def)

lemma run_deposit_status:
  assumes "run (run_deposit h req acct corrID corr t) e w = (Done rs, w')"
  shows "rs_Status rs \<in> {500, 201}"
  using assms unfolding run_deposit_def by (elim run_ignoringE run_bindE) (auto split: sum.splits)

lemma create_transfer_status:
  assumes "run (create_transfer h req acct corrID) e w = (Done rs, w')"
  shows "rs_Status rs \<in> {500, 201}"
  using assms unfolding create_transfer_def
  by (auto elim!: run_bindE split: sum.splits dest!: run_deposit_status)

text \<open>C35. A deposit request that is answered with 400 or 404 has left no trace: no transfer, no event, no
  entry and no file, whatever calls failed. Such are the bodies that do not parse, the amounts that are not
  positive, a missing or unknown account and an account without correspondent.\<close>

theorem refused_deposits_leave_no_trace:
  assumes "run (CreateDeposit h) e w = (Done rs, w')"
  shows "(rs_Status rs \<in> {400, 404} \<longrightarrow> w_db w' = w_db w \<and> w_files w' = w_files w) \<and>
    (\<forall>msg. decode_deposit h = Inl msg \<longrightarrow> rs_Status rs = 400) \<and>
    (\<forall>req. decode_deposit h = Inr req \<longrightarrow>
      f_le (dr_Amount req) (Fin 0) \<or> dr_AccountCode req = '''' \<longrightarrow> rs_Status rs = 400) \<and>
    (\<forall>req. decode_deposit h = Inr req \<longrightarrow> check_deposit req = None \<longrightarrow>
      row_of a_code (dr_AccountCode req) (accounts (w_db w)) = None \<longrightarrow> rs_Status rs = 404)"
proof (cases "decode_deposit h")
  case (Inl msg)
  with assms show ?thesis by (auto simp: CreateDeposit_def)
next
  case (Inr req)
  show ?thesis
  proof (cases "check_deposit req")
    case (Some msg)
    with assms Inr show ?thesis by (auto simp: CreateDeposit_def)
  next
    case None
    let ?find = "sql (\<lambda>e n d. Inr (row_of a_code (dr_AccountCode req) (accounts d), d))"
    obtain out w1 where q: "run ?find e w = (out, w1)" by force
    have files: "w_files w1 = w_files w"
      using q by (auto simp: sql_def run_atomic Let_def commit_def split: fault.splits)
    have amount: "\<not> (f_le (dr_Amount req) (Fin 0) \<or> dr_AccountCode req = '''')"
      using None by (auto simp: check_deposit_def split: if_splits)
    have "\<forall>n d r d'. (\<lambda>e n d. Inr (row_of a_code (dr_AccountCode req) (accounts d), d)) e n d = Inr (r, d') \<longrightarrow> d' = d"
      by simp
    with q show ?thesis
    proof (cases rule: run_query_cases)
      case (1 err)
      with assms q Inr None files amount show ?thesis
        by (auto simp: CreateDeposit_def GetByCode_def run_bind scanAccount_def)
    next
      case (2 r)
      with assms q Inr None files amount show ?thesis
        by (cases r) (auto simp: CreateDeposit_def GetByCode_def run_bind scanAccount_def
            dest!: create_transfer_status split: option.splits)
    qed
  qed
qed

theorem refused_deposits_leave_no_trace_witness:
  "\<exists>rs w'. run (CreateDeposit (json_deposit (- 500))) demo_env (demo_world [] []) = (Done rs, w') \<and>
     rs_Status rs = 400 \<and> w_db w' = w_db (demo_world [] [])"
proof -
  let ?w = "demo_world [] []"
  have neg: "f_le (of_cents (- 500)) (Fin 0)" using of_cents_dollars [of "- 5"] by simp
  then have "\<exists>rs w'. run (CreateDeposit (json_deposit (- 500))) demo_env ?w = (Done rs, w')"
    by (simp add: CreateDeposit_def check_deposit_def)
  then obtain rs w' where run: "run (CreateDeposit (json_deposit (- 500))) demo_env ?w = (Done rs, w')" by blast
  from refused_deposits_leave_no_trace [OF run] neg have "rs_Status rs = 400 \<and> w_db w' = w_db ?w" by simp
  with run show ?thesis by blast
qed

end
