(* ===== verification/StubServers.thy ===== *)
theory StubServers
  imports DepositSpec Server
begin

text \<open>
  The two servers that stand for the outside in the demo: the Vendor Service of \<open>cmd/vendor-stub/handler.go\<close>
  and the settlement bank of \<open>cmd/settlement-stub/main.go\<close>. Their replies have the types of the parameters
  \<open>vendor\<close>, \<open>bank\<close> and \<open>bank_return\<close> of the environment, so that the API can be run against them. Parsing
  \<open>scenarios.yaml\<close> is left to the YAML library, a parameter \<open>unmarshal\<close>. The API reads the same file for
  \<open>GET /scenarios\<close> (\<open>cmd/api/handlers/scenarios.go\<close>).
\<close>

section \<open>Vendor Service: scenarios\<close>

definition accountIDToCode :: "string \<rightharpoonup> string" where
  "accountIDToCode =
     [''a0000000-0000-0000-0000-000000000001'' \<mapsto> ''ALPHA-001'',
      ''a0000000-0000-0000-0000-000000000002'' \<mapsto> ''ALPHA-002'',
      ''a0000000-0000-0000-0000-000000000003'' \<mapsto> ''ALPHA-003'',
      ''a0000000-0000-0000-0000-000000000004'' \<mapsto> ''ALPHA-004'',
      ''a0000000-0000-0000-0000-000000000005'' \<mapsto> ''ALPHA-005'',
      ''a0000000-0000-0000-0000-000000000006'' \<mapsto> ''ALPHA-IRA'',
      ''a0000000-0000-0000-0000-000000000007'' \<mapsto> ''BETA-001'',
      ''a0000000-0000-0000-0000-000000000008'' \<mapsto> ''BETA-002'',
      ''a0000000-0000-0000-0000-000000000009'' \<mapsto> ''BETA-IRA'']"

record scenarioResponse =
  sc_IQAStatus :: string
  sc_IQAErrorType :: "string option"
  sc_MICRData :: "MICRData option"
  sc_OCRAmountOverride :: "float64 option"
  sc_ConfidenceScore :: float64
  sc_DuplicateFlag :: bool
  sc_DuplicateOriginalTxID :: "string option"

record scenario =
  sn_Name :: string
  sn_TriggerAccount :: string
  sn_Response :: scenarioResponse

record vendor_handler =
  vh_byCode :: "string \<rightharpoonup> scenario"
  vh_byName :: "string \<rightharpoonup> scenario"
  vh_seq :: nat

text \<open>A later scenario replaces an earlier one with the same key.\<close>

definition newHandler ::
  "(string \<Rightarrow> go_error + scenario list) \<Rightarrow> string \<Rightarrow> go_error + string \<Rightarrow> go_error + vendor_handler" where
  "newHandler unmarshal path data =
     (case data of
        Inl err \<Rightarrow> Inl (EWrap (''read '' @ path) err)
      | Inr txt \<Rightarrow>
          (case unmarshal txt of
             Inl err \<Rightarrow> Inl (EWrap (''parse '' @ path) err)
           | Inr ss \<Rightarrow> Inr \<lparr>vh_byCode = foldl (\<lambda>m s. m(sn_TriggerAccount s \<mapsto> s)) Map.empty ss,
                         vh_byName = foldl (\<lambda>m s. m(sn_Name s \<mapsto> s)) Map.empty ss, vh_seq = 0\<rparr>))"

text \<open>\<open>main\<close> of the stub goes on without scenarios when they do not load.\<close>

definition stub_handler :: "go_error + vendor_handler \<Rightarrow> vendor_handler" where
  "stub_handler r =
     (case r of Inl err \<Rightarrow> \<lparr>vh_byCode = Map.empty, vh_byName = Map.empty, vh_seq = 0\<rparr> | Inr h \<Rightarrow> h)"

section \<open>GET /scenarios of the API\<close>

record scenarioEntry =
  sy_Name :: string
  sy_Description :: string
  sy_TriggerAccount :: string

text \<open>A file without scenarios leaves a nil slice (\<open>None\<close>), which is encoded as \<open>null\<close>.\<close>

definition NewScenariosHandler ::
  "(string \<Rightarrow> go_error + scenarioEntry list option) \<Rightarrow> go_error + string \<Rightarrow> go_error + scenarioEntry list option" where
  "NewScenariosHandler unmarshal data = (case data of Inl err \<Rightarrow> Inl err | Inr txt \<Rightarrow> unmarshal txt)"

definition scenario_json :: "scenarioEntry \<Rightarrow> jval" where
  "scenario_json s = JObj [(''name'', JStr (sy_Name s)), (''description'', JStr (sy_Description s)),
     (''trigger_account'', JStr (sy_TriggerAccount s))]"

definition Scenarios_List :: "scenarioEntry list option \<Rightarrow> response" where
  "Scenarios_List ss = writeJSON 200 (case ss of None \<Rightarrow> JNull | Some xs \<Rightarrow> JArr (map scenario_json xs))"

text \<open>The route exists only when the file was loaded.\<close>

definition serve_scenarios :: "go_error + scenarioEntry list option \<Rightarrow> response" where
  "serve_scenarios h = (case h of Inl err \<Rightarrow> http_Error ''404 page not found'' 404 | Inr ss \<Rightarrow> Scenarios_List ss)"

section \<open>Vendor Service: POST /validate\<close>

definition int_text :: "int \<Rightarrow> string" where
  "int_text i = (if i < 0 then ''-'' else '''') @ nat_text (nat \<bar>i\<bar>)"

text \<open>\<open>fmt.Sprintf("vss-%d-%d", time.Now().UnixMilli(), h.seq.Add(1))\<close>; \<open>n\<close> is the counter after the addition.\<close>

definition transaction_id :: "instant \<Rightarrow> nat \<Rightarrow> string" where
  "transaction_id now n = ''vss-'' @ int_text (now div 10 ^ 6) @ ''-'' @ nat_text n"

text \<open>The scenario of a request, or the status and text of the error.\<close>

definition route :: "vendor_handler \<Rightarrow> string \<Rightarrow> ValidateRequest \<Rightarrow> (nat \<times> string) + scenario" where
  "route h xscenario req =
     (if xscenario \<noteq> '''' then
        (case vh_byName h xscenario of
           None \<Rightarrow> Inl (404, ''unknown scenario: '' @ xscenario) | Some s \<Rightarrow> Inr s)
      else
        (case accountIDToCode (vq_AccountID req) of
           None \<Rightarrow> Inl (404, ''unknown account_id: '' @ vq_AccountID req)
         | Some code \<Rightarrow>
             (case vh_byCode h code of
                None \<Rightarrow> Inl (404, ''no scenario for account code: '' @ code) | Some s \<Rightarrow> Inr s)))"

definition scenario_response :: "scenario \<Rightarrow> ValidateRequest \<Rightarrow> string \<Rightarrow> ValidateResponse" where
  "scenario_response s req tx =
     \<lparr>IQAStatus = sc_IQAStatus (sn_Response s), IQAErrorType = sc_IQAErrorType (sn_Response s),
      vs_MICRData = sc_MICRData (sn_Response s),
      OCRAmount = (case sc_OCRAmountOverride (sn_Response s) of None \<Rightarrow> vq_Amount req | Some a \<Rightarrow> a),
      ConfidenceScore = sc_ConfidenceScore (sn_Response s), DuplicateFlag = sc_DuplicateFlag (sn_Response s),
      DuplicateOriginalTxID = sc_DuplicateOriginalTxID (sn_Response s), TransactionID = tx,
      ScenarioUsed = sn_Name s\<rparr>"

text \<open>A body that does not decode is \<open>None\<close>; a number that JSON cannot carry leaves the reply without a body.\<close>

definition validate ::
  "vendor_handler \<Rightarrow> string \<Rightarrow> ValidateRequest option \<Rightarrow> instant \<Rightarrow> ValidateResponse http_reply \<times> vendor_handler" where
  "validate h xscenario body now =
     (case body of
        None \<Rightarrow> (HttpReply 400 None, h)
      | Some req \<Rightarrow>
          (case route h xscenario req of
             Inl (status, msg) \<Rightarrow> (HttpReply status None, h)
           | Inr s \<Rightarrow>
               let n = vh_seq h + 1; resp = scenario_response s req (transaction_id now n) in
               (HttpReply 200 (if json_number_ok (OCRAmount resp) \<and> json_number_ok (ConfidenceScore resp)
                               then Some resp else None), h\<lparr>vh_seq := n\<rparr>)))"

section \<open>Settlement bank\<close>

text \<open>\<open>now.Format(time.RFC3339)\<close> keeps whole seconds.\<close>

definition rfc3339 :: "instant \<Rightarrow> instant" where
  "rfc3339 t = t - t mod 10 ^ 9"

record submitResponse =
  sub_BatchID :: string
  sub_Status :: string
  sub_AcknowledgedAt :: instant
  sub_ReturnWindowExpiresAt :: instant

text \<open>The decoded body is the batch id; the file is not looked at. \<open>gen\<close> is the generated id.\<close>

definition handleSubmit :: "string option \<Rightarrow> string \<Rightarrow> instant \<Rightarrow> submitResponse http_reply" where
  "handleSubmit body gen now =
     (case body of
        None \<Rightarrow> HttpReply 400 None
      | Some b \<Rightarrow> HttpReply 200 (Some \<lparr>sub_BatchID = (if b = '''' then gen else b), sub_Status = ''ACKNOWLEDGED'',
          sub_AcknowledgedAt = rfc3339 now, sub_ReturnWindowExpiresAt = rfc3339 (now + 48 * 3600 * 10 ^ 9)\<rparr>))"

text \<open>\<open>handleReturn\<close>: the checks, then the callback to \<open>POST /returns\<close> of the API with the bearer token, whose
  answer is passed on. \<open>genv\<close> is the environment of the stub's process, \<open>api_returns\<close> the HTTP call.\<close>

definition handleReturn ::
  "(string \<Rightarrow> string) \<Rightarrow> (string \<times> string) option \<Rightarrow> (returnRequest \<Rightarrow> string \<Rightarrow> (go_error + response) prog)
     \<Rightarrow> response prog" where
  "handleReturn genv body api_returns =
     (case body of
        None \<Rightarrow> Ret (http_Error (error_text ''invalid JSON'') 400)
      | Some (i, code) \<Rightarrow>
          if i = '''' \<or> code = ''''
          then Ret (http_Error (error_text ''transfer_id and return_reason_code are required'') 400)
          else if genv ''SETTLEMENT_BANK_TOKEN'' = ''''
          then Ret (http_Error (error_text ''SETTLEMENT_BANK_TOKEN not configured'') 500)
          else bind (api_returns \<lparr>rr_TransferID = i, rr_ReturnReasonCode = code\<rparr>
                       (''Bearer '' @ genv ''SETTLEMENT_BANK_TOKEN''))
                 (\<lambda>r. Ret (case r of
                     Inl err \<Rightarrow> http_Error (error_text ''callback failed'') 502
                   | Inr rs \<Rightarrow> rs)))"

end
