(* ===== verification/Routes.thy ===== *)
theory Routes
  imports StubServers
begin

text \<open>
  The request multiplexer of \<open>cmd/api/main.go\<close>: the patterns that \<open>main\<close> registers, how \<open>http.ServeMux\<close> finds
  one, the CORS middleware and the \<open>/api\<close> prefix. A path is the list of its segments after the first slash, so
  \<open>/deposits/\<close> is \<open>[''deposits'', '''']\<close>; the segments carry no percent escapes.
\<close>

section \<open>Requests\<close>

text \<open>What the handlers read of a request: the headers, the query and the body as each handler decodes it.
  \<open>hr_Order\<close> is the order in which a settlement run ranges over its map.\<close>

record http_request =
  hr_Method :: string
  hr_Path :: "string list"
  hr_Authorization :: string
  hr_IdempotencyKey :: string
  hr_Query :: "string \<Rightarrow> string"
  hr_QueueQuery :: queue_query
  hr_Deposit :: deposit_http
  hr_Return :: "returnRequest option"
  hr_Action :: "actionRequest option"
  hr_Simulate :: "(string \<times> string) option"
  hr_Order :: "string list \<Rightarrow> string list"

text \<open>A redirect to a path, the response of a handler, or an open event stream.\<close>

datatype reply = Redirect "string list" | Reply "response prog" | EventStream

section \<open>Patterns\<close>

datatype segment = Lit string | Wild

fun match_path :: "segment list \<Rightarrow> string list \<Rightarrow> string list option" where
  "match_path [] [] = Some []"
| "match_path (Lit l # ps) (s # ss) = (if s = l then match_path ps ss else None)"
| "match_path (Wild # ps) (s # ss) = (if s = '''' then None else map_option (Cons s) (match_path ps ss))"
| "match_path _ _ = None"

text \<open>A pattern for GET also matches HEAD.\<close>

definition match_method :: "string \<Rightarrow> string \<Rightarrow> bool" where
  "match_method pm m \<longleftrightarrow> m = pm \<or> pm = ''GET'' \<and> m = ''HEAD''"

datatype endpoint = Endpoint request | ScenarioList | Events

type_synonym route = "string \<times> segment list \<times> (http_request \<Rightarrow> string list \<Rightarrow> endpoint)"

definition deposit_routes :: "route list" where
  "deposit_routes =
     [(''GET'', [Lit ''health''], \<lambda>r vs. Endpoint RqHealth),
      (''GET'', [Lit ''deposits''], \<lambda>r vs. Endpoint (RqListDeposits (hr_Query r ''account_id''))),
      (''POST'', [Lit ''deposits''], \<lambda>r vs. Endpoint (RqCreateDeposit (hr_IdempotencyKey r) (hr_Deposit r))),
      (''GET'', [Lit ''deposits'', Wild], \<lambda>r vs. Endpoint (RqGetDeposit (vs ! 0))),
      (''GET'', [Lit ''deposits'', Wild, Lit ''events''], \<lambda>r vs. Endpoint (RqGetDepositEvents (vs ! 0))),
      (''GET'', [Lit ''deposits'', Wild, Lit ''images'', Wild], \<lambda>r vs. Endpoint (RqGetDepositImage (vs ! 0) (vs ! 1))),
      (''GET'', [Lit ''accounts''], \<lambda>r vs. Endpoint RqListAccounts),
      (''GET'', [Lit ''accounts'', Wild], \<lambda>r vs. Endpoint (RqGetAccount (vs ! 0))),
      (''POST'', [Lit ''returns''], \<lambda>r vs. Endpoint (RqReturn (hr_Return r) (hr_Authorization r)))]"

definition operations_routes :: "route list" where
  "operations_routes =
     [(''GET'', [Lit ''ledger'', Lit ''balances''], \<lambda>r vs. Endpoint RqLedgerBalances),
      (''GET'', [Lit ''ledger'', Lit ''entries''], \<lambda>r vs. Endpoint (RqLedgerEntries (hr_Query r ''transfer_id''))),
      (''GET'', [Lit ''health'', Lit ''ledger''], \<lambda>r vs. Endpoint RqHealthLedger),
      (''GET'', [Lit ''health'', Lit ''settlement''], \<lambda>r vs. Endpoint RqHealthSettlement),
      (''POST'', [Lit ''health'', Lit ''settlement'', Lit ''trigger''], \<lambda>r vs. Endpoint RqHealthSettlementTrigger),
      (''GET'', [Lit ''events'', Lit ''stream''], \<lambda>r vs. Events),
      (''GET'', [Lit ''operator'', Lit ''queue''], \<lambda>r vs. Endpoint (RqOperatorQueue (hr_QueueQuery r) (hr_Authorization r))),
      (''POST'', [Lit ''operator'', Lit ''actions''], \<lambda>r vs. Endpoint (RqOperatorAction (hr_Action r) (hr_Authorization r))),
      (''POST'', [Lit ''settlement'', Lit ''trigger''], \<lambda>r vs. Endpoint (RqSettlementTrigger (hr_Order r))),
      (''GET'', [Lit ''settlement'', Lit ''status''], \<lambda>r vs. Endpoint RqSettlementStatus),
      (''GET'', [Lit ''settlement'', Lit ''batches''], \<lambda>r vs. Endpoint RqSettlementBatches),
      (''POST'', [Lit ''admin'', Lit ''simulate-return''], \<lambda>r vs. Endpoint (RqSimulateReturn (hr_Simulate r))),
      (''GET'', [Lit ''notifications''], \<lambda>r vs. Endpoint (RqNotifications (hr_Authorization r))),
      (''PATCH'', [Lit ''notifications'', Wild, Lit ''read''], \<lambda>r vs. Endpoint (RqMarkRead (vs ! 0) (hr_Authorization r)))]"

text \<open>\<open>GET /scenarios\<close> is registered only when the scenario file was loaded.\<close>

type_synonym scenarios = "go_error + scenarioEntry list option"

definition routes :: "scenarios \<Rightarrow> route list" where
  "routes scen = deposit_routes @ operations_routes @
     (case scen of Inl err \<Rightarrow> [] | Inr ss \<Rightarrow> [(''GET'', [Lit ''scenarios''], \<lambda>r vs. ScenarioList)])"

section \<open>The multiplexers\<close>

fun find_route :: "route list \<Rightarrow> http_request \<Rightarrow> endpoint option" where
  "find_route [] r = None"
| "find_route ((m, p, h) # rts) r =
     (case (if match_method m (hr_Method r) then match_path p (hr_Path r) else None) of
        Some vs \<Rightarrow> Some (h r vs)
      | None \<Rightarrow> find_route rts r)"

definition serve_endpoint :: "scenarios \<Rightarrow> endpoint \<Rightarrow> reply" where
  "serve_endpoint scen ep =
     (case ep of Endpoint rq \<Rightarrow> Reply (serve rq) | ScenarioList \<Rightarrow> Reply (Ret (serve_scenarios scen)) | Events \<Rightarrow> EventStream)"

text \<open>\<open>path.Clean\<close> as \<open>ServeMux\<close> uses it; a path that is not clean is redirected, except for CONNECT.\<close>

fun clean_segments :: "string list \<Rightarrow> string list \<Rightarrow> string list" where
  "clean_segments acc [] = rev acc"
| "clean_segments acc (s # ss) =
     (if s = '''' \<or> s = ''.'' then clean_segments acc ss
      else if s = ''..'' then clean_segments (tl acc) ss
      else clean_segments (s # acc) ss)"

definition clean_path :: "string list \<Rightarrow> string list" where
  "clean_path p =
     (let c = clean_segments [] p in if c = [] then [''''] else if last p = '''' then c @ [''''] else c)"

definition redirected :: "http_request \<Rightarrow> bool" where
  "redirected r \<longleftrightarrow> hr_Method r \<noteq> ''CONNECT'' \<and> clean_path (hr_Path r) \<noteq> hr_Path r"

definition mux :: "scenarios \<Rightarrow> http_request \<Rightarrow> reply" where
  "mux scen r =
     (if redirected r then Redirect (clean_path (hr_Path r))
      else (case find_route (routes scen) r of
          Some ep \<Rightarrow> serve_endpoint scen ep
        | None \<Rightarrow>
            if list_ex (\<lambda>(m, p, h). match_path p (hr_Path r) \<noteq> None) (routes scen)
            then Reply (Ret (http_Error ''Method Not Allowed'' 405))
            else Reply (Ret (http_Error ''404 page not found'' 404))))"

definition corsMiddleware :: "(http_request \<Rightarrow> reply) \<Rightarrow> http_request \<Rightarrow> reply" where
  "corsMiddleware nxt r = (if hr_Method r = ''OPTIONS'' then Reply (serve RqOptions) else nxt r)"

text \<open>\<open>apiMux\<close>: the subtree \<open>/api/\<close> without its prefix, and everything else. A subtree pattern redirects its
  path without the last slash.\<close>

definition apiMux :: "scenarios \<Rightarrow> http_request \<Rightarrow> reply" where
  "apiMux scen r =
     (if redirected r then Redirect (clean_path (hr_Path r))
      else (case hr_Path r of
          s # rest \<Rightarrow>
            if s = ''api'' then
              (if rest = [] then Redirect [''api'', '''']
               else corsMiddleware (mux scen) (r\<lparr>hr_Path := rest\<rparr>))
            else corsMiddleware (mux scen) r
        | [] \<Rightarrow> corsMiddleware (mux scen) r))"

end
