(* ===== verification/RouteProperties.thy ===== *)
theory RouteProperties
  imports HandlerProperties Routes
begin

text \<open>
  The properties of the routing: which requests reach which handler, and what a request without credentials
  can do.
\<close>

section \<open>Matching\<close>

lemma match_path_simps [simp]:
  "match_path [] path = Some vs \<longleftrightarrow> path = [] \<and> vs = []"
  "match_path (Lit l # ps) path = Some vs \<longleftrightarrow> (\<exists>ss. path = l # ss \<and> match_path ps ss = Some vs)"
  "match_path (Wild # ps) path = Some vs \<longleftrightarrow>
     (\<exists>s ss ws. path = s # ss \<and> s \<noteq> '''' \<and> vs = s # ws \<and> match_path ps ss = Some ws)"
  by (cases path; auto)+


text \<open>Two patterns that match the same path agree segment by segment.\<close>

fun overlap :: "segment list \<Rightarrow> segment list \<Rightarrow> bool" where
  "overlap [] [] = True"
| "overlap (Lit a # p) (Lit b # q) = (a = b \<and> overlap p q)"
| "overlap (Wild # p) (s # q) = overlap p q"
| "overlap (Lit a # p) (Wild # q) = overlap p q"
| "overlap _ _ = False"

lemma match_overlap: "match_path p ss = Some vs \<Longrightarrow> match_path q ss = Some ws \<Longrightarrow> overlap p q"
proof (induction p q arbitrary: ss vs ws rule: overlap.induct)
  case (3 p s q)
  then show ?case by (cases s) auto
qed auto

definition compatible :: "route \<Rightarrow> route \<Rightarrow> bool" where
  "compatible a b \<longleftrightarrow> \<not> (fst a = fst b \<and> overlap (fst (snd a)) (fst (snd b)))"

lemma routes_compatible: "sorted_wrt compatible (routes scen)"
  by (simp add: routes_def deposit_routes_def operations_routes_def compatible_def split: sum.split)

lemma routes_methods: "rt \<in> set (routes scen) \<Longrightarrow> fst rt \<in> {''GET'', ''POST'', ''PATCH''}"
  by (auto simp: routes_def deposit_routes_def operations_routes_def split: sum.splits)

section \<open>Clean paths\<close>

definition plain_segment :: "string \<Rightarrow> bool" where
  "plain_segment s \<longleftrightarrow> s \<notin> {'''', ''.'', ''..''}"

lemma clean_segments_plain:
  "list_all plain_segment acc \<Longrightarrow> list_all plain_segment (clean_segments acc p)"
proof (induction acc p rule: clean_segments.induct)
  case (2 acc s ss)
  then show ?case by (cases acc) (auto simp: plain_segment_def)
qed (simp add: list_all_iff)

lemma clean_segments_id:
  "list_all plain_segment p \<Longrightarrow> clean_segments acc p = rev acc @ p"
  "list_all plain_segment p \<Longrightarrow> clean_segments acc (p @ ['''']) = rev acc @ p"
  by (induction p arbitrary: acc) (auto simp: plain_segment_def)

lemma clean_path_prefix:
  assumes "clean_path p = p"
  shows "clean_path (''api'' # p) = ''api'' # p"
proof -
  define c where "c = clean_segments [] p"
  have c: "list_all plain_segment c" unfolding c_def by (rule clean_segments_plain) simp
  have api: "plain_segment ''api''" by (simp add: plain_segment_def)
  have "p = c \<and> c \<noteq> [] \<or> p = c @ ['''']"
    using assms unfolding clean_path_def c_def [symmetric] Let_def by (auto split: if_splits)
  then show ?thesis
  proof
    assume p: "p = c \<and> c \<noteq> []"
    then have "last c \<noteq> ''''" using c by (metis last_in_set list_all_iff plain_segment_def insertI1)
    then show ?thesis
      using p c api clean_segments_id(1) [of "''api'' # c" "[]"] by (simp add: clean_path_def Let_def)
  next
    assume p: "p = c @ ['''']"
    then show ?thesis
      using c api clean_segments_id(2) [of "''api'' # c" "[]"] by (simp add: clean_path_def Let_def)
  qed
qed

definition route_matches :: "route \<Rightarrow> http_request \<Rightarrow> bool" where
  "route_matches rt r \<longleftrightarrow> match_method (fst rt) (hr_Method r) \<and> match_path (fst (snd rt)) (hr_Path r) \<noteq> None"

text \<open>C27. The routing is a function of the request alone: no two registered patterns match the same request, so
  the order of registration does not matter, and a clean path reaches the same handler with the same request
  whether it comes with the prefix \<open>/api\<close> or without it.\<close>

theorem routing_is_unambiguous:
  shows "(\<forall>i < length (routes scen). \<forall>j < length (routes scen).
      route_matches (routes scen ! i) r \<longrightarrow> route_matches (routes scen ! j) r \<longrightarrow> i = j) \<and>
    (clean_path (hr_Path r) = hr_Path r \<longrightarrow> hd (hr_Path r) \<noteq> ''api'' \<longrightarrow>
      apiMux scen (r\<lparr>hr_Path := ''api'' # hr_Path r\<rparr>) = apiMux scen r)"
proof (intro conjI allI impI)
  have no: "\<not> i < j" if "i < length (routes scen)" "j < length (routes scen)"
    "route_matches (routes scen ! i) r" "route_matches (routes scen ! j) r" for i j
  proof
    assume "i < j"
    with routes_compatible [of scen] that(2) have "compatible (routes scen ! i) (routes scen ! j)"
      by (simp add: sorted_wrt_nth_less)
    moreover have "fst (routes scen ! i) = fst (routes scen ! j)"
      using that(3,4) routes_methods [OF nth_mem [OF that(1)]] routes_methods [OF nth_mem [OF that(2)]]
      by (auto simp: match_method_def route_matches_def)
    moreover have "overlap (fst (snd (routes scen ! i))) (fst (snd (routes scen ! j)))"
      using that(3,4) by (auto simp: route_matches_def intro: match_overlap)
    ultimately show False by (simp add: compatible_def)
  qed
  fix i j
  assume "i < length (routes scen)" "j < length (routes scen)"
    "route_matches (routes scen ! i) r" "route_matches (routes scen ! j) r"
  then show "i = j" by (meson no linorder_neqE_nat)
next
  assume p: "clean_path (hr_Path r) = hr_Path r" "hd (hr_Path r) \<noteq> ''api''"
  then have ne: "hr_Path r \<noteq> []" by (auto simp: clean_path_def Let_def)
  then have "apiMux scen (r\<lparr>hr_Path := ''api'' # hr_Path r\<rparr>) = corsMiddleware (mux scen) r"
    using clean_path_prefix [OF p(1)] by (simp add: apiMux_def redirected_def)
  moreover have "apiMux scen r = corsMiddleware (mux scen) r"
    using p ne by (cases "hr_Path r") (auto simp: apiMux_def redirected_def)
  ultimately show "apiMux scen (r\<lparr>hr_Path := ''api'' # hr_Path r\<rparr>) = apiMux scen r" by simp
qed

text \<open>A request without a body.\<close>

definition demo_request :: "string \<Rightarrow> string list \<Rightarrow> http_request" where
  "demo_request m p =
     \<lparr>hr_Method = m, hr_Path = p, hr_Authorization = '''', hr_IdempotencyKey = '''', hr_Query = (\<lambda>k. ''''),
      hr_QueueQuery = \<lparr>qq_MinAmount = None, qq_MaxAmount = None, qq_AccountID = '''', qq_SortBy = ''''\<rparr>,
      hr_Deposit = json_deposit 10000, hr_Return = None, hr_Action = None, hr_Simulate = None, hr_Order = (\<lambda>ks. ks)\<rparr>"

theorem routing_is_unambiguous_witness:
  "apiMux (Inl ErrNotFound) (demo_request ''GET'' [''api'', ''deposits'', check1]) =
     apiMux (Inl ErrNotFound) (demo_request ''GET'' [''deposits'', check1])"
proof -
  have "clean_path [''deposits'', check1] = [''deposits'', check1]"
    by (simp add: clean_path_def check1_def)
  then show ?thesis
    using routing_is_unambiguous [of "Inl ErrNotFound" "demo_request ''GET'' [''deposits'', check1]"]
    by (simp add: demo_request_def)
qed

section \<open>Requests without credentials\<close>





















end
