(* ===== verification/OperatorProperties.thy ===== *)
theory OperatorProperties
  imports HandlerProperties
begin

text \<open>
  What an operator's decision on a transfer in review does: an approval posts exactly the amount, a
  rejection moves nothing, and a transfer that is still in validation counts as reviewable but cannot be
  approved.
\<close>

section \<open>The decision\<close>

text \<open>The operator of a token may decide on transfers of its correspondent; the administrator on all.\<close>

definition may_decide :: "DemoToken \<Rightarrow> transfer_row \<Rightarrow> bool" where
  "may_decide dt r \<longleftrightarrow> dt_CorrespondentID dt = '''' \<or> dt_CorrespondentID dt = t_correspondent_id r"

lemma run_PostAction:
  assumes "fault_free e" "canonical e (ac_TransferID req)" "transfer_of (w_db w) (ac_TransferID req) = Some r"
    and "ac_TransferID req \<noteq> ''''" "ac_Action req = ''APPROVE'' \<or> ac_Action req = ''REJECT''"
    and "may_decide dt r" "isReviewable (scanTransferFull r)"
    and "demoTokens tok = Some dt"
  shows "run (serve (RqOperatorAction (Some req) (''Bearer '' @ tok))) e w =
    run (perform_action (OperatorIDFromContext (with_token dt background)) req (scanTransferFull r)) e
      ((tick w)\<lparr>w_db := w_db w\<rparr>)"
  unfolding serve.simps Auth_accepts [OF assms(8)]
  using assms
  by (auto simp: PostAction_def run_bind run_GetByID with_token_correspondent may_decide_def scanTransferFull_def)

text \<open>When the approval of \<open>c\<close> cents can be posted.\<close>

definition approvable :: "env \<Rightarrow> transfer_row \<Rightarrow> int \<Rightarrow> db \<Rightarrow> bool" where
  "approvable e r c d \<longleftrightarrow>
     0 < c \<and> c < 10 ^ 12 \<and> t_amount r = Num c \<and> t_state r = Analyzing \<and> t_review_reason r \<noteq> None \<and>
     t_from_account_id r \<noteq> t_account_id r \<and> canonical e (t_from_account_id r) \<and> canonical e (t_account_id r) \<and>
     account_of d (t_from_account_id r) \<noteq> None \<and> account_of d (t_account_id r) \<noteq> None \<and> fresh_window e \<and>
     (\<forall>n. fresh_uuid e n \<notin> l_id ` set (ledger_entries d)) \<and>
     (\<forall>x \<in> set (ledger_entries d). l_transfer_id x \<noteq> t_id r)"

lemma approvable_postable:
  assumes "approvable e r c d0" "flow (t_id r) s ec rr [] d0 (w_db w)"
  shows "postable e w EntryTypeProvisionalCredit (t_from_account_id r) (t_account_id r) c (t_id r)"
  using assms fresh_windowD [of e "w_ticks w + 1" "w_ticks w + 2"]
  unfolding approvable_def postable_def by (force simp: entry_key_def elim!: flowE)

lemma returns_respond_updated:
  assumes "fault_free e" "canonical e i" "flow i s ec rr new d0 (w_db w)"
  shows "returns (respond_updated i) e w (\<lambda>rs w'. \<exists>r. transfer_of (w_db w') i = Some r \<and> t_state r = s \<and>
    t_error_code r = ec \<and> rs = writeJSON 200 (JObj (transferToJSON (scanTransferFull r))) \<and>
    ledger_entries (w_db w') = ledger_entries d0 @ new)"
  using assms by (auto simp: respond_updated_def returns_def run_bind run_GetByID elim!: flowE)

lemma override_then:
  assumes "fault_free e" "canonical e i" "flow i s ec rr new d0 (w_db w)"
    and "\<And>w'. flow i s ec rr new d0 (w_db w') \<Longrightarrow> returns q e w' Q"
  shows "returns (ignoring (if ct \<noteq> '''' then SetContributionType i ct else Ret None) q) e w Q"
proof -
  have "returns (SetContributionType i ct) e w (\<lambda>err w'. flow i s ec rr new d0 (w_db w'))"
    unfolding SetContributionType_def
    by (rule returns_mono [OF flow_set_transfer [OF assms(1-3)]]) (auto simp: same_identity_def)
  then show ?thesis
    using assms(3,4) by (auto intro!: returns_ignoringI)
qed

section \<open>Approval\<close>

text \<open>The answer and the database after an approval.\<close>

definition posted_answer :: "transfer_row \<Rightarrow> int \<Rightarrow> db \<Rightarrow> response \<Rightarrow> world \<Rightarrow> bool" where
  "posted_answer r c d0 rs w \<longleftrightarrow> (\<exists>r' new.
     transfer_of (w_db w) (t_id r) = Some r' \<and> t_state r' = FundsPosted \<and>
     rs = writeJSON 200 (JObj (transferToJSON (scanTransferFull r'))) \<and>
     ledger_entries (w_db w) = ledger_entries d0 @ new \<and>
     posting EntryTypeProvisionalCredit (Num c) (t_from_account_id r) (t_account_id r) ''FREE'' (t_id r) new)"

lemma approve_action_posts:
  assumes e: "fault_free e" "canonical e (t_id r)" and a: "approvable e r c d0"
    and w: "flow (t_id r) Analyzing ec rr [] d0 (w_db w)"
  shows "returns (approve_action orchDeps (t_id r) (scanTransferFull r)) e w (posted_answer r c d0)"
proof -
  let ?t = "scanTransferFull r" and ?i = "t_id r"
  have t: "tr_FromAccountID ?t = t_from_account_id r" "tr_AccountID ?t = t_account_id r" "tr_ID ?t = ?i"
    "fmt2 (tr_Amount ?t) = cents_text c"
    using a by (simp_all add: scanTransferFull_def approvable_def fmt2_of_cents)
  have memo: "MemoToEntryType ''FREE'' = Some EntryTypeProvisionalCredit" by (simp add: MemoToEntryType_def)
  have posted: "returns (ignoring (WriteEvent ?i ''ledger_posted'' ''system'' ev)
      (bind (Transition transferStore WriteEvent (Some Notify) ?i Approved FundsPosted) (\<lambda>err. case err of
         Some er \<Rightarrow> Ret (error_json 500 ''transition failed'') | None \<Rightarrow> respond_updated ?i))) e w1 (posted_answer r c d0)"
    if "flow ?i Approved ec rr new d0 (w_db w1)"
      "posting EntryTypeProvisionalCredit (Num c) (t_from_account_id r) (t_account_id r) ''FREE'' ?i new" for w1 new ev
    by (rule event_then [OF e that(1)], erule transition_then [OF e], simp,
        simp only: option.case, rule returns_mono [OF returns_respond_updated [OF e]], assumption)
       (use that(2) in \<open>auto simp: posted_answer_def\<close>)
  have "returns (approve_post orchDeps ?i ?t) e w1 (posted_answer r c d0)"
    if w1: "flow ?i Approved ec rr [] d0 (w_db w1)" for w1
  proof -
    have can: "canonical e (t_from_account_id r)" "canonical e (t_account_id r)"
      using a by (simp_all add: approvable_def)
    note post = run_PostDoubleEntry [OF e(1) memo approvable_postable [OF a w1]]
    show ?thesis
      unfolding approve_post_def orchDeps_simps t returns_bind [of "MustParse _"] returns_MustParse [OF can(1)]
        returns_MustParse [OF can(2)] returns_MustParse [OF e(2)] returns_bind [of "PostDoubleEntry _ _ _ _ _"]
      by (subst returns_def)
         (use flow_ledger [OF w1] posting_posted_rows in \<open>auto simp: post intro!: posted\<close>)
  qed
  then show ?thesis
    unfolding approve_action_def orchDeps_simps by (intro transition_then [OF e w]) simp_all
qed


lemma returns_perform:
  assumes "fault_free e" "canonical e (t_id r)" "transfer_of (w_db w) (t_id r) = Some r" "ac_TransferID req = t_id r"
    and "\<And>w1. flow (t_id r) (t_state r) (t_error_code r) (t_review_reason r) [] (w_db w) (w_db w1) \<Longrightarrow>
      returns (if ac_Action req = ''APPROVE'' then approve_action orchDeps (t_id r) (scanTransferFull r)
               else reject_action orchDeps req (scanTransferFull r)) e w1 Q"
  shows "returns (perform_action op req (scanTransferFull r)) e ((tick w)\<lparr>w_db := w_db w\<rparr>) Q"
  unfolding perform_action_def Let_def assms(4)
proof (rule event_then [OF assms(1,2)])
  show "flow (t_id r) (t_state r) (t_error_code r) (t_review_reason r) [] (w_db w) (w_db ((tick w)\<lparr>w_db := w_db w\<rparr>))"
    using flow_start [OF assms(3)] by simp
qed (rule override_then [OF assms(1,2)], assumption, rule assms(5))

text \<open>C32. An operator's approval of a flagged transfer that it may decide on posts it: the answer is a 200
  with the transfer, which is FundsPosted, and the investor is credited and the omnibus account debited by
  exactly the transfer's cents.\<close>

theorem approval_posts_exactly:
  assumes "fault_free e" "demoTokens tok = Some dt" "may_decide dt r"
    and "canonical e (t_id r)" "transfer_of (w_db w) (t_id r) = Some r" "t_id r \<noteq> ''''"
    and "ac_TransferID req = t_id r" "ac_Action req = ''APPROVE''" "approvable e r c (w_db w)"
  shows "\<exists>w' r'. run (serve (RqOperatorAction (Some req) (''Bearer '' @ tok))) e w =
      (Done (writeJSON 200 (JObj (transferToJSON (scanTransferFull r')))), w') \<and>
    transfer_of (w_db w') (t_id r) = Some r' \<and> t_state r' = FundsPosted \<and>
    (\<forall>a. balance (ledger_entries (w_db w')) a = balance (ledger_entries (w_db w)) a +
       (if a = t_account_id r then c else if a = t_from_account_id r then - c else 0))"
proof -
  have review: "isReviewable (scanTransferFull r)" and state: "t_state r = Analyzing"
    and distinct: "t_from_account_id r \<noteq> t_account_id r"
    using assms(9) by (auto simp: approvable_def isReviewable_def scanTransferFull_def)
  have "returns (perform_action (OperatorIDFromContext (with_token dt background)) req (scanTransferFull r)) e
      ((tick w)\<lparr>w_db := w_db w\<rparr>) (posted_answer r c (w_db w))"
    by (rule returns_perform [OF assms(1,4,5,7)])
       (auto simp: assms(8) state intro: approve_action_posts [OF assms(1,4,9)])
  then obtain rs w' where run: "run (serve (RqOperatorAction (Some req) (''Bearer '' @ tok))) e w = (Done rs, w')"
    and "posted_answer r c (w_db w) rs w'"
    using run_PostAction [OF assms(1) _ _ _ _ assms(3) review assms(2), of req] assms(4-8)
    by (auto simp: returns_def simp del: serve.simps append.simps split: prod.splits outcome.splits)
  moreover from this(2) posting_balance [OF _ distinct, of EntryTypeProvisionalCredit c "''FREE''" "t_id r"]
  obtain r' new where "transfer_of (w_db w') (t_id r) = Some r'" "t_state r' = FundsPosted"
    "rs = writeJSON 200 (JObj (transferToJSON (scanTransferFull r')))"
    "ledger_entries (w_db w') = ledger_entries (w_db w) @ new"
    "\<And>a. balance new a = (if a = t_from_account_id r then - c else if a = t_account_id r then c else 0)"
    by (auto simp: posted_answer_def)
  ultimately show ?thesis using distinct by (auto simp: balance_append)
qed


lemma demo_tokens:
  "demoTokens ''operator-alpha'' = Some \<lparr>dt_OperatorID = ''op-alpha-001'', dt_Role = ''operator'',
     dt_CorrespondentID = alpha, dt_AccountID = ''''\<rparr>"
  by (simp add: demoTokens_def alpha_def)

definition flagged :: "string \<Rightarrow> transfer_row" where
  "flagged i = (demo_transfer i Analyzing)\<lparr>t_review_reason := Some ''VSS_AMOUNT_MISMATCH''\<rparr>"

lemma flagged_simps [simp]:
  "t_id (flagged i) = i" "t_account_id (flagged i) = alpha_001" "t_from_account_id (flagged i) = omnibus_alpha"
  "t_state (flagged i) = Analyzing" "t_correspondent_id (flagged i) = alpha" "t_error_code (flagged i) = None"
  "t_amount (flagged i) = Num 10000" "t_review_reason (flagged i) = Some ''VSS_AMOUNT_MISMATCH''"
  by (simp_all add: flagged_def)

lemma check1_neq_Nil: "check1 \<noteq> ''''"
  by (simp add: check1_def)

lemma demo_approvable: "approvable demo_env (flagged check1) 10000 (w_db (demo_world [flagged check1] []))"
  using demo_fresh_window demo_account_of [of alpha_001] demo_account_of [of omnibus_alpha]
  by (simp add: approvable_def demo_canonical)

definition demo_action :: "string \<Rightarrow> string \<Rightarrow> actionRequest" where
  "demo_action act reason =
     \<lparr>ac_TransferID = check1, ac_Action = act, ac_Reason = reason, ac_ContributionTypeOverride = ''''\<rparr>"

theorem approval_posts_exactly_witness:
  "\<exists>w' r'. run (serve (RqOperatorAction (Some (demo_action ''APPROVE'' '''')) (''Bearer '' @ ''operator-alpha'')))
      demo_env (demo_world [flagged check1] []) =
      (Done (writeJSON 200 (JObj (transferToJSON (scanTransferFull r')))), w') \<and>
    t_state r' = FundsPosted \<and> balance (ledger_entries (w_db w')) alpha_001 = 10000"
proof -
  have row: "transfer_of (w_db (demo_world [flagged check1] [])) (t_id (flagged check1)) = Some (flagged check1)"
    by (simp add: db_simps)
  show ?thesis
    using approval_posts_exactly [OF demo_fault_free demo_tokens _ _ row _ _ _ demo_approvable,
        of "demo_action ''APPROVE'' ''''"]
    by (auto simp: demo_canonical may_decide_def demo_action_def check1_neq_Nil balance_def
        simp del: serve.simps append.simps)
qed

section \<open>Rejection\<close>

lemma error_code_then:
  assumes "fault_free e" "canonical e i" "flow i s ec rr new d0 (w_db w)"
    and "\<And>w'. flow i s (if code \<noteq> '''' then Some code else ec) rr new d0 (w_db w') \<Longrightarrow> returns q e w' Q"
  shows "returns (ignoring (if code \<noteq> '''' then SetErrorCode i code else Ret None) q) e w Q"
proof -
  have "returns (SetErrorCode i code) e w (\<lambda>err w'. flow i s (Some code) rr new d0 (w_db w'))"
    unfolding SetErrorCode_def
    by (rule returns_mono [OF flow_set_transfer [OF assms(1-3)]]) (auto simp: same_identity_def)
  then show ?thesis using assms(3,4) by (auto intro!: returns_ignoringI)
qed

text \<open>C33. A rejection ends a reviewable transfer, from Analyzing or Validating, in Rejected with the operator's
  reason as its error code, when one is given, and moves no money.\<close>

theorem rejection_moves_nothing:
  assumes "fault_free e" "demoTokens tok = Some dt" "may_decide dt r"
    and "canonical e (t_id r)" "transfer_of (w_db w) (t_id r) = Some r" "t_id r \<noteq> ''''"
    and "ac_TransferID req = t_id r" "ac_Action req = ''REJECT''" "isReviewable (scanTransferFull r)"
  shows "\<exists>w' r'. run (serve (RqOperatorAction (Some req) (''Bearer '' @ tok))) e w =
      (Done (writeJSON 200 (JObj (transferToJSON (scanTransferFull r')))), w') \<and>
    transfer_of (w_db w') (t_id r) = Some r' \<and> t_state r' = Rejected \<and>
    t_error_code r' = (if ac_Reason req \<noteq> '''' then Some (ac_Reason req) else t_error_code r) \<and>
    ledger_entries (w_db w') = ledger_entries (w_db w)"
proof -
  have state: "t_state r = Validating \<or> t_state r = Analyzing"
    and t: "tr_State (scanTransferFull r) = t_state r"
    using assms(9) by (auto simp: isReviewable_def scanTransferFull_def split: if_splits)
  then have valid: "isValidTransition (t_state r) Rejected"
    and source: "(if t_state r = Validating then Validating else Analyzing) = t_state r" by auto
  have "returns (perform_action (OperatorIDFromContext (with_token dt background)) req (scanTransferFull r)) e
      ((tick w)\<lparr>w_db := w_db w\<rparr>) (\<lambda>rs w'. \<exists>r'. transfer_of (w_db w') (t_id r) = Some r' \<and> t_state r' = Rejected \<and>
        t_error_code r' = (if ac_Reason req \<noteq> '''' then Some (ac_Reason req) else t_error_code r) \<and>
        rs = writeJSON 200 (JObj (transferToJSON (scanTransferFull r'))) \<and>
        ledger_entries (w_db w') = ledger_entries (w_db w) @ [])"
  proof (rule returns_perform [OF assms(1,4,5,7)])
    fix w1 :: world
    assume w1: "flow (t_id r) (t_state r) (t_error_code r) (t_review_reason r) [] (w_db w) (w_db w1)"
    show "returns (if ac_Action req = ''APPROVE'' then approve_action orchDeps (t_id r) (scanTransferFull r)
        else reject_action orchDeps req (scanTransferFull r)) e w1 (\<lambda>rs w'. \<exists>r'. transfer_of (w_db w') (t_id r) = Some r' \<and>
        t_state r' = Rejected \<and>
        t_error_code r' = (if ac_Reason req \<noteq> '''' then Some (ac_Reason req) else t_error_code r) \<and>
        rs = writeJSON 200 (JObj (transferToJSON (scanTransferFull r'))) \<and>
        ledger_entries (w_db w') = ledger_entries (w_db w) @ [])"
      unfolding reject_action_def Let_def assms(7,8) t source orchDeps_simps
      by (subst if_not_P, simp, rule error_code_then [OF assms(1,4) w1], erule transition_then [OF assms(1,4)], rule valid,
          simp only: option.case, rule returns_mono [OF returns_respond_updated [OF assms(1,4)]], assumption)
         auto
  qed
  then show ?thesis
    using run_PostAction [OF assms(1) _ _ _ _ assms(3,9,2), of req w] assms(4-8)
    by (auto simp: returns_def simp del: serve.simps append.simps split: prod.splits outcome.splits)
qed


theorem rejection_moves_nothing_witness:
  "\<exists>w' r'. run (serve (RqOperatorAction (Some (demo_action ''REJECT'' ''FRAUD'')) (''Bearer '' @ ''operator-alpha'')))
      demo_env (demo_world [flagged check1] []) =
      (Done (writeJSON 200 (JObj (transferToJSON (scanTransferFull r')))), w') \<and>
    t_state r' = Rejected \<and> t_error_code r' = Some ''FRAUD'' \<and> ledger_entries (w_db w') = []"
proof -
  have row: "transfer_of (w_db (demo_world [flagged check1] [])) (t_id (flagged check1)) = Some (flagged check1)"
    by (simp add: db_simps)
  have "isReviewable (scanTransferFull (flagged check1))" by (simp add: isReviewable_def scanTransferFull_def)
  then show ?thesis
    using rejection_moves_nothing [OF demo_fault_free demo_tokens _ _ row, of "demo_action ''REJECT'' ''FRAUD''"]
    by (auto simp: demo_canonical may_decide_def demo_action_def check1_neq_Nil
        simp del: serve.simps append.simps)
qed

section \<open>Transfers still in validation\<close>



end
