(* ===== verification/Streams.thy ===== *)
theory Streams
  imports Middleware "HOL-Library.Sublist"
begin

text \<open>
  The event stream: \<open>internal/events/sse.go\<close> and its handler \<open>cmd/api/handlers/events.go\<close>. A broadcaster
  fans each database notification out to the bounded channels of its clients. The steps of its goroutines
  are the actions of a state machine: what a goroutine does while it holds the mutex is one step, except
  the loop of \<open>broadcast\<close>, which sends to one client per step under the read lock, and the closing of a
  channel, which \<open>Unsubscribe\<close> does after it has released the lock.
\<close>

section \<open>Notifications and what is written to a client\<close>

text \<open>A payload that \<open>json.Unmarshal\<close> reads as an object, or another text.\<close>

datatype notification = JsonNote json | TextNote string

datatype sse_output = SseComment string | SseEvent string notification

text \<open>The event type is the string member \<open>event_type\<close>, if there is one.\<close>

definition event_type_of :: "notification \<Rightarrow> string" where
  "event_type_of n =
     (case n of
        JsonNote m \<Rightarrow> (case map_of m ''event_type'' of Some (JStr t) \<Rightarrow> t | _ \<Rightarrow> ''transfer_update'')
      | TextNote s \<Rightarrow> ''transfer_update'')"

definition write_event :: "notification \<Rightarrow> sse_output" where
  "write_event n = SseEvent (event_type_of n) n"

section \<open>Channels\<close>

text \<open>A channel of capacity 64. Sending on a closed channel and closing it again panic (\<open>None\<close>); the send
  sits in a \<open>select\<close> with a default, so a full channel drops the message.\<close>

record chan =
  ch_Buf :: "notification list"
  ch_Open :: bool

definition chan_cap :: nat where
  "chan_cap = 64"

definition make_chan :: chan where
  "make_chan = \<lparr>ch_Buf = [], ch_Open = True\<rparr>"

definition try_send :: "notification \<Rightarrow> chan \<Rightarrow> chan option" where
  "try_send m c =
     (if \<not> ch_Open c then None
      else if length (ch_Buf c) < chan_cap then Some (c\<lparr>ch_Buf := ch_Buf c @ [m]\<rparr>)
      else Some c)"

definition close_chan :: "chan \<Rightarrow> chan option" where
  "close_chan c = (if ch_Open c then Some (c\<lparr>ch_Open := False\<rparr>) else None)"

section \<open>The broadcaster\<close>

text \<open>Where the goroutine of a stream is: its channel is made, it is in the client map and serves, it has
  left the map, its channel is closed.\<close>

datatype stream_pc = PcMade | PcServing | PcLeft | PcClosed

record sse =
  sb_Clients :: "nat list"
  sb_Chan :: "nat \<rightharpoonup> chan"
  sb_Pc :: "nat \<rightharpoonup> stream_pc"
  sb_Loops :: "(notification \<times> nat list) list"
  sb_Out :: "nat \<Rightarrow> sse_output list"
  sb_Panic :: bool

definition NewBroadcaster :: sse where
  "NewBroadcaster =
     \<lparr>sb_Clients = [], sb_Chan = Map.empty, sb_Pc = Map.empty, sb_Loops = [], sb_Out = (\<lambda>_. []), sb_Panic = False\<rparr>"

text \<open>The whole constructor: \<open>listen\<close> is \<open>pq.Listener.Listen\<close> on the channel.\<close>

definition start_broadcaster :: "(string \<Rightarrow> go_error option) \<Rightarrow> string \<Rightarrow> go_error + sse" where
  "start_broadcaster listen channel =
     (case listen channel of
        Some err \<Rightarrow> Inl (EWrap (''listen on '' @ channel) err)
      | None \<Rightarrow> Inr NewBroadcaster)"

text \<open>The write lock is free when no broadcast is in its loop.\<close>

definition lock_free :: "sse \<Rightarrow> bool" where
  "lock_free s \<longleftrightarrow> sb_Loops s = []"

text \<open>\<open>ServeHTTP\<close> up to the channel: headers, the first comment, \<open>make(chan []byte, 64)\<close>.\<close>

definition stream_start :: "nat \<Rightarrow> sse \<Rightarrow> sse option" where
  "stream_start i s =
     (if sb_Chan s i = None
      then Some (s\<lparr>sb_Chan := (sb_Chan s)(i \<mapsto> make_chan), sb_Pc := (sb_Pc s)(i \<mapsto> PcMade),
                   sb_Out := (sb_Out s)(i := sb_Out s i @ [SseComment ''connected''])\<rparr>)
      else None)"

text \<open>The handler of \<open>GET /events/stream\<close> passes the request on.\<close>

definition Stream :: "nat \<Rightarrow> sse \<Rightarrow> sse option" where
  "Stream i s = stream_start i s"

declare Stream_def [simp]

text \<open>The locked part of \<open>Subscribe\<close>.\<close>

definition Subscribe :: "nat \<Rightarrow> sse \<Rightarrow> sse option" where
  "Subscribe i s =
     (if sb_Pc s i = Some PcMade \<and> lock_free s
      then Some (s\<lparr>sb_Clients := i # sb_Clients s, sb_Pc := (sb_Pc s)(i \<mapsto> PcServing)\<rparr>)
      else None)"

text \<open>\<open>Unsubscribe\<close>: the locked \<open>delete\<close>, and the \<open>close\<close> after the lock is released.\<close>

definition Unsubscribe_delete :: "nat \<Rightarrow> sse \<Rightarrow> sse option" where
  "Unsubscribe_delete i s =
     (if sb_Pc s i = Some PcServing \<and> lock_free s
      then Some (s\<lparr>sb_Clients := filter (\<lambda>j. j \<noteq> i) (sb_Clients s), sb_Pc := (sb_Pc s)(i \<mapsto> PcLeft)\<rparr>)
      else None)"

definition Unsubscribe_close :: "nat \<Rightarrow> sse \<Rightarrow> sse option" where
  "Unsubscribe_close i s =
     (case (sb_Pc s i, sb_Chan s i) of
        (Some PcLeft, Some c) \<Rightarrow> Some (case close_chan c of
            None \<Rightarrow> s\<lparr>sb_Panic := True\<rparr>
          | Some c' \<Rightarrow> s\<lparr>sb_Chan := (sb_Chan s)(i \<mapsto> c'), sb_Pc := (sb_Pc s)(i \<mapsto> PcClosed)\<rparr>)
      | _ \<Rightarrow> None)"

definition ClientCount :: "sse \<Rightarrow> nat" where
  "ClientCount s = length (sb_Clients s)"

text \<open>\<open>broadcast\<close>: it takes the read lock and ranges over the map in some order, sends to one client after
  the other, and releases the lock.\<close>

definition broadcast_begin :: "notification \<Rightarrow> nat list \<Rightarrow> sse \<Rightarrow> sse option" where
  "broadcast_begin m order s =
     (if set order = set (sb_Clients s) \<and> distinct order
      then Some (s\<lparr>sb_Loops := sb_Loops s @ [(m, order)]\<rparr>) else None)"

definition broadcast_send :: "nat \<Rightarrow> sse \<Rightarrow> sse option" where
  "broadcast_send k s =
     (if k < length (sb_Loops s) then
        (case sb_Loops s ! k of
           (m, i # rest) \<Rightarrow>
             (case sb_Chan s i of
                None \<Rightarrow> None
              | Some c \<Rightarrow> Some (case try_send m c of
                    None \<Rightarrow> s\<lparr>sb_Panic := True\<rparr>
                  | Some c' \<Rightarrow> s\<lparr>sb_Chan := (sb_Chan s)(i \<mapsto> c'), sb_Loops := (sb_Loops s)[k := (m, rest)]\<rparr>))
         | (m, []) \<Rightarrow> None)
      else None)"

definition broadcast_end :: "nat \<Rightarrow> sse \<Rightarrow> sse option" where
  "broadcast_end k s =
     (if k < length (sb_Loops s) \<and> snd (sb_Loops s ! k) = []
      then Some (s\<lparr>sb_Loops := take k (sb_Loops s) @ drop (Suc k) (sb_Loops s)\<rparr>) else None)"

text \<open>The loop of \<open>ServeHTTP\<close>: a message is received and written, or the ticker fires.\<close>

definition serve_data :: "nat \<Rightarrow> sse \<Rightarrow> sse option" where
  "serve_data i s =
     (case (sb_Pc s i, sb_Chan s i) of
        (Some PcServing, Some c) \<Rightarrow>
          (case ch_Buf c of
             [] \<Rightarrow> None
           | m # ms \<Rightarrow> Some (s\<lparr>sb_Chan := (sb_Chan s)(i \<mapsto> c\<lparr>ch_Buf := ms\<rparr>),
                             sb_Out := (sb_Out s)(i := sb_Out s i @ [write_event m])\<rparr>))
      | _ \<Rightarrow> None)"

definition serve_keepalive :: "nat \<Rightarrow> nat \<Rightarrow> sse \<Rightarrow> sse option" where
  "serve_keepalive now i s =
     (if sb_Pc s i = Some PcServing
      then Some (s\<lparr>sb_Out := (sb_Out s)(i := sb_Out s i @ [SseComment (''keepalive '' @ nat_text now)])\<rparr>)
      else None)"

section \<open>Executions\<close>

text \<open>The goroutine \<open>listen\<close> broadcasts every notification that is not nil, and pings after 90 seconds.\<close>

datatype listen_event = Notified "notification option" | PingDue

definition listen :: "listen_event \<Rightarrow> notification list" where
  "listen ev = (case ev of Notified (Some m) \<Rightarrow> [m] | Notified None \<Rightarrow> [] | PingDue \<Rightarrow> [])"

datatype sse_action =
    StreamStart nat | StreamSubscribe nat | StreamDelete nat | StreamClose nat
  | LoopBegin listen_event "nat list" | LoopSend nat | LoopEnd nat
  | StreamData nat | StreamKeepalive nat nat

fun sse_step :: "sse_action \<Rightarrow> sse \<Rightarrow> sse option" where
  "sse_step (StreamStart i) s = Stream i s"
| "sse_step (StreamSubscribe i) s = Subscribe i s"
| "sse_step (StreamDelete i) s = Unsubscribe_delete i s"
| "sse_step (StreamClose i) s = Unsubscribe_close i s"
| "sse_step (LoopBegin ev order) s =
     (case listen ev of [] \<Rightarrow> Some s | m # _ \<Rightarrow> broadcast_begin m order s)"
| "sse_step (LoopSend k) s = broadcast_send k s"
| "sse_step (LoopEnd k) s = broadcast_end k s"
| "sse_step (StreamData i) s = serve_data i s"
| "sse_step (StreamKeepalive i now) s = serve_keepalive now i s"

fun sse_run :: "sse_action list \<Rightarrow> sse \<Rightarrow> sse option" where
  "sse_run [] s = Some s"
| "sse_run (a # as) s = (case sse_step a s of None \<Rightarrow> None | Some s' \<Rightarrow> if sb_Panic s' then Some s' else sse_run as s')"


section \<open>The contract of a channel\<close>

text \<open>What the broadcaster relies on: a buffer that keeps order and loses a message only when it is full.\<close>

locale lossy_fifo =
  fixes contents :: "'c \<Rightarrow> 'm list" and offer :: "'m \<Rightarrow> 'c \<Rightarrow> 'c option" and cap :: nat
  assumes offer_contents: "offer m c = Some c' \<Longrightarrow>
    contents c' = (if length (contents c) < cap then contents c @ [m] else contents c)"
begin

lemma offer_subseq: "offer m c = Some c' \<Longrightarrow> subseq (contents c') (contents c @ [m])"
  by (auto simp: offer_contents)

lemma offer_bounded: "offer m c = Some c' \<Longrightarrow> length (contents c) \<le> cap \<Longrightarrow> length (contents c') \<le> cap"
  by (auto simp: offer_contents)

lemma offer_kept: "offer m c = Some c' \<Longrightarrow> length (contents c) < cap \<Longrightarrow> contents c' = contents c @ [m]"
  by (simp add: offer_contents)

end

interpretation chan_fifo: lossy_fifo ch_Buf try_send chan_cap
  by unfold_locales (auto simp: try_send_def split: if_splits)

section \<open>The invariant\<close>

text \<open>One stream: it is a client exactly while it serves, and its channel is open until the last step and
  never holds more than 64 messages. The loops send to clients only.\<close>

definition stream_ok :: "nat list \<Rightarrow> stream_pc option \<Rightarrow> chan option \<Rightarrow> nat \<Rightarrow> bool" where
  "stream_ok cl pc ch i \<longleftrightarrow>
     (i \<in> set cl \<longleftrightarrow> pc = Some PcServing) \<and> (pc = None \<longleftrightarrow> ch = None) \<and>
     (\<forall>c. ch = Some c \<longrightarrow> length (ch_Buf c) \<le> chan_cap \<and> (ch_Open c \<longleftrightarrow> pc \<noteq> Some PcClosed))"

definition loops_ok :: "nat list \<Rightarrow> (notification \<times> nat list) list \<Rightarrow> bool" where
  "loops_ok cl ls \<longleftrightarrow> (\<forall>(m, l) \<in> set ls. distinct l \<and> set l \<subseteq> set cl)"

definition sse_inv :: "sse \<Rightarrow> bool" where
  "sse_inv s \<longleftrightarrow>
     \<not> sb_Panic s \<and> distinct (sb_Clients s) \<and> loops_ok (sb_Clients s) (sb_Loops s) \<and>
     (\<forall>i. stream_ok (sb_Clients s) (sb_Pc s i) (sb_Chan s i) i)"

lemma sse_invD:
  "sse_inv s \<Longrightarrow> stream_ok (sb_Clients s) (sb_Pc s i) (sb_Chan s i) i"
  "sse_inv s \<Longrightarrow> loops_ok (sb_Clients s) (sb_Loops s)"
  "sse_inv s \<Longrightarrow> distinct (sb_Clients s)" "sse_inv s \<Longrightarrow> \<not> sb_Panic s"
  by (simp_all add: sse_inv_def)

lemma sse_invI:
  "\<not> sb_Panic s \<Longrightarrow> distinct (sb_Clients s) \<Longrightarrow> loops_ok (sb_Clients s) (sb_Loops s)
   \<Longrightarrow> (\<And>i. stream_ok (sb_Clients s) (sb_Pc s i) (sb_Chan s i) i) \<Longrightarrow> sse_inv s"
  by (simp add: sse_inv_def)

lemma sse_inv_start: "sse_inv NewBroadcaster"
  by (simp add: sse_inv_def NewBroadcaster_def stream_ok_def loops_ok_def)

lemma loops_ok_Nil [simp]: "loops_ok cl []"
  by (simp add: loops_ok_def)

lemma sse_inv_stream_start: "sse_inv s \<Longrightarrow> stream_start i s = Some s' \<Longrightarrow> sse_inv s'"
  by (rule sse_invI; frule sse_invD; frule sse_invD(2); frule sse_invD(3); drule sse_invD(4))
     (auto simp: stream_start_def stream_ok_def make_chan_def split: if_splits)

lemma sse_inv_Subscribe: "sse_inv s \<Longrightarrow> Subscribe i s = Some s' \<Longrightarrow> sse_inv s'"
  by (rule sse_invI; frule sse_invD; frule sse_invD(3); drule sse_invD(4))
     (auto simp: Subscribe_def lock_free_def stream_ok_def split: if_splits)


lemma sse_inv_delete: "sse_inv s \<Longrightarrow> Unsubscribe_delete i s = Some s' \<Longrightarrow> sse_inv s'"
  by (rule sse_invI; frule sse_invD; frule sse_invD(3); drule sse_invD(4))
     (auto simp: Unsubscribe_delete_def lock_free_def stream_ok_def split: if_splits)

lemma sse_inv_close:
  assumes "sse_inv s" "Unsubscribe_close i s = Some s'"
  shows "sse_inv s'"
proof -
  obtain c where c: "sb_Pc s i = Some PcLeft" "sb_Chan s i = Some c"
    using assms(2) by (auto simp: Unsubscribe_close_def split: option.splits stream_pc.splits)
  then have "ch_Open c" using sse_invD(1) [OF assms(1), of i] by (auto simp: stream_ok_def)
  then have s': "s' = s\<lparr>sb_Chan := (sb_Chan s)(i \<mapsto> c\<lparr>ch_Open := False\<rparr>), sb_Pc := (sb_Pc s)(i \<mapsto> PcClosed)\<rparr>"
    using assms(2) c by (simp add: Unsubscribe_close_def close_chan_def)
  show ?thesis
    using sse_invD [OF assms(1)] sse_invD(1) [OF assms(1), of i] c
    by (intro sse_invI) (auto simp: s' stream_ok_def)
qed

lemma serve_dataE:
  assumes "serve_data i s = Some s'"
  obtains c m ms where "sb_Pc s i = Some PcServing" "sb_Chan s i = Some c" "ch_Buf c = m # ms"
    "s' = s\<lparr>sb_Chan := (sb_Chan s)(i \<mapsto> c\<lparr>ch_Buf := ms\<rparr>), sb_Out := (sb_Out s)(i := sb_Out s i @ [write_event m])\<rparr>"
  using assms by (auto simp: serve_data_def split: option.splits stream_pc.splits list.splits)

lemma sse_inv_data:
  assumes "sse_inv s" "serve_data i s = Some s'"
  shows "sse_inv s'"
  using assms(2)
proof (rule serve_dataE)
  fix c m ms
  assume c: "sb_Pc s i = Some PcServing" "sb_Chan s i = Some c" "ch_Buf c = m # ms"
    and s': "s' = s\<lparr>sb_Chan := (sb_Chan s)(i \<mapsto> c\<lparr>ch_Buf := ms\<rparr>), sb_Out := (sb_Out s)(i := sb_Out s i @ [write_event m])\<rparr>"
  show ?thesis
    using sse_invD [OF assms(1)] sse_invD(1) [OF assms(1), of i] c
    by (intro sse_invI) (auto simp: s' stream_ok_def)
qed

lemma sse_inv_keepalive: "sse_inv s \<Longrightarrow> serve_keepalive t i s = Some s' \<Longrightarrow> sse_inv s'"
  by (auto simp: serve_keepalive_def sse_inv_def split: if_splits)

lemma sse_inv_loop:
  "sse_inv s \<Longrightarrow> broadcast_begin m order s = Some s' \<Longrightarrow> sse_inv s'"
  "sse_inv s \<Longrightarrow> broadcast_end k s = Some s' \<Longrightarrow> sse_inv s'"
  by (auto simp: sse_inv_def broadcast_begin_def broadcast_end_def loops_ok_def split: if_splits
      dest!: in_set_takeD in_set_dropD) blast+

lemma broadcast_sendE:
  assumes "broadcast_send k s = Some s'" "sse_inv s"
  obtains m i rest c c' where "k < length (sb_Loops s)" "sb_Loops s ! k = (m, i # rest)" "sb_Chan s i = Some c"
    "try_send m c = Some c'" "s' = s\<lparr>sb_Chan := (sb_Chan s)(i \<mapsto> c'), sb_Loops := (sb_Loops s)[k := (m, rest)]\<rparr>"
proof -
  obtain m i rest c where k: "k < length (sb_Loops s)" "sb_Loops s ! k = (m, i # rest)" "sb_Chan s i = Some c"
    and s': "s' = (case try_send m c of None \<Rightarrow> s\<lparr>sb_Panic := True\<rparr>
        | Some c' \<Rightarrow> s\<lparr>sb_Chan := (sb_Chan s)(i \<mapsto> c'), sb_Loops := (sb_Loops s)[k := (m, rest)]\<rparr>)"
    using assms(1) by (auto simp: broadcast_send_def split: if_splits list.splits option.splits prod.splits)
  have "(m, i # rest) \<in> set (sb_Loops s)" using k(1,2) by (metis nth_mem)
  then have "i \<in> set (sb_Clients s)" using sse_invD(2) [OF assms(2)] by (force simp: loops_ok_def)
  then have "ch_Open c" using sse_invD(1) [OF assms(2), of i] k(3) by (auto simp: stream_ok_def)
  then obtain c' where "try_send m c = Some c'" by (cases "try_send m c") (auto simp: try_send_def split: if_splits)
  with k s' that show thesis by simp
qed

lemma sse_inv_send:
  assumes "sse_inv s" "broadcast_send k s = Some s'"
  shows "sse_inv s'"
proof -
  obtain m i rest c c' where k: "k < length (sb_Loops s)" "sb_Loops s ! k = (m, i # rest)" "sb_Chan s i = Some c"
    "try_send m c = Some c'" "s' = s\<lparr>sb_Chan := (sb_Chan s)(i \<mapsto> c'), sb_Loops := (sb_Loops s)[k := (m, rest)]\<rparr>"
    using assms(2,1) by (rule broadcast_sendE)
  have "(m, i # rest) \<in> set (sb_Loops s)" using k(1,2) by (metis nth_mem)
  then have "distinct rest \<and> set rest \<subseteq> set (sb_Clients s)"
    using sse_invD(2) [OF assms(1)] by (force simp: loops_ok_def)
  then have loops: "loops_ok (sb_Clients s) ((sb_Loops s)[k := (m, rest)])"
    using sse_invD(2) [OF assms(1)] set_update_subset_insert [of "sb_Loops s" k "(m, rest)"]
    unfolding loops_ok_def by fastforce
  have "ch_Open c' = ch_Open c" using k(4) by (auto simp: try_send_def split: if_splits)
  then show ?thesis
    using sse_invD [OF assms(1)] sse_invD(1) [OF assms(1), of i] k(3) chan_fifo.offer_bounded [OF k(4)] loops
    by (intro sse_invI) (auto simp: k(5) stream_ok_def)
qed

lemma sse_inv_step: "sse_inv s \<Longrightarrow> sse_step a s = Some s' \<Longrightarrow> sse_inv s'"
  by (cases a) (auto split: list.splits intro: sse_inv_stream_start sse_inv_Subscribe sse_inv_delete
      sse_inv_close sse_inv_data sse_inv_keepalive sse_inv_loop sse_inv_send)

lemma sse_inv_run: "sse_run as s = Some s' \<Longrightarrow> sse_inv s \<Longrightarrow> sse_inv s'"
  by (induction as s rule: sse_run.induct) (auto split: option.splits if_splits dest: sse_inv_step)


section \<open>What a client receives\<close>

text \<open>The events written to a client, the ones waiting in its channel, and the ones the broadcaster has sent
  to it in an execution.\<close>

definition written :: "sse \<Rightarrow> nat \<Rightarrow> notification list" where
  "written s i = concat (map (\<lambda>x. case x of SseEvent t n \<Rightarrow> [n] | SseComment c \<Rightarrow> []) (sb_Out s i))"

definition waiting :: "sse \<Rightarrow> nat \<Rightarrow> notification list" where
  "waiting s i = (case sb_Chan s i of None \<Rightarrow> [] | Some c \<Rightarrow> ch_Buf c)"

fun sent_to :: "nat \<Rightarrow> sse_action \<Rightarrow> sse \<Rightarrow> notification list" where
  "sent_to i (LoopSend k) s =
     (if k < length (sb_Loops s)
      then (case sb_Loops s ! k of (m, j # _) \<Rightarrow> if j = i then [m] else [] | _ \<Rightarrow> []) else [])"
| "sent_to i _ s = []"

fun offered :: "nat \<Rightarrow> sse_action list \<Rightarrow> sse \<Rightarrow> notification list" where
  "offered i [] s = []"
| "offered i (a # as) s =
     sent_to i a s @ (case sse_step a s of None \<Rightarrow> [] | Some s' \<Rightarrow> offered i as s')"

text \<open>The client keeps up: its channel is never full when something is sent to it.\<close>

fun keeps_up :: "nat \<Rightarrow> sse_action list \<Rightarrow> sse \<Rightarrow> bool" where
  "keeps_up i [] s = True"
| "keeps_up i (a # as) s =
     ((sent_to i a s \<noteq> [] \<longrightarrow> length (waiting s i) < chan_cap) \<and>
      (case sse_step a s of None \<Rightarrow> True | Some s' \<Rightarrow> keeps_up i as s'))"

lemma history_send:
  assumes "sse_inv s" "broadcast_send k s = Some s'"
  shows "written s' i = written s i \<and>
    subseq (waiting s' i) (waiting s i @ sent_to i (LoopSend k) s) \<and>
    (sent_to i (LoopSend k) s = [] \<or> length (waiting s i) < chan_cap \<longrightarrow>
       waiting s' i = waiting s i @ sent_to i (LoopSend k) s)"
proof -
  obtain m j rest c c' where k: "k < length (sb_Loops s)" "sb_Loops s ! k = (m, j # rest)" "sb_Chan s j = Some c"
    "try_send m c = Some c'" "s' = s\<lparr>sb_Chan := (sb_Chan s)(j \<mapsto> c'), sb_Loops := (sb_Loops s)[k := (m, rest)]\<rparr>"
    using assms(2,1) by (rule broadcast_sendE)
  have "written s' i = written s i" by (simp add: k(5) written_def)
  then show ?thesis
    using chan_fifo.offer_subseq [OF k(4)] chan_fifo.offer_kept [OF k(4)]
    by (cases "j = i") (use k(3) in \<open>auto simp: k(1,2) waiting_def k(5)\<close>)
qed

lemma history_other:
  assumes "sse_step a s = Some s'" "\<forall>k. a \<noteq> LoopSend k"
  shows "written s' i @ waiting s' i = written s i @ waiting s i"
proof (cases a)
  case (StreamData j)
  then have "serve_data j s = Some s'" using assms(1) by simp
  then show ?thesis
    by (rule serve_dataE) (simp add: written_def waiting_def write_event_def)
qed (use assms in \<open>auto simp: written_def waiting_def stream_start_def Subscribe_def Unsubscribe_delete_def
    Unsubscribe_close_def close_chan_def broadcast_begin_def broadcast_end_def serve_keepalive_def make_chan_def
    split: if_splits option.splits stream_pc.splits list.splits\<close>)

lemma history_step:
  assumes "sse_inv s" "sse_step a s = Some s'"
  shows "subseq (written s' i @ waiting s' i) ((written s i @ waiting s i) @ sent_to i a s) \<and>
    (sent_to i a s = [] \<or> length (waiting s i) < chan_cap \<longrightarrow>
       written s' i @ waiting s' i = (written s i @ waiting s i) @ sent_to i a s)"
proof (cases "\<exists>k. a = LoopSend k")
  case True
  then obtain k where a: "a = LoopSend k" ..
  then have "broadcast_send k s = Some s'" using assms(2) by simp
  note h = history_send [OF assms(1) this, of i]
  then have "subseq (written s i @ waiting s' i) (written s i @ (waiting s i @ sent_to i a s))"
    unfolding a by (intro list_emb_append_mono) simp_all
  with h show ?thesis by (auto simp: a simp del: sent_to.simps)
next
  case False
  then have "sent_to i a s = []" by (cases a) auto
  with history_other [OF assms(2)] False show ?thesis by simp
qed

lemma history_run:
  assumes "sse_run as s = Some s'" "sse_inv s"
  shows "subseq (written s' i @ waiting s' i) ((written s i @ waiting s i) @ offered i as s) \<and>
    (keeps_up i as s \<longrightarrow> written s' i @ waiting s' i = (written s i @ waiting s i) @ offered i as s)"
  using assms
proof (induction as arbitrary: s)
  case (Cons a as)
  then obtain s1 where s1: "sse_step a s = Some s1" by (auto split: option.splits)
  have inv: "sse_inv s1" using sse_inv_step [OF Cons.prems(2) s1] .
  then have run: "sse_run as s1 = Some s'" using Cons.prems(1) s1 by (simp add: sse_inv_def)
  have step: "subseq (written s1 i @ waiting s1 i) ((written s i @ waiting s i) @ sent_to i a s)"
    "sent_to i a s = [] \<or> length (waiting s i) < chan_cap \<Longrightarrow>
       written s1 i @ waiting s1 i = (written s i @ waiting s i) @ sent_to i a s"
    using history_step [OF Cons.prems(2) s1, of i] by auto
  note IH = Cons.IH [OF run inv]
  have "subseq ((written s1 i @ waiting s1 i) @ offered i as s1)
      (((written s i @ waiting s i) @ sent_to i a s) @ offered i as s1)"
    by (rule list_emb_append_mono [OF step(1)]) simp
  with IH have "subseq (written s' i @ waiting s' i) ((written s i @ waiting s i) @ offered i (a # as) s)"
    by (auto simp: s1 simp del: sent_to.simps intro: subseq_order.order_trans)
  moreover have "written s' i @ waiting s' i = (written s i @ waiting s i) @ offered i (a # as) s"
    if "keeps_up i (a # as) s"
    using that IH step(2) by (auto simp: s1 simp del: sent_to.simps)
  ultimately show ?case by blast
qed simp

section \<open>A broadcast is never blocked\<close>

text \<open>A loop that holds the read lock can always take its next step, whatever the clients do, so it ends
  after one step per client.\<close>

lemma send_progress:
  assumes "sse_inv s" "k < length (sb_Loops s)" "sb_Loops s ! k = (m, i # rest)"
  shows "\<exists>s'. broadcast_send k s = Some s' \<and> sb_Loops s' = (sb_Loops s)[k := (m, rest)]"
proof -
  have "(m, i # rest) \<in> set (sb_Loops s)" using assms(2,3) by (metis nth_mem)
  then have "i \<in> set (sb_Clients s)" using sse_invD(2) [OF assms(1)] by (force simp: loops_ok_def)
  then obtain c where "sb_Chan s i = Some c" "ch_Open c"
    using sse_invD(1) [OF assms(1), of i] by (cases "sb_Chan s i") (auto simp: stream_ok_def)
  then show ?thesis using assms by (auto simp: broadcast_send_def try_send_def)
qed

lemma loop_ends:
  assumes "sse_inv s" "k < length (sb_Loops s)" "sb_Loops s ! k = (m, rest)"
  shows "\<exists>s'. sse_run (replicate (length rest) (LoopSend k) @ [LoopEnd k]) s = Some s' \<and>
    sb_Loops s' = take k (sb_Loops s) @ drop (Suc k) (sb_Loops s) \<and> sse_inv s'"
  using assms
proof (induction rest arbitrary: s)
  case Nil
  then obtain s' where s': "broadcast_end k s = Some s'" "sb_Loops s' = take k (sb_Loops s) @ drop (Suc k) (sb_Loops s)"
    by (auto simp: broadcast_end_def)
  moreover have "sse_inv s'" using sse_inv_loop(2) [OF Nil(1) s'(1)] .
  ultimately show ?case by (simp add: sse_inv_def)
next
  case (Cons i rest)
  obtain s1 where s1: "broadcast_send k s = Some s1" "sb_Loops s1 = (sb_Loops s)[k := (m, rest)]"
    using send_progress [OF Cons.prems] by blast
  have inv: "sse_inv s1" using sse_inv_send [OF Cons.prems(1) s1(1)] .
  obtain s' where "sse_run (replicate (length rest) (LoopSend k) @ [LoopEnd k]) s1 = Some s'"
    "sb_Loops s' = take k (sb_Loops s1) @ drop (Suc k) (sb_Loops s1)" "sse_inv s'"
    using Cons.IH [OF inv] Cons.prems(2) s1(2) by auto
  with s1 inv show ?case by (auto simp: sse_inv_def)
qed

end
