(* ===== verification/Logging.thy ===== *)
theory Logging
  imports Prelude
begin

text \<open>\<open>internal/logging/redact.go\<close>: account numbers in the log. A string is its bytes.\<close>

definition Redact :: "string \<Rightarrow> string" where
  "Redact s =
     (if length s = 0 then ''''
      else if length s \<le> 4 then replicate (length s) CHR ''*''
      else replicate (length s - 4) CHR ''*'' @ drop (length s - 4) s)"

end
