(* ===== verification/CloudAuth.thy ===== *)
theory CloudAuth
  imports Types
begin

text \<open>
  \<open>internal/cloudauth/transport.go\<close>: the HTTP transport that adds an identity token of the cloud to the
  requests to the Vendor Service and the settlement bank. The token is kept for 50 minutes; the answer of
  the metadata server and the two readings of the clock are given with each request. The mutex makes the
  calls of \<open>getToken\<close> follow one another.
\<close>

type_synonym headers = "string \<rightharpoonup> string"

record transport =
  tp_Audience :: string
  tp_token :: string
  tp_expiry :: instant

definition NewClient :: "string \<Rightarrow> transport" where
  "NewClient audience = \<lparr>tp_Audience = audience, tp_token = '''', tp_expiry = 0\<rparr>"

text \<open>One outgoing request. \<open>rt_Meta\<close> is what asking the metadata server for an audience gives: a failure of
  the exchange, or a status and the body, whose reading may fail. \<open>rt_Now\<close> is the time at the check of the
  expiry, \<open>rt_Stored\<close> the time when a new token is stored.\<close>

record round_trip =
  rt_Headers :: headers
  rt_Now :: instant
  rt_Stored :: instant
  rt_Meta :: "string \<Rightarrow> go_error + (nat \<times> (go_error + string))"

definition token_lifetime :: int where
  "token_lifetime = 50 * 60 * 10 ^ 9"

definition getToken :: "round_trip \<Rightarrow> transport \<Rightarrow> (go_error + string) \<times> transport" where
  "getToken c t =
     (if tp_token t \<noteq> '''' \<and> rt_Now c < tp_expiry t then (Inr (tp_token t), t)
      else (case rt_Meta c (tp_Audience t) of
          Inl err \<Rightarrow> (Inl err, t)
        | Inr (status, body) \<Rightarrow>
            if status \<noteq> 200 then (Inl (EMsg (''metadata server returned '' @ nat_text status)), t)
            else (case body of
                Inl err \<Rightarrow> (Inl err, t)
              | Inr b \<Rightarrow> (Inr b, t\<lparr>tp_token := b, tp_expiry := rt_Stored c + token_lifetime\<rparr>))))"

definition identity_header :: string where
  "identity_header = ''X-Serverless-Authorization''"

text \<open>The headers with which the request goes on to the base transport.\<close>

definition RoundTrip :: "round_trip \<Rightarrow> transport \<Rightarrow> headers \<times> transport" where
  "RoundTrip c t =
     (case getToken c t of
        (Inl err, t') \<Rightarrow> (rt_Headers c, t')
      | (Inr tok, t') \<Rightarrow>
          if tok = '''' then (rt_Headers c, t')
          else ((rt_Headers c)(identity_header \<mapsto> ''Bearer '' @ tok), t'))"

fun after_trips :: "round_trip list \<Rightarrow> transport \<Rightarrow> transport" where
  "after_trips [] t = t"
| "after_trips (c # cs) t = after_trips cs (snd (RoundTrip c t))"

section \<open>Where a cached token comes from\<close>

definition issued :: "string \<Rightarrow> string \<Rightarrow> round_trip \<Rightarrow> bool" where
  "issued aud tok c \<longleftrightarrow> rt_Meta c aud = Inr (200, Inr tok)"

definition cache_ok :: "round_trip set \<Rightarrow> transport \<Rightarrow> bool" where
  "cache_ok S t \<longleftrightarrow>
     tp_token t = '''' \<or> (\<exists>c \<in> S. issued (tp_Audience t) (tp_token t) c \<and> tp_expiry t = rt_Stored c + token_lifetime)"

lemma getToken_audience: "getToken c t = (r, t') \<Longrightarrow> tp_Audience t' = tp_Audience t"
  by (auto simp: getToken_def split: if_splits sum.splits)

lemma getToken_ok:
  assumes "getToken c t = (r, t')" "cache_ok S t"
  shows "cache_ok (insert c S) t'"
  using assms by (auto simp: getToken_def cache_ok_def issued_def split: if_splits sum.splits)

lemma getToken_valid:
  assumes "getToken c t = (Inr tok, t')" "cache_ok S t" "tok \<noteq> ''''"
  shows "issued (tp_Audience t) tok c \<or>
    (\<exists>c' \<in> S. issued (tp_Audience t) tok c' \<and> rt_Now c < rt_Stored c' + token_lifetime)"
  using assms by (auto simp: getToken_def cache_ok_def issued_def split: if_splits sum.splits)

lemma getToken_gets:
  "issued (tp_Audience t) tok c \<Longrightarrow> tok \<noteq> '''' \<Longrightarrow> \<exists>tok' t'. getToken c t = (Inr tok', t') \<and> tok' \<noteq> ''''"
  by (auto simp: getToken_def issued_def)

lemma RoundTrip_getToken: "snd (RoundTrip c t) = snd (getToken c t)"
  by (auto simp: RoundTrip_def split: prod.splits sum.splits)

lemma after_trips_ok:
  "cache_ok S t \<Longrightarrow> cache_ok (S \<union> set cs) (after_trips cs t) \<and> tp_Audience (after_trips cs t) = tp_Audience t"
proof (induction cs arbitrary: S t)
  case (Cons c cs)
  obtain r t' where g: "getToken c t = (r, t')" by force
  from Cons.IH [OF getToken_ok [OF g Cons.prems]] getToken_audience [OF g] show ?case
    by (simp add: RoundTrip_getToken g)
qed simp

end
