(* ===== verification/EdgeProperties.thy ===== *)
theory EdgeProperties
  imports DepositProperties StubServers Streams Logging CloudAuth
begin

text \<open>
  The properties at the edges of the system: the event stream of the clients, the two stub servers that
  stand for the Vendor Service and the settlement bank, the identity tokens of the cloud, and the redaction
  of the log.
\<close>

section \<open>The event stream\<close>

text \<open>C36. However streams open and close, notifications arrive and clients read, no goroutine of the
  broadcaster sends on a closed channel or closes one twice, the channels stay within their capacity, and
  what a client has been written and still has to read is, in order, what was broadcast to it: nothing is
  invented, doubled or reordered, and nothing is lost as long as its channel has room.\<close>

theorem stream_delivers_in_order:
  assumes "sse_run acts NewBroadcaster = Some s"
  shows "\<not> sb_Panic s \<and> length (waiting s i) \<le> 64 \<and>
    subseq (written s i @ waiting s i) (offered i acts NewBroadcaster) \<and>
    (keeps_up i acts NewBroadcaster \<longrightarrow> written s i @ waiting s i = offered i acts NewBroadcaster)"
proof -
  have inv: "sse_inv s" using sse_inv_run [OF assms sse_inv_start] .
  have "written NewBroadcaster i = []" "waiting NewBroadcaster i = []"
    by (simp_all add: NewBroadcaster_def written_def waiting_def)
  moreover have "length (waiting s i) \<le> 64"
    using sse_invD(1) [OF inv, of i] by (auto simp: waiting_def stream_ok_def chan_cap_def split: option.splits)
  ultimately show ?thesis
    using history_run [OF assms sse_inv_start, of i] sse_invD(4) [OF inv] by simp
qed

definition demo_note :: notification where
  "demo_note = JsonNote [(''transfer_id'', JStr ''t1''), (''to_state'', JStr ''Completed'')]"

definition demo_actions :: "sse_action list" where
  "demo_actions =
     [StreamStart 1, StreamSubscribe 1, LoopBegin (Notified (Some demo_note)) [1], LoopSend 0, LoopEnd 0,
      StreamData 1, StreamDelete 1, LoopBegin (Notified (Some demo_note)) [], LoopEnd 0, StreamClose 1]"

theorem stream_delivers_in_order_witness:
  "\<exists>s. sse_run demo_actions NewBroadcaster = Some s \<and> \<not> sb_Panic s \<and> written s 1 @ waiting s 1 = [demo_note] \<and>
     sb_Out s 1 = [SseComment ''connected'', SseEvent ''transfer_update'' demo_note]"
proof -
  define s where "s = the (sse_run demo_actions NewBroadcaster)"
  have run: "sse_run demo_actions NewBroadcaster = Some s" and "sb_Out s 1 = [SseComment ''connected'',
      SseEvent ''transfer_update'' demo_note]" and "keeps_up 1 demo_actions NewBroadcaster"
    "offered 1 demo_actions NewBroadcaster = [demo_note]"
    unfolding s_def demo_actions_def NewBroadcaster_def
    by (simp_all add: stream_start_def Subscribe_def lock_free_def listen_def broadcast_begin_def broadcast_send_def
        broadcast_end_def make_chan_def try_send_def chan_cap_def serve_data_def write_event_def event_type_of_def
        demo_note_def Unsubscribe_delete_def Unsubscribe_close_def close_chan_def waiting_def)
  then show ?thesis using stream_delivers_in_order [OF run, of 1] by auto
qed

text \<open>No client can hold up a broadcast: in every state of the broadcaster a loop that holds the read
  lock ends after one step per client it still has to serve, even if nobody reads, so that the lock becomes
  free for clients that come and go.\<close>

lemma broadcast_always_ends:
  assumes "sse_run acts NewBroadcaster = Some s" "k < length (sb_Loops s)"
  shows "\<exists>s'. sse_run (replicate (length (snd (sb_Loops s ! k))) (LoopSend k) @ [LoopEnd k]) s = Some s' \<and>
    sb_Loops s' = take k (sb_Loops s) @ drop (Suc k) (sb_Loops s) \<and> \<not> sb_Panic s'"
proof -
  have "sse_inv s" using sse_inv_run [OF assms(1) sse_inv_start] .
  from loop_ends [OF this assms(2), of "fst (sb_Loops s ! k)" "snd (sb_Loops s ! k)"]
  show ?thesis by (auto dest: sse_invD(4))
qed

lemma broadcast_always_ends_witness:
  "\<exists>s s'. sse_run [StreamStart 1, StreamSubscribe 1, LoopBegin (Notified (Some demo_note)) [1]] NewBroadcaster = Some s \<and>
     sse_run [LoopSend 0, LoopEnd 0] s = Some s' \<and> lock_free s'"
proof -
  obtain s where s: "sse_run [StreamStart 1, StreamSubscribe 1, LoopBegin (Notified (Some demo_note)) [1]]
      NewBroadcaster = Some s" "sb_Loops s = [(demo_note, [1])]"
    by (simp add: NewBroadcaster_def stream_start_def Subscribe_def lock_free_def listen_def broadcast_begin_def)
  with broadcast_always_ends [OF s(1), of 0] show ?thesis by (auto simp: lock_free_def)
qed


section \<open>The stub of the Vendor Service\<close>

lemma nat_text_inject: "nat_text a = nat_text b \<longleftrightarrow> a = b"
  by (metis nat_value_nat_text)

lemma digits_not_dash: "list_all is_digit s \<Longrightarrow> CHR ''-'' \<notin> set s"
  by (auto simp: list_all_iff is_digit_def)

lemma last_field_unique:
  assumes "a @ CHR ''-'' # x = b @ CHR ''-'' # y" "CHR ''-'' \<notin> set x" "CHR ''-'' \<notin> set y"
  shows "x = y"
proof -
  have tw: "takeWhile (\<lambda>c. c \<noteq> CHR ''-'') (rev x @ CHR ''-'' # rev a) = rev x"
    if "CHR ''-'' \<notin> set x" for x a :: string
    using that by (subst takeWhile_append2) auto
  have "rev x @ CHR ''-'' # rev a = rev y @ CHR ''-'' # rev b" using arg_cong [OF assms(1), of rev] by simp
  then have "rev x = rev y" using tw [OF assms(2), of a] tw [OF assms(3), of b] by metis
  then show ?thesis by simp
qed

text \<open>The replies to a list of requests, served one after the other by the same stub.\<close>

fun validate_all ::
  "vendor_handler \<Rightarrow> (string \<times> ValidateRequest option \<times> instant) list \<Rightarrow> ValidateResponse http_reply list" where
  "validate_all h [] = []"
| "validate_all h ((sc, body, now) # rqs) =
     (case validate h sc body now of (reply, h') \<Rightarrow> reply # validate_all h' rqs)"

definition replied_ids :: "ValidateResponse http_reply list \<Rightarrow> string list" where
  "replied_ids rs = concat (map (\<lambda>r. case r of HttpReply n (Some resp) \<Rightarrow> [TransactionID resp] | _ \<Rightarrow> []) rs)"

lemma validate_reply:
  "validate h sc body now = (reply, h') \<Longrightarrow>
   vh_seq h \<le> vh_seq h' \<and> (\<forall>n resp. reply = HttpReply n (Some resp) \<longrightarrow>
     TransactionID resp = transaction_id now (vh_seq h') \<and> vh_seq h < vh_seq h')"
  by (auto simp: validate_def Let_def scenario_response_def split: option.splits sum.splits if_splits)

lemma replied_ids_seq:
  "tx \<in> set (replied_ids (validate_all h rqs)) \<Longrightarrow> \<exists>now n. tx = transaction_id now n \<and> vh_seq h < n"
proof (induction h rqs rule: validate_all.induct)
  case (2 h sc body now rqs)
  obtain reply h' where v: "validate h sc body now = (reply, h')" by force
  from 2(2) v have "(\<exists>n resp. reply = HttpReply n (Some resp) \<and> tx = TransactionID resp) \<or>
      tx \<in> set (replied_ids (validate_all h' rqs))"
    by (auto simp: replied_ids_def split: http_reply.splits option.splits)
  with validate_reply [OF v] 2(1) [OF v [symmetric]] show ?case by (metis order_le_less_trans)
qed (simp add: replied_ids_def)

text \<open>The transaction ids of the Vendor Service are unique: the replies of one run of the stub never
  carry the same id twice, whatever the clock does, so the constraint \<open>unique_vendor_tx\<close> is not hit.\<close>

lemma transaction_ids_unique:
  "distinct (replied_ids (validate_all h rqs))"
proof -
  have inj: "m = n" if "transaction_id s m = transaction_id t n" for s t m n
  proof -
    have "(''vss-'' @ int_text (s div 10 ^ 6)) @ CHR ''-'' # nat_text m =
        (''vss-'' @ int_text (t div 10 ^ 6)) @ CHR ''-'' # nat_text n"
      using that by (simp only: transaction_id_def append_assoc append_Cons append_Nil)
    then have "nat_text m = nat_text n"
      by (rule last_field_unique) (rule digits_not_dash [OF nat_text_digits])+
    then show ?thesis by (simp only: nat_text_inject)
  qed
  show ?thesis
  proof (induction h rqs rule: validate_all.induct)
    case (2 h sc body now rqs)
    obtain reply h' where v: "validate h sc body now = (reply, h')" by force
    have IH: "distinct (replied_ids (validate_all h' rqs))" using 2 v by simp
    have "TransactionID resp \<notin> set (replied_ids (validate_all h' rqs))"
      if "reply = HttpReply n (Some resp)" for n resp
      using validate_reply [OF v] that replied_ids_seq [of "TransactionID resp" h' rqs] inj by fastforce
    with v IH show ?case by (auto simp: replied_ids_def split: http_reply.splits option.splits)
  qed (simp add: replied_ids_def)
qed

section \<open>The log\<close>

text \<open>\<open>Redact\<close> keeps the length and reveals at most the last four characters of a string of more than
  four; everything else becomes an asterisk.\<close>

lemma redact_reveals_last_four:
  assumes "i < length s"
  shows "length (Redact s) = length s \<and>
    Redact s ! i = (if 4 < length s \<and> length s - 4 \<le> i then s ! i else CHR ''*'')"
  using assms by (auto simp: Redact_def nth_append)

lemma redact_examples:
  "length (Redact ''021000021'') = 9 \<and> Redact ''021000021'' ! 0 = CHR ''*'' \<and> Redact ''12'' ! 1 = CHR ''*''"
  using redact_reveals_last_four [of 0 "''021000021''"] redact_reveals_last_four [of 1 "''12''"] by simp


section \<open>The scenarios of the demo\<close>

text \<open>The scenarios of \<open>test-scenarios/scenarios.yaml\<close>.\<close>

definition seed_scenario ::
  "string \<Rightarrow> string \<Rightarrow> string \<Rightarrow> string option \<Rightarrow> MICRData option \<Rightarrow> float64 option \<Rightarrow> int \<Rightarrow> string option \<Rightarrow> scenario" where
  "seed_scenario name account status err micr override confidence duplicate =
     \<lparr>sn_Name = name, sn_TriggerAccount = account,
      sn_Response = \<lparr>sc_IQAStatus = status, sc_IQAErrorType = err, sc_MICRData = micr, sc_OCRAmountOverride = override,
        sc_ConfidenceScore = of_cents confidence, sc_DuplicateFlag = (duplicate \<noteq> None),
        sc_DuplicateOriginalTxID = duplicate\<rparr>\<rparr>"

definition seed_micr :: "string \<Rightarrow> string \<Rightarrow> MICRData option" where
  "seed_micr account number = Some \<lparr>Routing = ''021000021'', Account = account, CheckNumber = number\<rparr>"

definition seed_scenarios :: "scenario list" where
  "seed_scenarios =
     [seed_scenario ''clean_pass'' ''ALPHA-001'' ''pass'' None (seed_micr ''123456789'' ''1001'') None 97 None,
      seed_scenario ''iqa_fail_blur'' ''ALPHA-002'' ''fail'' (Some ''blur'') None None 0 None,
      seed_scenario ''iqa_fail_glare'' ''ALPHA-003'' ''fail'' (Some ''glare'') None None 0 None,
      seed_scenario ''micr_failure'' ''ALPHA-004'' ''pass'' (Some ''VSS_MICR_READ_FAIL'') None None 0 None,
      seed_scenario ''amount_mismatch'' ''ALPHA-005'' ''pass'' (Some ''VSS_AMOUNT_MISMATCH'')
        (seed_micr ''123456789'' ''1005'') (Some (of_cents 25000)) 92 None,
      seed_scenario ''duplicate_detected'' ''BETA-001'' ''pass'' (Some ''VSS_DUPLICATE_DETECTED'')
        (seed_micr ''987654321'' ''2001'') None 97 (Some ''vss-original-tx-001''),
      seed_scenario ''ira_clean_pass'' ''ALPHA-IRA'' ''pass'' None (seed_micr ''111111111'' ''3001'') None 96 None]"

text \<open>Their \<open>expected_routing\<close>, for an account that the funding rules accept: the clean ones are posted.\<close>

definition expected_routing :: "string \<Rightarrow> uuid \<Rightarrow> deposit_end" where
  "expected_routing name omni =
     (if name = ''iqa_fail_blur'' then RejectedWith ErrCodeVSSIQABlur
      else if name = ''iqa_fail_glare'' then RejectedWith ErrCodeVSSIQAGlare
      else if name = ''duplicate_detected'' then RejectedWith ErrCodeVSSDuplicateDetected
      else if name = ''micr_failure'' then ForReview ''VSS_MICR_READ_FAIL''
      else if name = ''amount_mismatch'' then ForReview ''VSS_AMOUNT_MISMATCH''
      else ToPost omni)"

definition seed_handler :: vendor_handler where
  "seed_handler = \<lparr>vh_byCode = foldl (\<lambda>m s. m(sn_TriggerAccount s \<mapsto> s)) Map.empty seed_scenarios,
     vh_byName = foldl (\<lambda>m s. m(sn_Name s \<mapsto> s)) Map.empty seed_scenarios, vh_seq = 0\<rparr>"

lemma seed_handler_loaded: "unmarshal txt = Inr seed_scenarios \<Longrightarrow> newHandler unmarshal path (Inr txt) = Inr seed_handler"
  by (simp add: newHandler_def seed_handler_def)

text \<open>The stub as the Vendor Service: the client of \<open>vendorclient\<close> sends the scenario as its header.\<close>

definition stub_vendor :: "vendor_handler \<Rightarrow> nat \<Rightarrow> instant \<Rightarrow> ValidateRequest \<Rightarrow> ValidateResponse http_reply" where
  "stub_vendor h n now req = fst (validate (h\<lparr>vh_seq := n\<rparr>) (vq_Scenario req) (Some req) now)"

lemma index_lookup:
  "distinct (map f ss) \<Longrightarrow> s \<in> set ss \<Longrightarrow> foldl (\<lambda>m s. m(f s \<mapsto> s)) m0 ss (f s) = Some s"
proof (induction ss rule: rev_induct)
  case (snoc x ss)
  then show ?case by (cases "s = x") (auto simp: image_iff)
qed simp

lemma seed_keys: "map sn_Name seed_scenarios = [''clean_pass'', ''iqa_fail_blur'', ''iqa_fail_glare'',
    ''micr_failure'', ''amount_mismatch'', ''duplicate_detected'', ''ira_clean_pass'']"
  "map sn_TriggerAccount seed_scenarios = [''ALPHA-001'', ''ALPHA-002'', ''ALPHA-003'', ''ALPHA-004'',
    ''ALPHA-005'', ''BETA-001'', ''ALPHA-IRA'']"
  by (simp_all add: seed_scenarios_def seed_scenario_def)

lemma seed_lookup:
  assumes "s \<in> set seed_scenarios"
  shows "vh_byName seed_handler (sn_Name s) = Some s" "vh_byCode seed_handler (sn_TriggerAccount s) = Some s"
  unfolding seed_handler_def vendor_handler.simps
  by (rule index_lookup [OF _ assms]; simp add: seed_keys)+

lemma seed_route:
  assumes "s \<in> set seed_scenarios"
    and "vq_Scenario req = sn_Name s \<or>
      vq_Scenario req = '''' \<and> accountIDToCode (vq_AccountID req) = Some (sn_TriggerAccount s)"
  shows "route (seed_handler\<lparr>vh_seq := n\<rparr>) (vq_Scenario req) req = Inr s"
proof -
  have "sn_Name s \<in> set (map sn_Name seed_scenarios)" using assms(1) by simp
  then have "sn_Name s \<noteq> ''''" unfolding seed_keys by auto
  then show ?thesis using assms(2) seed_lookup [OF assms(1)] by (auto simp: route_def)
qed

lemma of_cents_finite: "\<bar>c\<bar> \<le> 10 ^ 14 \<Longrightarrow> json_number_ok (of_cents c)"
  by (rule of_cents_error [of c]) simp_all

lemma seed_reply:
  assumes "s \<in> set seed_scenarios" "json_number_ok (vq_Amount req)"
    and "vq_Scenario req = sn_Name s \<or>
      vq_Scenario req = '''' \<and> accountIDToCode (vq_AccountID req) = Some (sn_TriggerAccount s)"
  shows "stub_vendor seed_handler n now req = HttpReply 200 (Some (scenario_response s req (transaction_id now (n + 1))))"
proof -
  have "json_number_ok (sc_ConfidenceScore (sn_Response s))"
    "\<forall>a. sc_OCRAmountOverride (sn_Response s) = Some a \<longrightarrow> json_number_ok a"
    using assms(1) of_cents_finite [of 97] of_cents_finite [of 0] of_cents_finite [of 92] of_cents_finite [of 96]
      of_cents_finite [of 25000]
    by (auto simp: seed_scenarios_def seed_scenario_def)
  then show ?thesis
    using assms(2) by (auto simp: stub_vendor_def validate_def seed_route [OF assms(1,3)] Let_def
        scenario_response_def split: option.splits)
qed


lemma seed_spec:
  assumes "s \<in> set seed_scenarios" "json_number_ok (td_Amount td)" "\<not> f_eq (of_cents 25000) (td_Amount td)"
    and "td_AccountStatus td = ''ACTIVE''" "td_AccountType td \<notin> set (IneligibleAccountTypes (td_RulesConfig td))"
    and "\<not> f_lt (DepositLimit (td_RulesConfig td)) (td_Amount td)"
    and "omnibus_of (td_CorrespondentID td) accts = Some omni"
  shows "deposit_spec td (HttpReply 200 (Some (scenario_response s (vendor_request td) tx))) accts =
    expected_routing (sn_Name s) (a_id omni)"
proof -
  obtain x where amount: "td_Amount td = Fin x" using assms(2) by (cases "td_Amount td") auto
  have "\<forall>s \<in> set seed_scenarios. deposit_spec td (HttpReply 200 (Some (scenario_response s (vendor_request td) tx))) accts =
    expected_routing (sn_Name s) (a_id omni)"
    using assms(2-7) unfolding seed_scenarios_def
    by (simp add: seed_scenario_def deposit_spec_def scenario_response_def vendor_request_def expected_routing_def
        iqa_error_code_def vss_review_reason_def seed_micr_def amount ErrCodeVSSIQABlur_def ErrCodeVSSIQAGlare_def Let_def)
  with assms(1) show ?thesis by blast
qed

text \<open>C37. Against the stub of the Vendor Service, the demo scenarios of \<open>scenarios.yaml\<close> end a deposit as
  the file says, whether they are chosen by the scenario header or by the account: blurred, glaring and
  duplicate checks are rejected with their codes, an unreadable MICR line and an amount that differs from
  the recognised 250.00 are flagged, and the clean ones go to posting, when the funding rules accept the
  account.\<close>

theorem scenarios_route_as_documented:
  assumes "fault_free e" "\<And>n rq. vendor e n rq = stub_vendor seed_handler n (clock e n) rq"
    and "s \<in> set seed_scenarios" "td_Scenario td = sn_Name s \<or>
      td_Scenario td = '''' \<and> accountIDToCode (td_AccountID td) = Some (sn_TriggerAccount s)"
    and "canonical e (td_TransferID td)" "transfer_of (w_db w) (td_TransferID td) = Some r" "t_state r = Requested"
    and "json_number_ok (td_Amount td)" "\<not> f_eq (of_cents 25000) (td_Amount td)"
    and "td_AccountStatus td = ''ACTIVE''" "td_AccountType td \<notin> set (IneligibleAccountTypes (td_RulesConfig td))"
    and "\<not> f_lt (DepositLimit (td_RulesConfig td)) (td_Amount td)"
    and "omnibus_of (td_CorrespondentID td) (accounts (w_db w)) = Some omni"
  shows "\<exists>res w'. run (ProcessDeposit orchDeps td) e w = (Done res, w') \<and>
    ends_as td (w_db w) (expected_routing (sn_Name s) (a_id omni)) res (w_db w')"
proof -
  have "vendor e n (vendor_request td) =
      HttpReply 200 (Some (scenario_response s (vendor_request td) (transaction_id (clock e n) (n + 1))))" for n
    using seed_reply [OF assms(3), of "vendor_request td"] assms(2,4,8) by (simp add: vendor_request_def)
  then have spec: "deposit_spec td (vendor e n (vendor_request td)) (accounts (w_db w)) =
      expected_routing (sn_Name s) (a_id omni)" for n
    using seed_spec [OF assms(3,8-13)] by simp
  show ?thesis
    using ProcessDeposit_ends [OF assms(1,5-7)] by (auto simp: spec returns_def split: prod.splits outcome.splits)
qed

definition stub_env :: env where
  "stub_env = demo_env\<lparr>vendor := (\<lambda>n rq. stub_vendor seed_handler n (clock demo_env n) rq)\<rparr>"

theorem scenarios_route_as_documented_witness:
  "\<exists>res w'. run (ProcessDeposit orchDeps (demo_detail\<lparr>td_Scenario := ''micr_failure''\<rparr>)) stub_env
      (demo_world [demo_transfer check1 Requested] []) = (Done res, w') \<and>
    ends_as (demo_detail\<lparr>td_Scenario := ''micr_failure''\<rparr>) (w_db (demo_world [demo_transfer check1 Requested] []))
      (ForReview ''VSS_MICR_READ_FAIL'') res (w_db w')"
proof -
  let ?s = "seed_scenario ''micr_failure'' ''ALPHA-004'' ''pass'' (Some ''VSS_MICR_READ_FAIL'') None None 0 None"
  let ?td = "demo_detail\<lparr>td_Scenario := ''micr_failure''\<rparr>" and ?w = "demo_world [demo_transfer check1 Requested] []"
  have e: "fault_free stub_env" "vendor stub_env n rq = stub_vendor seed_handler n (clock stub_env n) rq"
    "canonical stub_env check1" for n rq
    using demo_fault_free demo_canonical [of check1] by (simp_all add: stub_env_def fault_free_def canonical_def)
  have s: "?s \<in> set seed_scenarios" by (simp add: seed_scenarios_def)
  have amount: "json_number_ok (of_cents 10000)" "\<not> f_eq (of_cents 25000) (of_cents 10000)"
    using of_cents_dollars [of 100] of_cents_dollars [of 250] by simp_all
  have name: "sn_Name ?s = ''micr_failure''" by (simp add: seed_scenario_def)
  show ?thesis
    using scenarios_route_as_documented [OF e(1,2) s, of ?td ?w "demo_transfer check1 Requested"] e(3) amount name
      demo_limit demo_omnibus
    by (simp add: db_simps expected_routing_def)
qed

section \<open>The stub of the settlement bank\<close>

text \<open>The stub calls the API that listens at its address: \<open>POST /returns\<close> with the given header.\<close>

definition api_over_http :: "returnRequest \<Rightarrow> string \<Rightarrow> (go_error + response) prog" where
  "api_over_http rq auth = bind (serve (RqReturn (Some rq) auth)) (\<lambda>rs. Ret (Inr rs))"

text \<open>C38. The callback of the settlement bank's stub is a return request with the stub's own token: with the
  token of the API it answers and changes the database exactly as the return handler does, under any
  fault, and with another token, or with none in the API, it passes the 401 on and changes nothing.\<close>

theorem bank_callback_is_a_return:
  assumes "genv ''SETTLEMENT_BANK_TOKEN'' \<noteq> ''''" "i \<noteq> ''''" "code \<noteq> ''''"
  shows "run (handleReturn genv (Some (i, code)) api_over_http) e w =
    (if genv ''SETTLEMENT_BANK_TOKEN'' = getenv e ''SETTLEMENT_BANK_TOKEN''
     then run (ReturnHandler_ProcessReturn (Some \<lparr>rr_TransferID = i, rr_ReturnReasonCode = code\<rparr>)) e w
     else (Done (http_Error (error_text (if getenv e ''SETTLEMENT_BANK_TOKEN'' = ''''
              then ''settlement auth not configured'' else ''unauthorized'')) 401), w))"
proof -
  have bearer: "extractBearerToken (''Bearer '' @ tok) = tok" for tok
    by (simp only: extractBearerToken_def HasPrefix_append if_True) simp
  show ?thesis
    using assms
    by (simp add: handleReturn_def api_over_http_def SettlementAuth_def bind_assoc run_bind run_go_getenv bearer
        split: prod.splits outcome.splits del: append.simps)
qed

theorem bank_callback_is_a_return_witness:
  "run (handleReturn (\<lambda>_. ''secret'') (Some (check1, ''R01'')) api_over_http)
      (demo_env\<lparr>getenv := \<lambda>_. ''other''\<rparr>) (demo_world [demo_transfer check1 FundsPosted] (demo_credit check1)) =
    (Done (http_Error (error_text ''unauthorized'') 401),
     demo_world [demo_transfer check1 FundsPosted] (demo_credit check1))"
  using bank_callback_is_a_return [of "\<lambda>_. ''secret''" check1 "''R01''" "demo_env\<lparr>getenv := \<lambda>_. ''other''\<rparr>"]
  by (simp add: check1_def)

section \<open>Identity tokens of the cloud\<close>

text \<open>After any history of requests, the transport passes a request on with its own headers, but for the
  identity token. The token it adds was issued for its audience by the metadata server, at this request or
  at an earlier one less than 50 minutes ago; and a request for which the server has a token never goes out
  without one.\<close>

lemma identity_tokens_are_fresh:
  assumes "RoundTrip c (after_trips hist (NewClient aud)) = (sent, t')"
  shows "(\<forall>k. k \<noteq> identity_header \<longrightarrow> sent k = rt_Headers c k) \<and>
    (sent \<noteq> rt_Headers c \<longrightarrow> (\<exists>tok. sent identity_header = Some (''Bearer '' @ tok) \<and>
      (issued aud tok c \<or> (\<exists>c' \<in> set hist. issued aud tok c' \<and> rt_Now c < rt_Stored c' + token_lifetime)))) \<and>
    (\<forall>tok. issued aud tok c \<and> tok \<noteq> '''' \<longrightarrow> (\<exists>tok'. tok' \<noteq> '''' \<and> sent identity_header = Some (''Bearer '' @ tok')))"
proof -
  let ?t = "after_trips hist (NewClient aud)"
  have "cache_ok {} (NewClient aud)" by (simp add: cache_ok_def NewClient_def)
  from after_trips_ok [OF this, of hist] have t: "cache_ok (set hist) ?t" "tp_Audience ?t = aud"
    by (simp_all add: NewClient_def)
  show ?thesis
  proof (cases "\<exists>tok t''. getToken c ?t = (Inr tok, t'') \<and> tok \<noteq> ''''")
    case True
    then obtain tok t'' where g: "getToken c ?t = (Inr tok, t'')" "tok \<noteq> ''''" by blast
    with assms have "sent = (rt_Headers c)(identity_header \<mapsto> ''Bearer '' @ tok)" by (simp add: RoundTrip_def)
    with getToken_valid [OF g(1) t(1) g(2)] g(2) show ?thesis unfolding t(2) by auto
  next
    case False
    with assms have "sent = rt_Headers c" by (auto simp: RoundTrip_def split: prod.splits sum.splits if_splits)
    with False getToken_gets [of ?t _ c] show ?thesis unfolding t(2) by blast
  qed
qed

definition demo_trip :: "instant \<Rightarrow> string \<Rightarrow> round_trip" where
  "demo_trip now tok = \<lparr>rt_Headers = [''Authorization'' \<mapsto> ''Bearer app''], rt_Now = now, rt_Stored = now,
     rt_Meta = (\<lambda>_. Inr (200, Inr tok))\<rparr>"

lemma identity_tokens_are_fresh_witness:
  "fst (RoundTrip (demo_trip 60 ''two'') (after_trips [demo_trip 0 ''one''] (NewClient ''stub''))) ''Authorization''
     = Some ''Bearer app'' \<and>
   (\<exists>tok'. fst (RoundTrip (demo_trip 60 ''two'') (after_trips [demo_trip 0 ''one''] (NewClient ''stub'')))
     identity_header = Some (''Bearer '' @ tok') \<and> tok' \<noteq> '''')"
proof -
  obtain sent t' where rt: "RoundTrip (demo_trip 60 ''two'') (after_trips [demo_trip 0 ''one''] (NewClient ''stub'')) = (sent, t')"
    by force
  have "''Authorization'' \<noteq> identity_header" "issued ''stub'' ''two'' (demo_trip 60 ''two'')"
    "rt_Headers (demo_trip 60 ''two'') ''Authorization'' = Some ''Bearer app''"
    by (simp_all add: identity_header_def issued_def demo_trip_def)
  with identity_tokens_are_fresh [OF rt] show ?thesis unfolding rt by (auto simp del: append.simps)
qed

end
