(* ===== verification/Startup.thy ===== *)
theory Startup
  imports Routes Streams
begin

text \<open>
  The \<open>main\<close> functions of the three binaries (\<open>cmd/api\<close>, \<open>cmd/vendor-stub\<close>, \<open>cmd/settlement-stub\<close>): what they take
  from their environment, the wait for the database, the address they listen on, and the addresses the clients
  of the other services call. The environment of a process is a function \<open>genv\<close> that gives the empty string for
  a variable that is not set, as \<open>os.Getenv\<close> does. A server runs until \<open>ListenAndServe\<close> fails, which ends it.
\<close>

section \<open>Settings\<close>

text \<open>The first variable that is set, or a default.\<close>

fun first_set :: "(string \<Rightarrow> string) \<Rightarrow> string list \<Rightarrow> string \<Rightarrow> string" where
  "first_set genv [] d = d"
| "first_set genv (k # ks) d = (if genv k = '''' then first_set genv ks d else genv k)"

definition api_port :: "(string \<Rightarrow> string) \<Rightarrow> string" where
  "api_port genv = first_set genv [''PORT'', ''API_PORT''] ''8080''"

definition vendor_port :: "(string \<Rightarrow> string) \<Rightarrow> string" where
  "vendor_port genv = first_set genv [''PORT'', ''VSS_PORT''] ''8081''"

definition settlement_port :: "(string \<Rightarrow> string) \<Rightarrow> string" where
  "settlement_port genv = first_set genv [''PORT'', ''SETTLEMENT_PORT''] ''8082''"

definition vss_url :: "(string \<Rightarrow> string) \<Rightarrow> string" where
  "vss_url genv = first_set genv [''VSS_URL''] ''http://localhost:8081''"

definition settlement_bank_url :: "(string \<Rightarrow> string) \<Rightarrow> string" where
  "settlement_bank_url genv = first_set genv [''SETTLEMENT_BANK_URL''] ''http://localhost:8082''"

definition callback_url :: "(string \<Rightarrow> string) \<Rightarrow> string" where
  "callback_url genv = first_set genv [''API_URL''] ''http://localhost:8080''"

definition scenarios_path :: "(string \<Rightarrow> string) \<Rightarrow> string" where
  "scenarios_path genv = first_set genv [''SCENARIOS_PATH''] ''test-scenarios/scenarios.yaml''"

definition listen_addr :: "string \<Rightarrow> string" where
  "listen_addr port = '':'' @ port"

section \<open>Waiting for the database\<close>

text \<open>The loop over \<open>db.Ping\<close>; \<open>ping i\<close> is the result of attempt \<open>i\<close>.\<close>

function await_database :: "(nat \<Rightarrow> go_error option) \<Rightarrow> nat \<Rightarrow> go_error option" where
  "await_database ping i =
     (if 30 \<le> i then None
      else (case ping i of
          None \<Rightarrow> None
        | Some err \<Rightarrow>
            if i = 29 then Some (EWrap ''failed to ping database after 30 retries'' err)
            else await_database ping (Suc i)))"
  by pat_completeness auto

termination
  by (relation "measure (\<lambda>(ping, i). 30 - i)") auto

declare await_database.simps [simp del]

text \<open>The server starts exactly when one of the thirty attempts succeeds.\<close>

lemma await_database_ready:
  assumes "i < 30"
  shows "await_database ping i = None \<longleftrightarrow> (\<exists>k. i \<le> k \<and> k < 30 \<and> ping k = None)"
  using assms
proof (induction ping i rule: await_database.induct)
  case (1 ping i)
  show ?case
  proof (cases "ping i")
    case None
    with 1(2) show ?thesis by (subst await_database.simps) auto
  next
    case (Some err)
    show ?thesis
    proof (cases "i = 29")
      case True
      have "k = 29" if "29 \<le> k" "k < 30" for k :: nat using that by simp
      with True Some have "\<not> (\<exists>k. i \<le> k \<and> k < 30 \<and> ping k = None)" by (metis option.distinct(1))
      with True Some show ?thesis by (subst await_database.simps) simp
    next
      case False
      with 1(2) have "Suc i < 30" by simp
      with 1 False Some have "await_database ping (Suc i) = None \<longleftrightarrow> (\<exists>k. Suc i \<le> k \<and> k < 30 \<and> ping k = None)"
        by simp
      moreover have "await_database ping i = await_database ping (Suc i)"
        using 1(2) False Some by (subst await_database.simps) simp
      moreover have "i \<le> k \<longleftrightarrow> Suc i \<le> k" if "ping k = None" for k
        using that Some by (cases "k = i") auto
      ultimately show ?thesis by auto
    qed
  qed
qed

section \<open>The processes\<close>

datatype 'p startup = Fatal go_error | Serving 'p

record api_process =
  ap_Addr :: string
  ap_VssURL :: string
  ap_SettlementURL :: string
  ap_Handler :: "http_request \<Rightarrow> reply"
  ap_Broadcaster :: sse

text \<open>\<open>open_db\<close> is \<open>sql.Open\<close> on the data source, \<open>pg_listen\<close> the listener for its notifications, \<open>read\<close> the reading
  of the scenario file and \<open>unmarshal\<close> the YAML parser; a scenario file that does not load only removes its route.\<close>

definition api_main ::
  "(string \<Rightarrow> string) \<Rightarrow> (string \<Rightarrow> go_error option) \<Rightarrow> (nat \<Rightarrow> go_error option)
     \<Rightarrow> (string \<Rightarrow> string \<Rightarrow> go_error option) \<Rightarrow> (string \<Rightarrow> go_error + string)
     \<Rightarrow> (string \<Rightarrow> go_error + scenarioEntry list option) \<Rightarrow> api_process startup" where
  "api_main genv open_db ping pg_listen read unmarshal =
     (case open_db (genv ''DATABASE_URL'') of
        Some err \<Rightarrow> Fatal (EWrap ''failed to connect to database'' err)
      | None \<Rightarrow>
          (case await_database ping 0 of
             Some err \<Rightarrow> Fatal err
           | None \<Rightarrow>
               (case start_broadcaster (pg_listen (genv ''DATABASE_URL'')) ''transfer_updates'' of
                  Inl err \<Rightarrow> Fatal (EWrap ''failed to start SSE broadcaster'' err)
                | Inr b \<Rightarrow> Serving
                    \<lparr>ap_Addr = listen_addr (api_port genv), ap_VssURL = vss_url genv,
                     ap_SettlementURL = settlement_bank_url genv,
                     ap_Handler = apiMux (NewScenariosHandler unmarshal (read (scenarios_path genv))),
                     ap_Broadcaster = b\<rparr>)))"

text \<open>The API serves exactly when the database can be opened, answers in time and can be listened to.\<close>

lemma api_main_serves:
  "(\<exists>p. api_main genv open_db ping pg_listen read unmarshal = Serving p) \<longleftrightarrow>
     open_db (genv ''DATABASE_URL'') = None \<and> (\<exists>k < 30. ping k = None) \<and>
     pg_listen (genv ''DATABASE_URL'') ''transfer_updates'' = None"
  using await_database_ready [of 0 ping]
  by (auto simp: api_main_def start_broadcaster_def split: option.splits sum.splits)

text \<open>The two stubs: their address, and their routes.\<close>

definition vendor_main ::
  "(string \<Rightarrow> string) \<Rightarrow> (string \<Rightarrow> go_error + string) \<Rightarrow> (string \<Rightarrow> go_error + scenario list) \<Rightarrow> string \<times> vendor_handler" where
  "vendor_main genv read unmarshal =
     (let path = scenarios_path genv
      in (listen_addr (vendor_port genv), stub_handler (newHandler unmarshal path (read path))))"

definition settlement_main :: "(string \<Rightarrow> string) \<Rightarrow> string" where
  "settlement_main genv = listen_addr (settlement_port genv)"

type_synonym stub_routes = "(string \<times> segment list) list"

definition vendor_routes :: stub_routes where
  "vendor_routes = [(''GET'', [Lit ''health'']), (''POST'', [Lit ''validate''])]"

definition settlement_routes :: stub_routes where
  "settlement_routes =
     [(''GET'', [Lit ''health'']),
      (''POST'', [Lit ''settlement'', Lit ''submit'']),
      (''POST'', [Lit ''settlement'', Lit ''return''])]"

text \<open>What the clients call: the base address, the method and the path.\<close>

type_synonym target = "string \<times> string \<times> string list"

definition validate_target :: "string \<Rightarrow> target" where
  "validate_target base = (base, ''POST'', [''validate''])"

definition submit_target :: "string \<Rightarrow> target" where
  "submit_target base = (base, ''POST'', [''settlement'', ''submit''])"

definition simulate_target :: "string \<Rightarrow> target" where
  "simulate_target base = (base, ''POST'', [''settlement'', ''return''])"

definition callback_target :: "(string \<Rightarrow> string) \<Rightarrow> target" where
  "callback_target genv = (callback_url genv, ''POST'', [''returns''])"

text \<open>A server at an address that has a route for the target.\<close>

definition answers :: "string \<Rightarrow> stub_routes \<Rightarrow> target \<Rightarrow> bool" where
  "answers base rts t \<longleftrightarrow> fst t = base \<and>
     list_ex (\<lambda>(m, p). match_method m (fst (snd t)) \<and> match_path p (snd (snd t)) \<noteq> None) rts"

text \<open>The clients of the API ask for paths that the stubs serve.\<close>

lemma stub_answers:
  "answers base vendor_routes (validate_target base)"
  "answers base settlement_routes (submit_target base)"
  "answers base settlement_routes (simulate_target base)"
  by (simp_all add: answers_def vendor_routes_def settlement_routes_def validate_target_def submit_target_def
      simulate_target_def match_method_def)

end
