(* ===== verification/Infrastructure.thy ===== *)
theory Infrastructure
  imports Runtime
begin

text \<open>
  The deployment program \<open>infra/main.go\<close>. It declares resources to Pulumi one after the other and returns at the
  first one that the engine refuses. A resource is its type, its name and the tree of its arguments; an output of
  a resource that is not known before the deployment is a reference (\<open>Attr\<close>) to that resource. The engine and the
  readers of the configuration are parameters.
\<close>

section \<open>Resources\<close>

datatype part = Text string | Attr string string

type_synonym string_output = "part list"

datatype input = Str string_output | IntV int | BoolV bool | Arr "input list" | Obj "(string \<times> input) list"

record resource =
  re_Type :: string
  re_Name :: string
  re_Args :: "(string \<times> input) list"

datatype decl = New resource | Export string string_output

definition str :: "string \<Rightarrow> input" where
  "str s = Str [Text s]"

section \<open>Configuration\<close>

text \<open>\<open>config.Config\<close>: \<open>Get\<close> gives the empty string for a key that is not set, \<open>Require\<close> panics.\<close>

record infra_config =
  ic_Require :: "string \<Rightarrow> string option"
  ic_Get :: "string \<Rightarrow> string"
  ic_TryInt :: "string \<Rightarrow> go_error + int"
  ic_TryBool :: "string \<Rightarrow> go_error + bool"

record settings =
  se_project :: string
  se_region :: string
  se_sqlTier :: string
  se_minInstances :: int
  se_sqlBackups :: bool
  se_enableSecrets :: bool
  se_apiTag :: string
  se_vssTag :: string
  se_settlementTag :: string

definition or_default :: "string \<Rightarrow> string \<Rightarrow> string" where
  "or_default s d = (if s = '''' then d else s)"

definition read_settings :: "infra_config \<Rightarrow> infra_config \<Rightarrow> settings option" where
  "read_settings cfg gcpCfg =
     (case ic_Require gcpCfg ''project'' of
        None \<Rightarrow> None
      | Some project \<Rightarrow> Some
          \<lparr>se_project = project, se_region = or_default (ic_Get gcpCfg ''region'') ''us-central1'',
           se_sqlTier = or_default (ic_Get cfg ''sqlTier'') ''db-f1-micro'',
           se_minInstances = (case ic_TryInt cfg ''minInstances'' of Inl err \<Rightarrow> 0 | Inr n \<Rightarrow> n),
           se_sqlBackups = (case ic_TryBool cfg ''sqlBackups'' of Inl err \<Rightarrow> False | Inr b \<Rightarrow> b),
           se_enableSecrets = (case ic_TryBool cfg ''enableSecrets'' of Inl err \<Rightarrow> False | Inr b \<Rightarrow> b),
           se_apiTag = or_default (ic_Get cfg ''apiTag'') ''latest'',
           se_vssTag = or_default (ic_Get cfg ''vssTag'') ''latest'',
           se_settlementTag = or_default (ic_Get cfg ''settlementTag'') ''latest''\<rparr>)"

definition registryBase :: "settings \<Rightarrow> string" where
  "registryBase s = se_region s @ ''-docker.pkg.dev/'' @ se_project s @ ''/apex-check-deposit''"

section \<open>Storage\<close>

definition apex_repo :: "settings \<Rightarrow> resource" where
  "apex_repo s =
     \<lparr>re_Type = ''artifactregistry.Repository'', re_Name = ''apex-repo'', re_Args =
       [(''Project'', str (se_project s)), (''Location'', str (se_region s)),
        (''RepositoryId'', str ''apex-check-deposit''), (''Format'', str ''DOCKER'')]\<rparr>"

definition sql_instance :: "settings \<Rightarrow> resource" where
  "sql_instance s =
     \<lparr>re_Type = ''sql.DatabaseInstance'', re_Name = ''apex-postgres'', re_Args =
       [(''Project'', str (se_project s)), (''Region'', str (se_region s)),
        (''DatabaseVersion'', str ''POSTGRES_16''),
        (''Settings'', Obj
          [(''Tier'', str (se_sqlTier s)),
           (''BackupConfiguration'', Obj [(''Enabled'', BoolV (se_sqlBackups s))]),
           (''IpConfiguration'', Obj [(''Ipv4Enabled'', BoolV True)])]),
        (''DeletionProtection'', BoolV False)]\<rparr>"

definition sql_database :: "settings \<Rightarrow> resource" where
  "sql_database s =
     \<lparr>re_Type = ''sql.Database'', re_Name = ''apex-db'', re_Args =
       [(''Project'', str (se_project s)), (''Instance'', Str [Attr ''apex-postgres'' ''Name'']),
        (''Name'', str ''apex_check_deposit'')]\<rparr>"

definition sql_user :: "settings \<Rightarrow> resource" where
  "sql_user s =
     \<lparr>re_Type = ''sql.User'', re_Name = ''apex-user'', re_Args =
       [(''Project'', str (se_project s)), (''Instance'', Str [Attr ''apex-postgres'' ''Name'']),
        (''Name'', str ''apex''), (''Password'', str ''apex'')]\<rparr>"

definition dbURL :: string_output where
  "dbURL =
     [Text ''postgresql://apex:apex@/apex_check_deposit?host=/cloudsql/'',
      Attr ''apex-postgres'' ''ConnectionName'', Text ''&sslmode=disable'']"

definition image_bucket :: "settings \<Rightarrow> resource" where
  "image_bucket s =
     \<lparr>re_Type = ''storage.Bucket'', re_Name = ''apex-deposits'', re_Args =
       [(''Project'', str (se_project s)), (''Location'', str (se_region s)),
        (''Name'', str (''apex-deposits-'' @ se_project s)), (''UniformBucketLevelAccess'', BoolV True)]\<rparr>"

section \<open>Secrets\<close>

definition secret :: "settings \<Rightarrow> string \<Rightarrow> string \<Rightarrow> resource" where
  "secret s name i =
     \<lparr>re_Type = ''secretmanager.Secret'', re_Name = name, re_Args =
       [(''Project'', str (se_project s)), (''SecretId'', str i), (''Replication'', Obj [(''Auto'', Obj [])])]\<rparr>"

definition secret_version :: "string \<Rightarrow> string \<Rightarrow> resource" where
  "secret_version name secret_name =
     \<lparr>re_Type = ''secretmanager.SecretVersion'', re_Name = name, re_Args =
       [(''Secret'', Str [Attr secret_name ''ID'']), (''SecretData'', str ''changeme-before-first-deploy'')]\<rparr>"

definition secrets :: "settings \<Rightarrow> decl list" where
  "secrets s =
     (if se_enableSecrets s then
        [New (secret s ''jwt-secret'' ''JWT_SECRET''),
         New (secret_version ''jwt-secret-v1'' ''jwt-secret''),
         New (secret s ''settlement-token'' ''SETTLEMENT_BANK_TOKEN''),
         New (secret_version ''settlement-token-v1'' ''settlement-token''),
         Export ''jwtSecretName'' [Attr ''jwt-secret'' ''Name''],
         Export ''settlementTokenSecretName'' [Attr ''settlement-token'' ''Name'']]
      else [])"

section \<open>Services\<close>

definition env_var :: "string \<Rightarrow> string_output \<Rightarrow> input" where
  "env_var name v = Obj [(''Name'', str name), (''Value'', Str v)]"

definition container_ports :: "int \<Rightarrow> input" where
  "container_ports p = Arr [Obj [(''ContainerPort'', IntV p)]]"

definition image_ref :: "settings \<Rightarrow> string \<Rightarrow> string \<Rightarrow> input" where
  "image_ref s name tag = str (registryBase s @ ''/'' @ name @ '':'' @ tag)"

definition scaling :: "settings \<Rightarrow> int \<Rightarrow> input" where
  "scaling s n = Obj [(''MinInstanceCount'', IntV (se_minInstances s)), (''MaxInstanceCount'', IntV n)]"

text \<open>The arguments that the three services have in common, around their template.\<close>

definition service :: "settings \<Rightarrow> string \<Rightarrow> (string \<times> input) list \<Rightarrow> resource" where
  "service s name template =
     \<lparr>re_Type = ''cloudrunv2.Service'', re_Name = name, re_Args =
       [(''Project'', str (se_project s)), (''Location'', str (se_region s)),
        (''Ingress'', str ''INGRESS_TRAFFIC_ALL''), (''Template'', Obj template)]\<rparr>"

definition vss_service :: "settings \<Rightarrow> resource" where
  "vss_service s = service s ''vss''
     [(''Scaling'', scaling s 5),
      (''Containers'', Arr [Obj
        [(''Image'', image_ref s ''vss'' (se_vssTag s)),
         (''Ports'', container_ports 8081),
         (''Envs'', Arr
           [env_var ''VSS_PORT'' [Text ''8081''],
            env_var ''SCENARIOS_PATH'' [Text ''/scenarios/scenarios.yaml'']])]])]"

definition api_service :: "settings \<Rightarrow> resource" where
  "api_service s = service s ''api''
     [(''Scaling'', scaling s 10),
      (''Containers'', Arr [Obj
        [(''Image'', image_ref s ''api'' (se_apiTag s)),
         (''Ports'', container_ports 8080),
         (''Envs'', Arr
           [env_var ''API_PORT'' [Text ''8080''],
            env_var ''DATABASE_URL'' dbURL,
            env_var ''VSS_URL'' [Attr ''vss'' ''Uri''],
            env_var ''JWT_SECRET'' [Text ''dev-secret-change-in-production''],
            env_var ''SETTLEMENT_BANK_TOKEN'' [Text ''dev-settlement-token'']]),
         (''VolumeMounts'', Arr [Obj [(''Name'', str ''cloudsql''), (''MountPath'', str ''/cloudsql'')]]),
         (''StartupProbe'', Obj
           [(''TcpSocket'', Obj [(''Port'', IntV 8080)]), (''InitialDelaySeconds'', IntV 5),
            (''PeriodSeconds'', IntV 10), (''FailureThreshold'', IntV 20), (''TimeoutSeconds'', IntV 5)])]]),
      (''Volumes'', Arr [Obj
        [(''Name'', str ''cloudsql''),
         (''CloudSqlInstance'', Obj [(''Instances'', Arr [Str [Attr ''apex-postgres'' ''ConnectionName'']])])]])]"

definition settlement_service :: "settings \<Rightarrow> resource" where
  "settlement_service s = service s ''settlement''
     [(''Scaling'', scaling s 5),
      (''Containers'', Arr [Obj
        [(''Image'', image_ref s ''settlement'' (se_settlementTag s)),
         (''Ports'', container_ports 8082),
         (''Envs'', Arr
           [env_var ''SETTLEMENT_PORT'' [Text ''8082''],
            env_var ''API_URL'' [Attr ''api'' ''Uri''],
            env_var ''SETTLEMENT_BANK_TOKEN'' [Text ''dev-settlement-token'']])]])]"

definition hosting_site :: "settings \<Rightarrow> string \<Rightarrow> resource" where
  "hosting_site s stack =
     \<lparr>re_Type = ''firebase.HostingSite'', re_Name = ''apex-web'', re_Args =
       [(''Project'', str (se_project s)), (''SiteId'', str (''apex-check-deposit-'' @ stack))]\<rparr>"

definition firebase_invoker :: "settings \<Rightarrow> resource" where
  "firebase_invoker s =
     \<lparr>re_Type = ''cloudrunv2.ServiceIamMember'', re_Name = ''api-firebase-invoker'', re_Args =
       [(''Project'', str (se_project s)), (''Location'', str (se_region s)),
        (''Name'', Str [Attr ''api'' ''Name'']), (''Role'', str ''roles/run.invoker''),
        (''Member'', str (''serviceAccount:'' @ se_project s @ ''@appspot.gserviceaccount.com''))]\<rparr>"

definition outputs :: "decl list" where
  "outputs =
     [Export ''apiUrl'' [Attr ''api'' ''Uri''],
      Export ''apiServiceName'' [Attr ''api'' ''Name''],
      Export ''vssUrl'' [Attr ''vss'' ''Uri''],
      Export ''settlementUrl'' [Attr ''settlement'' ''Uri''],
      Export ''webUrl'' [Attr ''apex-web'' ''DefaultUrl''],
      Export ''dbConnectionName'' [Attr ''apex-postgres'' ''ConnectionName'']]"

section \<open>The program\<close>

definition declarations :: "settings \<Rightarrow> string \<Rightarrow> decl list" where
  "declarations s stack =
     [New (apex_repo s), New (sql_instance s), New (sql_database s), New (sql_user s), New (image_bucket s)] @
     secrets s @
     [New (vss_service s), New (api_service s), New (settlement_service s),
      New (hosting_site s stack), New (firebase_invoker s)] @
     outputs"

record deployment =
  de_Resources :: "resource list"
  de_Exports :: "(string \<times> string_output) list"

text \<open>Each constructor call may fail, which ends the program with that error. The engine may look at what is
  registered already.\<close>

type_synonym engine = "resource list \<Rightarrow> resource \<Rightarrow> go_error option"

fun declare_all :: "engine \<Rightarrow> decl list \<Rightarrow> deployment \<Rightarrow> go_error option \<times> deployment" where
  "declare_all eng [] d = (None, d)"
| "declare_all eng (New r # ds) d =
     (case eng (de_Resources d) r of
        Some err \<Rightarrow> (Some err, d)
      | None \<Rightarrow> declare_all eng ds (d\<lparr>de_Resources := de_Resources d @ [r]\<rparr>))"
| "declare_all eng (Export k v # ds) d = declare_all eng ds (d\<lparr>de_Exports := de_Exports d @ [(k, v)]\<rparr>)"

definition infra_run ::
  "infra_config \<Rightarrow> infra_config \<Rightarrow> string \<Rightarrow> engine \<Rightarrow> (go_error option \<times> deployment) outcome" where
  "infra_run cfg gcpCfg stack eng =
     (case read_settings cfg gcpCfg of
        None \<Rightarrow> Panicked ''missing required configuration variable''
      | Some s \<Rightarrow> Done (declare_all eng (declarations s stack) \<lparr>de_Resources = [], de_Exports = []\<rparr>))"

end
