(* ===== verification/DeploymentProperties.thy ===== *)
theory DeploymentProperties
  imports RouteProperties Startup Infrastructure
begin

text \<open>
  The properties of the deployment: every declared resource refers back to earlier ones, and the deployed
  processes find each other, with one exception.
\<close>

section \<open>References\<close>

fun part_refs :: "part \<Rightarrow> string set" where
  "part_refs (Text s) = {}"
| "part_refs (Attr r a) = {r}"

fun input_refs :: "input \<Rightarrow> string set" where
  "input_refs (Str v) = \<Union> (part_refs ` set v)"
| "input_refs (IntV n) = {}"
| "input_refs (BoolV b) = {}"
| "input_refs (Arr xs) = \<Union> (set (map input_refs xs))"
| "input_refs (Obj fs) = \<Union> (set (map (\<lambda>(k, v). input_refs v) fs))"

definition resource_refs :: "resource \<Rightarrow> string set" where
  "resource_refs r = input_refs (Obj (re_Args r))"

definition names :: "resource list \<Rightarrow> string set" where
  "names rs = re_Name ` set rs"

text \<open>A list of resources in which each refers to earlier ones only, with names of their own.\<close>

fun backward :: "string set \<Rightarrow> resource list \<Rightarrow> bool" where
  "backward N [] = True"
| "backward N (r # rs) = (re_Name r \<notin> N \<and> resource_refs r \<subseteq> N \<and> backward (insert (re_Name r) N) rs)"

fun new_resources :: "decl list \<Rightarrow> resource list" where
  "new_resources [] = []"
| "new_resources (New r # ds) = r # new_resources ds"
| "new_resources (Export k v # ds) = new_resources ds"

fun exports :: "decl list \<Rightarrow> (string \<times> string_output) list" where
  "exports [] = []"
| "exports (New r # ds) = exports ds"
| "exports (Export k v # ds) = (k, v) # exports ds"

lemma declare_all_result:
  "declare_all eng ds d = (err, d') \<Longrightarrow>
   \<exists>k. de_Resources d' = de_Resources d @ take k (new_resources ds) \<and>
     (err = None \<longrightarrow> k = length (new_resources ds) \<and> de_Exports d' = de_Exports d @ exports ds) \<and>
     (\<forall>x. err = Some x \<longrightarrow> k < length (new_resources ds) \<and> eng (de_Resources d') (new_resources ds ! k) = Some x)"
proof (induction eng ds d rule: declare_all.induct)
  case (2 eng r ds d)
  show ?case
  proof (cases "eng (de_Resources d) r")
    case None
    with 2(2) have "declare_all eng ds (d\<lparr>de_Resources := de_Resources d @ [r]\<rparr>) = (err, d')" by simp
    from 2(1) [OF None this] obtain k where
      "de_Resources d' = de_Resources d @ take (Suc k) (new_resources (New r # ds))"
      "err = None \<Longrightarrow> k = length (new_resources ds) \<and> de_Exports d' = de_Exports d @ exports ds"
      "\<And>x. err = Some x \<Longrightarrow> k < length (new_resources ds) \<and> eng (de_Resources d') (new_resources ds ! k) = Some x"
      by auto
    then show ?thesis by (intro exI [of _ "Suc k"]) simp
  next
    case (Some x)
    with 2(2) have "err = Some x" "d' = d" by simp_all
    with Some show ?thesis by (intro exI [of _ 0]) simp
  qed
qed auto

lemma backward_take: "backward N rs \<Longrightarrow> backward N (take k rs)"
  by (induction N rs arbitrary: k rule: backward.induct) (auto simp: take_Cons split: nat.split)

definition plan :: "settings \<Rightarrow> string \<Rightarrow> resource list" where
  "plan s stack = new_resources (declarations s stack)"

lemmas resource_defs = apex_repo_def sql_instance_def sql_database_def sql_user_def image_bucket_def secret_def
  secret_version_def vss_service_def api_service_def settlement_service_def hosting_site_def firebase_invoker_def
  service_def env_var_def container_ports_def image_ref_def scaling_def dbURL_def str_def

lemma plan_eq:
  "plan s stack = [apex_repo s, sql_instance s, sql_database s, sql_user s, image_bucket s] @
     (if se_enableSecrets s then [secret s ''jwt-secret'' ''JWT_SECRET'', secret_version ''jwt-secret-v1'' ''jwt-secret'',
        secret s ''settlement-token'' ''SETTLEMENT_BANK_TOKEN'', secret_version ''settlement-token-v1'' ''settlement-token'']
      else []) @
     [vss_service s, api_service s, settlement_service s, hosting_site s stack, firebase_invoker s]"
  by (simp add: plan_def declarations_def secrets_def outputs_def)

lemma plan_backward: "backward {} (plan s stack)"
  by (simp add: plan_eq resource_defs resource_refs_def)


lemma plan_services:
  "r \<in> set (plan s stack) \<Longrightarrow> re_Type r = ''cloudrunv2.Service'' \<Longrightarrow>
   resource_refs r \<subseteq> {''vss'', ''api'', ''apex-postgres''}"
  by (auto simp: plan_eq resource_defs resource_refs_def split: if_splits)

lemma names_plan:
  "names (plan s stack) \<supseteq> {''api'', ''vss'', ''settlement'', ''apex-web'', ''apex-postgres''} \<union>
     (if se_enableSecrets s then {''jwt-secret'', ''settlement-token''} else {})"
  by (cases "se_enableSecrets s") (simp_all add: names_def plan_eq resource_defs)

lemma exports_refs:
  assumes "(k, v) \<in> set (exports (declarations s stack))"
  shows "\<Union> (part_refs ` set v) \<subseteq> names (plan s stack)"
proof -
  have "\<forall>(k, v) \<in> set (exports (declarations s stack)). \<Union> (part_refs ` set v) \<subseteq>
    {''api'', ''vss'', ''settlement'', ''apex-web'', ''apex-postgres''} \<union>
     (if se_enableSecrets s then {''jwt-secret'', ''settlement-token''} else {})"
    by (simp add: declarations_def secrets_def outputs_def)
  from bspec [OF this assms] show ?thesis unfolding prod.case using names_plan by (rule subset_trans)
qed

text \<open>C39. However the engine answers, the deployed resources have distinct names and each refers to earlier
  ones only, and no service refers to anything but the Vendor Service, the API and the database instance, so the
  secrets of the secret manager reach none of them. The program stops at the first resource that the engine
  refuses, with the error of the engine; without an error everything is deployed, and the exported outputs are
  those of deployed resources.\<close>

theorem deployment_refers_back:
  assumes "infra_run cfg gcpCfg stack eng = Done (err, d)"
  shows "backward {} (de_Resources d) \<and>
    (\<forall>r \<in> set (de_Resources d). re_Type r = ''cloudrunv2.Service'' \<longrightarrow> resource_refs r \<subseteq> {''vss'', ''api'', ''apex-postgres''}) \<and>
    (\<exists>s. read_settings cfg gcpCfg = Some s \<and>
      (err = None \<longrightarrow> de_Resources d = plan s stack \<and>
        (\<forall>(k, v) \<in> set (de_Exports d). \<Union> (part_refs ` set v) \<subseteq> names (de_Resources d))) \<and>
      (\<forall>x. err = Some x \<longrightarrow> (\<exists>r rest. plan s stack = de_Resources d @ r # rest \<and> eng (de_Resources d) r = Some x)))"
proof -
  from assms obtain s where s: "read_settings cfg gcpCfg = Some s"
    and run: "declare_all eng (declarations s stack) \<lparr>de_Resources = [], de_Exports = []\<rparr> = (err, d)"
    by (auto simp: infra_run_def split: option.splits)
  from declare_all_result [OF run] obtain k where k: "de_Resources d = take k (plan s stack)"
    "err = None \<Longrightarrow> k = length (plan s stack) \<and> de_Exports d = exports (declarations s stack)"
    "\<And>x. err = Some x \<Longrightarrow> k < length (plan s stack) \<and> eng (de_Resources d) (plan s stack ! k) = Some x"
    by (auto simp: plan_def)
  have "backward {} (de_Resources d)" unfolding k(1) by (rule backward_take [OF plan_backward])
  moreover have "\<forall>r \<in> set (de_Resources d). re_Type r = ''cloudrunv2.Service'' \<longrightarrow>
      resource_refs r \<subseteq> {''vss'', ''api'', ''apex-postgres''}"
    using plan_services k(1) in_set_takeD by metis
  moreover have "\<forall>x. err = Some x \<longrightarrow> (\<exists>r rest. plan s stack = de_Resources d @ r # rest \<and> eng (de_Resources d) r = Some x)"
    using k(1,3) id_take_nth_drop [of k "plan s stack"] by metis
  moreover have "de_Resources d = plan s stack \<and>
      (\<forall>(k, v) \<in> set (de_Exports d). \<Union> (part_refs ` set v) \<subseteq> names (de_Resources d))" if "err = None"
    using k(1) k(2) [OF that] exports_refs [of _ _ s stack] by (simp add: Ball_def split_beta)
  ultimately show ?thesis using s by blast
qed

text \<open>The stack \<open>prod\<close> of \<open>Pulumi.prod.yaml\<close>; the first engine accepts everything, the second no service.\<close>

definition prod_config :: "infra_config" where
  "prod_config =
     \<lparr>ic_Require = (\<lambda>k. Some ''apex-check-deposit-prod''),
      ic_Get = (\<lambda>k. if k = ''region'' then ''us-central1'' else if k = ''sqlTier'' then ''db-g1-small'' else ''latest''),
      ic_TryInt = (\<lambda>k. Inr 1), ic_TryBool = (\<lambda>k. Inr True)\<rparr>"

definition accepting :: engine where
  "accepting rs r = None"

definition no_services :: engine where
  "no_services rs r = (if re_Type r = ''cloudrunv2.Service'' then Some (EMsg ''org policy'') else None)"

theorem deployment_refers_back_witness:
  "\<exists>d. infra_run prod_config prod_config ''prod'' no_services = Done (Some (EMsg ''org policy''), d) \<and>
     backward {} (de_Resources d) \<and> (\<exists>r rest. (\<exists>s. plan s ''prod'' = de_Resources d @ r # rest) \<and>
       no_services (de_Resources d) r = Some (EMsg ''org policy''))"
proof -
  obtain s where s: "read_settings prod_config prod_config = Some s" "se_enableSecrets s"
    by (simp add: read_settings_def prod_config_def)
  then obtain d where d: "infra_run prod_config prod_config ''prod'' no_services = Done (Some (EMsg ''org policy''), d)"
    by (simp add: infra_run_def declarations_def secrets_def no_services_def resource_defs)
  with deployment_refers_back [OF d] show ?thesis by auto
qed

section \<open>Addresses\<close>

fun field :: "string \<Rightarrow> input \<Rightarrow> input option" where
  "field k (Obj fs) = map_of fs k"
| "field k _ = None"

fun elements :: "input \<Rightarrow> input list" where
  "elements (Arr xs) = xs"
| "elements _ = []"

definition container :: "resource \<Rightarrow> input option" where
  "container r = Option.bind (map_of (re_Args r) ''Template'') (\<lambda>t.
     Option.bind (field ''Containers'' t) (\<lambda>cs. case elements cs of [] \<Rightarrow> None | c # _ \<Rightarrow> Some c))"

definition container_port :: "resource \<Rightarrow> int option" where
  "container_port r = Option.bind (container r) (\<lambda>c. Option.bind (field ''Ports'' c) (\<lambda>ps.
     case elements ps of [] \<Rightarrow> None | p # _ \<Rightarrow>
       (case field ''ContainerPort'' p of Some (IntV n) \<Rightarrow> Some n | _ \<Rightarrow> None)))"

definition container_env :: "resource \<Rightarrow> (string \<times> string_output) list" where
  "container_env r =
     (case Option.bind (container r) (field ''Envs'') of
        None \<Rightarrow> []
      | Some vs \<Rightarrow> List.map_filter (\<lambda>v. case (field ''Name'' v, field ''Value'' v) of
            (Some (Str [Text n]), Some (Str x)) \<Rightarrow> Some (n, x) | _ \<Rightarrow> None) (elements vs))"

text \<open>The text of an output once the attributes of the resources are known.\<close>

fun resolve :: "(string \<Rightarrow> string \<Rightarrow> string) \<Rightarrow> string_output \<Rightarrow> string" where
  "resolve attr [] = ''''"
| "resolve attr (Text s # ps) = s @ resolve attr ps"
| "resolve attr (Attr r a # ps) = attr r a @ resolve attr ps"

text \<open>What Cloud Run documents of the environment of a container: the declared variables, \<open>PORT\<close> with the declared
  port, and variables of its own whose names start with \<open>K_\<close> or \<open>CLOUD_RUN_\<close>. The images set none of the variables
  that the programs read.\<close>

definition cloud_run_env :: "(string \<Rightarrow> string \<Rightarrow> string) \<Rightarrow> resource \<Rightarrow> (string \<Rightarrow> string) \<Rightarrow> bool" where
  "cloud_run_env attr r genv \<longleftrightarrow>
     (\<forall>(k, v) \<in> set (container_env r). genv k = resolve attr v) \<and>
     (\<forall>p. container_port r = Some p \<longrightarrow> genv ''PORT'' = nat_text (nat p)) \<and>
     (\<forall>k \<in> {''API_PORT'', ''DATABASE_URL'', ''VSS_URL'', ''SETTLEMENT_BANK_URL'', ''SCENARIOS_PATH'', ''VSS_PORT'',
        ''SETTLEMENT_PORT'', ''API_URL'', ''SETTLEMENT_BANK_TOKEN''}. k \<notin> fst ` set (container_env r) \<longrightarrow> genv k = '''')"

lemma service_ports:
  "container_port (vss_service s) = Some 8081" "container_port (api_service s) = Some 8080"
  "container_port (settlement_service s) = Some 8082"
  by (simp_all add: container_port_def container_def resource_defs)

lemma service_envs:
  "container_env (vss_service s) = [(''VSS_PORT'', [Text ''8081'']), (''SCENARIOS_PATH'', [Text ''/scenarios/scenarios.yaml''])]"
  "container_env (api_service s) = [(''API_PORT'', [Text ''8080'']), (''DATABASE_URL'', dbURL),
     (''VSS_URL'', [Attr ''vss'' ''Uri'']), (''JWT_SECRET'', [Text ''dev-secret-change-in-production'']),
     (''SETTLEMENT_BANK_TOKEN'', [Text ''dev-settlement-token''])]"
  "container_env (settlement_service s) = [(''SETTLEMENT_PORT'', [Text ''8082'']), (''API_URL'', [Attr ''api'' ''Uri'']),
     (''SETTLEMENT_BANK_TOKEN'', [Text ''dev-settlement-token''])]"
  by (simp_all add: container_env_def container_def resource_defs List.map_filter_def)


lemma deployed_envs:
  assumes "infra_run cfg gcpCfg stack eng = Done (None, d)"
    and "\<forall>r \<in> set (de_Resources d). re_Type r = ''cloudrunv2.Service'' \<longrightarrow> cloud_run_env attr r (genv (re_Name r))"
  obtains s where "read_settings cfg gcpCfg = Some s" "cloud_run_env attr (vss_service s) (genv ''vss'')"
    "cloud_run_env attr (api_service s) (genv ''api'')" "cloud_run_env attr (settlement_service s) (genv ''settlement'')"
proof -
  from assms(1) obtain s where s: "read_settings cfg gcpCfg = Some s"
    and run: "declare_all eng (declarations s stack) \<lparr>de_Resources = [], de_Exports = []\<rparr> = (None, d)"
    by (auto simp: infra_run_def split: option.splits)
  from declare_all_result [OF run] have "de_Resources d = plan s stack" by (auto simp: plan_def)
  then have "{vss_service s, api_service s, settlement_service s} \<subseteq> set (de_Resources d)" by (simp add: plan_eq)
  moreover have "re_Type (service s n t) = ''cloudrunv2.Service''" for n t by (simp add: service_def)
  moreover have names: "re_Name (vss_service s) = ''vss''" "re_Name (api_service s) = ''api''"
    "re_Name (settlement_service s) = ''settlement''"
    by (simp_all add: resource_defs)
  ultimately have env: "cloud_run_env attr r (genv (re_Name r))" if "r \<in> {vss_service s, api_service s, settlement_service s}" for r
    using that assms(2) unfolding vss_service_def api_service_def settlement_service_def by blast
  show ?thesis
    using that [OF s] env [of "vss_service s"] env [of "api_service s"] env [of "settlement_service s"] names by simp
qed

lemma settlement_token_accepted:
  assumes "getenv e ''SETTLEMENT_BANK_TOKEN'' = tok" "tok \<noteq> ''''"
    and "hr_Method r = ''POST''" "hr_Path r = [''returns'']" "hr_Authorization r = ''Bearer '' @ tok"
  shows "\<exists>p. apiMux scen r = Reply p \<and> run p e w = run (ReturnHandler_ProcessReturn (hr_Return r)) e w"
proof -
  have "apiMux scen r = Reply (serve (RqReturn (hr_Return r) (hr_Authorization r)))"
    using assms(3,4)
    by (simp add: apiMux_def redirected_def clean_path_def corsMiddleware_def mux_def routes_def deposit_routes_def
        match_method_def serve_endpoint_def)
  moreover have "extractBearerToken (hr_Authorization r) = tok"
    using extractBearerToken_eq [OF assms(2)] assms(5) by blast
  ultimately show ?thesis using assms(1,2) by (simp add: SettlementAuth_def run_bind run_go_getenv)
qed

text \<open>C40. Once the deployment has succeeded, each process listens on the port of its container, the API calls the
  Vendor Service at its address and for a path that it serves, and the settlement bank's callback reaches
  \<open>POST /returns\<close> of the API with a token that the API accepts. But the API looks for the settlement bank at
  \<open>localhost\<close>, where it is not, and for the scenario file at a relative path.\<close>

theorem deployed_services_find_each_other:
  assumes "infra_run cfg gcpCfg stack eng = Done (None, d)"
    and "\<forall>r \<in> set (de_Resources d). re_Type r = ''cloudrunv2.Service'' \<longrightarrow> cloud_run_env attr r (genv (re_Name r))"
    and "attr ''vss'' ''Uri'' \<noteq> ''''" "attr ''api'' ''Uri'' \<noteq> ''''" "attr ''settlement'' ''Uri'' \<noteq> ''http://localhost:8082''"
  shows "(\<exists>s. read_settings cfg gcpCfg = Some s \<and>
      map_option (nat_text o nat) (container_port (vss_service s)) = Some (vendor_port (genv ''vss'')) \<and>
      map_option (nat_text o nat) (container_port (api_service s)) = Some (api_port (genv ''api'')) \<and>
      map_option (nat_text o nat) (container_port (settlement_service s)) = Some (settlement_port (genv ''settlement''))) \<and>
    answers (attr ''vss'' ''Uri'') vendor_routes (validate_target (vss_url (genv ''api''))) \<and>
    scenarios_path (genv ''vss'') = ''/scenarios/scenarios.yaml'' \<and>
    callback_target (genv ''settlement'') = (attr ''api'' ''Uri'', ''POST'', [''returns'']) \<and>
    (\<forall>scen r e w. getenv e = genv ''api'' \<longrightarrow> hr_Method r = ''POST'' \<longrightarrow> hr_Path r = [''returns''] \<longrightarrow>
      hr_Authorization r = ''Bearer '' @ genv ''settlement'' ''SETTLEMENT_BANK_TOKEN'' \<longrightarrow>
      (\<exists>p. apiMux scen r = Reply p \<and> run p e w = run (ReturnHandler_ProcessReturn (hr_Return r)) e w)) \<and>
    \<not> answers (attr ''settlement'' ''Uri'') settlement_routes (submit_target (settlement_bank_url (genv ''api''))) \<and>
    scenarios_path (genv ''api'') = ''test-scenarios/scenarios.yaml''"
proof -
  from deployed_envs [OF assms(1,2)] obtain s where s: "read_settings cfg gcpCfg = Some s"
    "cloud_run_env attr (vss_service s) (genv ''vss'')" "cloud_run_env attr (api_service s) (genv ''api'')"
    "cloud_run_env attr (settlement_service s) (genv ''settlement'')" .
  have vss: "genv ''vss'' ''PORT'' = nat_text 8081" "genv ''vss'' ''SCENARIOS_PATH'' = ''/scenarios/scenarios.yaml''"
    using s(2) by (simp_all add: cloud_run_env_def service_ports service_envs)
  have api: "genv ''api'' ''PORT'' = nat_text 8080" "genv ''api'' ''VSS_URL'' = attr ''vss'' ''Uri''"
    "genv ''api'' ''SETTLEMENT_BANK_TOKEN'' = ''dev-settlement-token''" "genv ''api'' ''SETTLEMENT_BANK_URL'' = ''''"
    "genv ''api'' ''SCENARIOS_PATH'' = ''''"
    using s(3) by (simp_all add: cloud_run_env_def service_ports service_envs)
  have bank: "genv ''settlement'' ''PORT'' = nat_text 8082" "genv ''settlement'' ''API_URL'' = attr ''api'' ''Uri''"
    "genv ''settlement'' ''SETTLEMENT_BANK_TOKEN'' = ''dev-settlement-token''"
    using s(4) by (simp_all add: cloud_run_env_def service_ports service_envs)
  have "\<exists>p. apiMux scen r = Reply p \<and> run p e w = run (ReturnHandler_ProcessReturn (hr_Return r)) e w"
    if "getenv e = genv ''api''" "hr_Method r = ''POST''" "hr_Path r = [''returns'']"
      "hr_Authorization r = ''Bearer '' @ genv ''settlement'' ''SETTLEMENT_BANK_TOKEN''" for scen r e w
    using settlement_token_accepted [OF _ _ that(2,3), of e "''dev-settlement-token''" scen w] that(1,4) api(3) bank(3)
    by simp
  moreover have "vss_url (genv ''api'') = attr ''vss'' ''Uri''" "callback_url (genv ''settlement'') = attr ''api'' ''Uri''"
    "settlement_bank_url (genv ''api'') = ''http://localhost:8082''" "scenarios_path (genv ''api'') = ''test-scenarios/scenarios.yaml''"
    "scenarios_path (genv ''vss'') = ''/scenarios/scenarios.yaml''"
    using assms(3,4) vss api bank
    by (simp_all add: vss_url_def callback_url_def settlement_bank_url_def scenarios_path_def)
  moreover have "answers (attr ''vss'' ''Uri'') vendor_routes (validate_target (attr ''vss'' ''Uri''))"
    by (rule stub_answers)
  moreover have "\<not> answers (attr ''settlement'' ''Uri'') settlement_routes (submit_target ''http://localhost:8082'')"
    using assms(5) by (simp add: answers_def submit_target_def)
  ultimately show ?thesis
    using s(1) vss(1) api(1) bank(1)
    by (simp add: service_ports vendor_port_def api_port_def settlement_port_def callback_target_def)
qed

text \<open>An environment as Cloud Run gives it.\<close>

definition cloud_env :: "(string \<Rightarrow> string \<Rightarrow> string) \<Rightarrow> resource \<Rightarrow> string \<Rightarrow> string" where
  "cloud_env attr r k =
     (case map_of (container_env r) k of
        Some v \<Rightarrow> resolve attr v
      | None \<Rightarrow> if k = ''PORT'' then (case container_port r of Some p \<Rightarrow> nat_text (nat p) | None \<Rightarrow> '''') else '''')"

definition demo_attr :: "string \<Rightarrow> string \<Rightarrow> string" where
  "demo_attr r a = ''https://'' @ r @ ''.run.app''"

lemma cloud_env_ok:
  assumes "distinct (map fst (container_env r))" "''PORT'' \<notin> fst ` set (container_env r)"
  shows "cloud_run_env attr r (cloud_env attr r)"
proof -
  have "map_of (container_env r) k = None" if "k \<notin> fst ` set (container_env r)" for k
    using that by (simp add: map_of_eq_None_iff)
  with assms show ?thesis by (auto simp: cloud_run_env_def cloud_env_def)
qed

definition demo_genv :: "settings \<Rightarrow> string \<Rightarrow> string \<Rightarrow> string" where
  "demo_genv s name = cloud_env demo_attr
     (if name = ''vss'' then vss_service s else if name = ''api'' then api_service s else settlement_service s)"

lemma service_in_plan:
  assumes "r \<in> set (plan s stack)" "re_Type r = ''cloudrunv2.Service''"
  shows "r \<in> {vss_service s, api_service s, settlement_service s}"
proof -
  have "re_Type x \<noteq> ''cloudrunv2.Service''"
    if "x \<in> {apex_repo s, sql_instance s, sql_database s, sql_user s, image_bucket s, secret s n i, secret_version n i,
      hosting_site s stack, firebase_invoker s}" for x n i
    using that
    by (auto simp: apex_repo_def sql_instance_def sql_database_def sql_user_def image_bucket_def secret_def
        secret_version_def hosting_site_def firebase_invoker_def)
  with assms show ?thesis unfolding plan_eq by (simp split: if_splits) blast+
qed

lemma demo_deployed:
  obtains s d where "read_settings prod_config prod_config = Some s"
    "infra_run prod_config prod_config ''prod'' accepting = Done (None, d)"
    "\<forall>r \<in> set (de_Resources d). re_Type r = ''cloudrunv2.Service'' \<longrightarrow> cloud_run_env demo_attr r (demo_genv s (re_Name r))"
proof -
  obtain s where s: "read_settings prod_config prod_config = Some s" by (simp add: read_settings_def prod_config_def)
  have "declare_all accepting ds e = (None, snd (declare_all accepting ds e))" for ds e
    by (induction accepting ds e rule: declare_all.induct) (simp_all add: accepting_def)
  then obtain d where run: "declare_all accepting (declarations s ''prod'') \<lparr>de_Resources = [], de_Exports = []\<rparr> = (None, d)"
    by blast
  from declare_all_result [OF run] have d: "de_Resources d = plan s ''prod''" by (auto simp: plan_def)
  have "cloud_run_env demo_attr r (demo_genv s (re_Name r))"
    if "r \<in> {vss_service s, api_service s, settlement_service s}" for r
  proof -
    have n: "re_Name (vss_service s) = ''vss''" "re_Name (api_service s) = ''api''"
      "re_Name (settlement_service s) = ''settlement''"
      by (simp_all add: resource_defs)
    from that have "demo_genv s (re_Name r) = cloud_env demo_attr r" by (auto simp: demo_genv_def n)
    moreover from that have "cloud_run_env demo_attr r (cloud_env demo_attr r)"
      by (intro cloud_env_ok) (auto simp: service_envs)
    ultimately show ?thesis by simp
  qed
  then have "\<forall>r \<in> set (de_Resources d). re_Type r = ''cloudrunv2.Service'' \<longrightarrow> cloud_run_env demo_attr r (demo_genv s (re_Name r))"
    unfolding d using service_in_plan by blast
  moreover have "infra_run prod_config prod_config ''prod'' accepting = Done (None, d)"
    using run by (simp add: infra_run_def s)
  ultimately show ?thesis using s by (intro that)
qed

theorem deployed_services_find_each_other_witness:
  "\<exists>s. read_settings prod_config prod_config = Some s \<and>
     answers ''https://vss.run.app'' vendor_routes (validate_target (vss_url (demo_genv s ''api''))) \<and>
     callback_target (demo_genv s ''settlement'') = (''https://api.run.app'', ''POST'', [''returns'']) \<and>
     \<not> answers ''https://settlement.run.app'' settlement_routes (submit_target (settlement_bank_url (demo_genv s ''api'')))"
proof -
  obtain s d where s: "read_settings prod_config prod_config = Some s"
    and d: "infra_run prod_config prod_config ''prod'' accepting = Done (None, d)"
      "\<forall>r \<in> set (de_Resources d). re_Type r = ''cloudrunv2.Service'' \<longrightarrow> cloud_run_env demo_attr r (demo_genv s (re_Name r))"
    by (rule demo_deployed)
  have "demo_attr ''vss'' ''Uri'' \<noteq> ''''" "demo_attr ''api'' ''Uri'' \<noteq> ''''"
    "demo_attr ''settlement'' ''Uri'' \<noteq> ''http://localhost:8082''"
    by (simp_all add: demo_attr_def)
  from deployed_services_find_each_other [OF d this] s show ?thesis by (auto simp: demo_attr_def)
qed

end
