(* ===== verification/Spec2Isabelle.thy ===== *)
theory Spec2Isabelle
  imports SystemProperties DepositProperties ReturnProperties SettlementProperties
    RouteProperties HandlerProperties OperatorProperties EdgeProperties DeploymentProperties
begin

text \<open>
  The check deposit system: mobile deposits are validated by a Vendor Service, checked by the funding rules of
  the investor's correspondent, posted to a double entry ledger, reviewed by operators when flagged, settled
  in daily batches with a settlement bank, and possibly returned by that bank with a fee. The program is a Go
  HTTP server over a PostgreSQL database (\<open>src/cmd/api\<close>, \<open>src/internal\<close>) with two stub servers, deployed to Cloud
  Run by a Pulumi program (\<open>src/infra\<close>).

  \<^bold>\<open>How the code is modelled.\<close> Theory \<open>Runtime\<close> gives Go programs a tree of atomic steps: one SQL statement or
  database transaction, one HTTP exchange, one file access, one clock reading, one UUID. An environment
  decides for each step what the code does not control: whether a database call is lost on the way there or
  back, the clock, the UUIDs, the answers of the other services. \<open>run\<close> executes one request alone; \<open>sys_step\<close>
  interleaves the steps of any number of requests and lets requests arrive and die anywhere. Go's \<open>error\<close>
  results are values of \<open>go_error\<close>, a panic is an outcome of its own, and early returns are branches. Amounts
  are \<open>float64\<close> in Go and NUMERIC in the database: theory \<open>Float64\<close> has the rounding of binary64 with infinities
  and NaN, \<open>Tables\<close> the rows of \<open>db/migrations\<close>, and \<open>Schema\<close> its keys, references, ranges and checks as the type
  of a database.

  \<^bold>\<open>Theories and the code they model.\<close>
  \<^item> Foundations: \<open>Prelude\<close> (strings, numerals, tables by key), \<open>Float64\<close>, \<open>Types\<close> (\<open>vendorclient/interface.go\<close>,
    \<open>funding/interface.go\<close>, \<open>ledger/interface.go\<close>, types of \<open>settlement/engine.go\<close>), \<open>States\<close> (\<open>orchestrator/states.go\<close>,
    \<open>errors.go\<close>), \<open>Tables\<close>, \<open>Runtime\<close>, \<open>Outcomes\<close> (reasoning about \<open>run\<close>), \<open>RelyGuarantee\<close> (reasoning about
    interleaving).
  \<^item> Stores, one definition per method and one per SQL statement: \<open>StoreTransfers\<close> (\<open>store/transfers.go\<close>), \<open>StoreLedger\<close>
    (\<open>store/ledger.go\<close>, \<open>accounts.go\<close>, \<open>correspondents.go\<close>, \<open>notifications.go\<close>), \<open>StoreSettlement\<close> (\<open>store/settlement.go\<close>,
    the queries of \<open>cmd/api/main.go\<close>, the table of \<open>middleware/idempotency.go\<close>).
  \<^item> Services: \<open>LedgerService\<close> (\<open>ledger/service.go\<close>), \<open>Funding\<close> (\<open>funding/rules.go\<close>, \<open>engine.go\<close>), \<open>Orchestrator\<close>
    (\<open>orchestrator/flow.go\<close>, \<open>transition.go\<close>, \<open>flag.go\<close>, \<open>updates.go\<close>, \<open>events.go\<close>, \<open>vendorclient/http.go\<close>), \<open>Returns\<close>
    (\<open>returns/handler.go\<close>), \<open>Cutoff\<close> (\<open>settlement/cutoff.go\<close>), \<open>Settlement\<close> (\<open>settlement/engine.go\<close>). Injected
    interfaces are records of functions (\<open>Deps\<close>, \<open>ReturnDeps\<close>); \<open>orchDeps\<close>, \<open>returnDeps\<close> and \<open>settlementEngine\<close> are the
    wiring of \<open>cmd/api/main.go\<close>.
  \<^item> HTTP layer: \<open>Middleware\<close> (\<open>cmd/api/middleware\<close>), \<open>DepositHandler\<close>, \<open>OperatorHandler\<close>, \<open>SettlementHandler\<close>
    (\<open>cmd/api/handlers\<close>), \<open>Server\<close> (what \<open>main.go\<close> routes to: \<open>serve\<close>), \<open>Routes\<close> (the patterns of \<open>main.go\<close>, the
    multiplexer, the CORS middleware and the prefix \<open>/api\<close>).
  \<^item> Edges: \<open>Streams\<close> (\<open>events/sse.go\<close>), \<open>StubServers\<close> (\<open>cmd/vendor-stub\<close>, \<open>cmd/settlement-stub\<close>, \<open>handlers/scenarios.go\<close>),
    \<open>CloudAuth\<close> (\<open>cloudauth/transport.go\<close>), \<open>Logging\<close> (\<open>logging/redact.go\<close>).
  \<^item> Processes: \<open>Startup\<close> (the \<open>main\<close> functions: settings, the wait for the database, addresses, the targets of the
    HTTP clients), \<open>Infrastructure\<close> (\<open>infra/main.go\<close>: the declared resources with all their arguments).
  \<^item> Specifications and proofs: \<open>Queries\<close> (reading methods), \<open>Statements\<close> (every write of the program as an
    \<open>inductive\<close> relation), \<open>Schema\<close>, \<open>Lawful\<close>, \<open>Backed\<close>, \<open>Concurrent\<close>, \<open>Safety\<close>, \<open>System\<close> (every step of every request),
    \<open>AuditTrail\<close> (what the events say of their transfers),
    \<open>DepositFlow\<close>, \<open>DepositSpec\<close>, \<open>DepositRequest\<close>, \<open>Idempotence\<close>, \<open>ReturnFlow\<close>, \<open>SettlementFlow\<close>, \<open>SettlementSpec\<close>,
    and \<open>Example\<close>, the database of \<open>db/seed.sql\<close> on which the witnesses run.

  \<^bold>\<open>What is shown.\<close>
  \<^item> \<open>SystemProperties\<close> (C1 to C8), for every reachable state of the concurrent system under lost calls, crashes and
    any schedule: a transfer in a state that stands for money has its ledger entries, the books balance,
    nothing is posted twice, the database stays well-typed, a transfer moves along the state machine only, the
    ledger, the audit trail and the stored responses are append-only, and the audit trail never tells of a
    transition that did not happen (it may lack one: the update and its event are two statements). The proofs are
    by rely and guarantee: \<open>lawful\<close>, \<open>money_step\<close>, \<open>audit_step\<close> and \<open>api_step\<close> hold of each step of each request, and
    the locales of \<open>Runtime\<close> and \<open>RelyGuarantee\<close>, interpreted on \<open>serve\<close> in \<open>System\<close>, \<open>AuditTrail\<close> and \<open>Schema\<close>, lift
    them to executions.
  \<^item> \<open>DepositProperties\<close> (C9 to C15): the state machine, transitions under any fault, atomic and exact postings, the
    money texts, the funding engine against a reference function, and \<open>ProcessDeposit\<close> against \<open>deposit_spec\<close>.
  \<^item> \<open>ReturnProperties\<close> (C16 to C19): a complete return, the refusals, and what an interrupted return leaves.
  \<^item> \<open>SettlementProperties\<close> (C20 to C26): the calendar (the search for a business day ends within nine days), the
    cutoffs, the batches of a run, the acknowledgment.
  \<^item> \<open>RouteProperties\<close> (C27, C28): the patterns do not overlap, and what a request without a token can do on any path.
  \<^item> \<open>HandlerProperties\<close> and \<open>OperatorProperties\<close> (C29 to C35): isolation of correspondents, replay by idempotency
    key, the life of \<open>POST /deposits\<close>, the operator's decisions.
  \<^item> \<open>EdgeProperties\<close> (C36 to C38): the event stream and the stubs run against the API; also lemmas on the identity
    tokens, the transaction ids of the Vendor Service stub and the redaction of the log.
  \<^item> \<open>DeploymentProperties\<close> (C39, C40): the declared resources refer back, also when the deployment stops half-way, and
    the deployed processes find each other, but for the settlement bank.

  Properties that say what a request achieves assume a run without lost calls (\<open>fault_free\<close>) and say so; they
  conclude that it returns. Recursion needs no fuel: loops are structural or have a measure (\<open>NextBusinessDay\<close>,
  \<open>await_database\<close>).
  The documented behaviour of code outside the repository appears as hypotheses: \<open>canonical\<close> (the UUID parser),
  \<open>shortest_reads_back\<close> (the driver's decimal text of a float), \<open>uuid_env\<close> (fresh UUIDs are new), \<open>chicago\<close> (the offsets
  of the time zone), \<open>cloud_run_env\<close> (the environment that Cloud Run gives a container).

  \<^bold>\<open>Not modelled.\<close> The sockets, the CORS and other response headers, the JSON and YAML parsers (a request body is
  given as what it decodes to) and percent escapes in paths, the PostgreSQL listener, the logger
  (\<open>logging/logger.go\<close> only hands standard output to the library) and log output, Pulumi itself, and the web
  frontend, which is not Go. The row level security policies are never activated by the code and have no effect in
  the model. Two transactions never run at the same time inside the database: each statement is one step.
\<close>

end
